(* ===== verification/F64.thy ===== *)
theory F64
  imports Complex_Main "HOL-Library.Log_Nat"
begin

text \<open>
  Rust's \<^verbatim>\<open>f64\<close> (and the one \<^verbatim>\<open>f32\<close> field of the program) as IEEE 754 binary formats.  Every
  component of the control plane accounts capacity, shares and scores in \<^verbatim>\<open>f64\<close>, so the theories
  above this one compute with the rounded operations of the hardware and not with rationals.

  A datum is NaN, an infinity with its sign, or a sign and a magnitude; an operation computes the
  exact rational result and rounds its magnitude once, to nearest with ties to even.  The operations
  are executable.  The laws the other theories use are: rounding is monotone, exact on the format's
  own numbers, and its error is half a unit in the last place.  They are proved once for any
  precision in the locale \<open>binary_format\<close> and interpreted for binary64 and binary32.
\<close>

section \<open>Binary rounding\<close>

definition pow2 :: "int \<Rightarrow> rat" where
  "pow2 k = (if 0 \<le> k then of_int (2 ^ nat k) else 1 / of_int (2 ^ nat (- k)))"

text \<open>The position of the leading bit: \<open>2 ^ ilog2 q \<le> q < 2 ^ (ilog2 q + 1)\<close> for positive \<open>q\<close>.\<close>

definition ilog2 :: "rat \<Rightarrow> int" where
  "ilog2 q = (let (n, d) = quotient_of q; k = bitlen n - bitlen d
              in if pow2 k \<le> q then k else k - 1)"

text \<open>The nearest integer, an even one at a tie.\<close>

definition rne :: "rat \<Rightarrow> int" where
  "rne q = (let f = \<lfloor>q\<rfloor>; r = q - of_int f
            in if r < 1 / 2 then f else if 1 / 2 < r then f + 1
               else if even f then f else f + 1)"

text \<open>
  A format with \<open>p\<close> significant bits whose least positive number is \<open>2 ^ emin\<close>: the weight of the
  last place of \<open>m\<close>, and \<open>m\<close> rounded to a multiple of it.
\<close>

definition ulp_exp :: "int \<Rightarrow> int \<Rightarrow> rat \<Rightarrow> int" where
  "ulp_exp p emin m = max emin (ilog2 m - (p - 1))"

definition round_fmt :: "int \<Rightarrow> int \<Rightarrow> rat \<Rightarrow> rat" where
  "round_fmt p emin m =
     (if m = 0 then 0
      else let u = pow2 (ulp_exp p emin m) in of_int (rne (m / u)) * u)"

subsection \<open>Powers of two and the leading bit\<close>

lemma pow2_powi: "pow2 k = 2 powi k"
  by (simp add: pow2_def power_int_def field_simps)

lemma pow2_pos [simp]: "0 < pow2 k"
  by (simp add: pow2_powi)

lemma pow2_nonneg [simp]: "0 \<le> pow2 k" and pow2_nz [simp]: "pow2 k \<noteq> 0"
  using pow2_pos [of k] by linarith+

lemma pow2_less_iff [simp]: "pow2 a < pow2 b \<longleftrightarrow> a < b"
  using power_int_strict_increasing [of a b "2::rat"] power_int_strict_increasing [of b a "2::rat"]
  by (cases a b rule: linorder_cases) (auto simp: pow2_powi)

lemma pow2_le_iff [simp]: "pow2 a \<le> pow2 b \<longleftrightarrow> a \<le> b"
  using pow2_less_iff [of b a] by (simp only: not_less [symmetric])

lemma pow2_add: "pow2 (a + b) = pow2 a * pow2 b"
  by (simp add: pow2_powi power_int_add)

lemma pow2_diff: "pow2 (a - b) = pow2 a / pow2 b"
  by (simp add: pow2_powi power_int_diff)

lemma pow2_nat: "0 \<le> k \<Longrightarrow> pow2 k = of_int (2 ^ nat k)"
  by (simp add: pow2_def)

lemma bitlen_pow2_bounds:
  assumes "0 < n"
  shows "pow2 (bitlen n - 1) \<le> of_int n" and "of_int n < pow2 (bitlen n)"
proof -
  have pos: "0 < bitlen n"
    using assms bitlen_nonneg [of n] bitlen_eq_zero_iff [of n] by linarith
  have b: "2 ^ nat (bitlen n - 1) \<le> n \<and> n < 2 ^ nat (bitlen n)"
    by (rule bitlen_bounds [OF assms])
  then have "(of_int (2 ^ nat (bitlen n - 1)) :: rat) \<le> of_int n" by linarith
  then show "pow2 (bitlen n - 1) \<le> of_int n" using pos by (simp add: pow2_nat)
  from b have "(of_int n :: rat) < of_int (2 ^ nat (bitlen n))" by linarith
  then show "of_int n < pow2 (bitlen n)" using pos by (simp add: pow2_nat)
qed

lemma ilog2_bounds:
  assumes "0 < q"
  shows "pow2 (ilog2 q) \<le> q" and "q < pow2 (ilog2 q + 1)"
proof -
  obtain n d where nd: "quotient_of q = (n, d)" by force
  then have d: "0 < d" by (rule quotient_of_denom_pos)
  have q: "q = of_int n / of_int d" using nd by (rule quotient_of_div)
  have n: "0 < n" using assms d unfolding q by (simp add: zero_less_divide_iff)
  define k where "k = bitlen n - bitlen d"
  have i: "ilog2 q = (if pow2 k \<le> q then k else k - 1)"
    using nd by (simp add: ilog2_def k_def)
  have "q < pow2 (bitlen n) / pow2 (bitlen d - 1)"
    unfolding q by (rule frac_less) (use bitlen_pow2_bounds [OF n] bitlen_pow2_bounds [OF d] n d in auto)
  also have "\<dots> = pow2 (k + 1)" by (simp add: k_def pow2_diff pow2_add)
  finally have up: "q < pow2 (k + 1)" .
  have "pow2 (bitlen n - 1) / pow2 (bitlen d) \<le> q"
    unfolding q by (rule frac_le) (use bitlen_pow2_bounds [OF n] bitlen_pow2_bounds [OF d] n d in auto)
  moreover have "pow2 (bitlen n - 1) / pow2 (bitlen d) = pow2 (k - 1)"
    by (simp add: k_def pow2_diff)
  ultimately have lo: "pow2 (k - 1) \<le> q" by simp
  show "pow2 (ilog2 q) \<le> q" using lo by (simp add: i)
  show "q < pow2 (ilog2 q + 1)" using up by (simp add: i)
qed

lemma ilog2_mono: "0 < p \<Longrightarrow> p \<le> q \<Longrightarrow> ilog2 p \<le> ilog2 q"
  using ilog2_bounds [of p] ilog2_bounds [of q] pow2_less_iff [of "ilog2 p" "ilog2 q + 1"]
  by linarith

lemma ilog2_eqI: "pow2 k \<le> q \<Longrightarrow> q < pow2 (k + 1) \<Longrightarrow> ilog2 q = k"
proof -
  assume a: "pow2 k \<le> q" "q < pow2 (k + 1)"
  then have "0 < q" using less_le_trans pow2_pos by metis
  with a ilog2_bounds [of q] pow2_less_iff [of "ilog2 q" "k + 1"] pow2_less_iff [of k "ilog2 q + 1"]
  show ?thesis by linarith
qed

lemma ilog2_ge_iff: "0 < q \<Longrightarrow> k \<le> ilog2 q \<longleftrightarrow> pow2 k \<le> q"
  using ilog2_bounds [of q] pow2_less_iff [of k "ilog2 q + 1"] pow2_le_iff [of k "ilog2 q"]
  by linarith

subsection \<open>The nearest integer\<close>

lemma rne_of_int [simp]: "rne (of_int k) = k"
  by (simp add: rne_def)

lemma rne_bounds: "\<lfloor>q\<rfloor> \<le> rne q" "rne q \<le> \<lfloor>q\<rfloor> + 1"
  by (auto simp: rne_def Let_def)

lemma rne_mono: "p \<le> q \<Longrightarrow> rne p \<le> rne q"
proof -
  assume "p \<le> q"
  then have "\<lfloor>p\<rfloor> \<le> \<lfloor>q\<rfloor>" by (rule floor_mono)
  then consider "\<lfloor>p\<rfloor> + 1 \<le> \<lfloor>q\<rfloor>" | "\<lfloor>p\<rfloor> = \<lfloor>q\<rfloor>" by linarith
  then show ?thesis
  proof cases
    case 1
    with rne_bounds [of p] rne_bounds [of q] show ?thesis by linarith
  next
    case 2
    with \<open>p \<le> q\<close> show ?thesis by (auto simp: rne_def Let_def)
  qed
qed

lemma rne_le_int: "q \<le> of_int k \<Longrightarrow> rne q \<le> k"
  using rne_mono [of q "of_int k"] by simp

lemma rne_ge_int: "of_int k \<le> q \<Longrightarrow> k \<le> rne q"
  using rne_mono [of "of_int k" q] by simp

lemma rne_error: "\<bar>of_int (rne q) - q\<bar> \<le> 1 / 2"
proof -
  have "of_int \<lfloor>q\<rfloor> \<le> q" "q < of_int \<lfloor>q\<rfloor> + 1" by linarith+
  then show ?thesis by (auto simp: rne_def Let_def)
qed

subsection \<open>Rounding to a format\<close>

locale binary_format =
  fixes p emin :: int
  assumes prec: "1 \<le> p"
begin

lemma round_0 [simp]: "round_fmt p emin 0 = 0"
  by (simp add: round_fmt_def)

lemma round_eq:
  "0 < m \<Longrightarrow> round_fmt p emin m
     = of_int (rne (m / pow2 (ulp_exp p emin m))) * pow2 (ulp_exp p emin m)"
  by (simp add: round_fmt_def Let_def)

lemma round_nonneg: "0 \<le> m \<Longrightarrow> 0 \<le> round_fmt p emin m"
  using rne_ge_int [of 0 "m / pow2 (ulp_exp p emin m)"]
  by (cases "m = 0") (auto simp: round_eq)

lemma ulp_mono: "0 < a \<Longrightarrow> a \<le> b \<Longrightarrow> ulp_exp p emin a \<le> ulp_exp p emin b"
  using ilog2_mono [of a b] by (auto simp: ulp_exp_def)

lemma ulp_upper: "0 < m \<Longrightarrow> m < pow2 (ulp_exp p emin m + p)"
proof -
  assume "0 < m"
  then have "m < pow2 (ilog2 m + 1)" by (rule ilog2_bounds)
  also have "\<dots> \<le> pow2 (ulp_exp p emin m + p)" by (simp add: ulp_exp_def)
  finally show ?thesis .
qed

lemma ulp_ge: "emin \<le> ulp_exp p emin m"
  by (simp add: ulp_exp_def)

lemma round_le_pow:
  assumes "0 < m" "m \<le> pow2 (ulp_exp p emin m + k)" "0 \<le> k"
  shows "round_fmt p emin m \<le> pow2 (ulp_exp p emin m + k)"
proof -
  let ?u = "ulp_exp p emin m"
  have "m / pow2 ?u \<le> of_int (2 ^ nat k)"
    using assms by (simp add: pos_divide_le_eq pow2_add pow2_nat mult.commute)
  then have "rne (m / pow2 ?u) \<le> 2 ^ nat k" by (rule rne_le_int)
  then have "(of_int (rne (m / pow2 ?u)) :: rat) \<le> of_int (2 ^ nat k)" by linarith
  then have "of_int (rne (m / pow2 ?u)) * pow2 ?u \<le> of_int (2 ^ nat k) * pow2 ?u"
    by (intro mult_right_mono) auto
  also have "\<dots> = pow2 (?u + k)" using assms(3) by (simp only: pow2_nat [symmetric] pow2_add mult.commute)
  finally show ?thesis using assms(1) by (simp only: round_eq)
qed

lemma round_ge_pow:
  assumes "0 < m" "pow2 (ulp_exp p emin m + k) \<le> m" "0 \<le> k"
  shows "pow2 (ulp_exp p emin m + k) \<le> round_fmt p emin m"
proof -
  let ?u = "ulp_exp p emin m"
  have "of_int (2 ^ nat k) \<le> m / pow2 ?u"
    using assms by (simp add: pos_le_divide_eq pow2_add pow2_nat mult.commute)
  then have "2 ^ nat k \<le> rne (m / pow2 ?u)" by (rule rne_ge_int)
  then have "(of_int (2 ^ nat k) :: rat) \<le> of_int (rne (m / pow2 ?u))" by linarith
  then have "of_int (2 ^ nat k) * pow2 ?u \<le> of_int (rne (m / pow2 ?u)) * pow2 ?u"
    by (intro mult_right_mono) auto
  moreover have "of_int (2 ^ nat k) * pow2 ?u = pow2 (?u + k)"
    using assms(3) by (simp only: pow2_nat [symmetric] pow2_add mult.commute)
  ultimately show ?thesis using assms(1) by (simp only: round_eq)
qed

lemma round_mono:
  assumes "0 \<le> a" "a \<le> b"
  shows "round_fmt p emin a \<le> round_fmt p emin b"
proof (cases "a = 0")
  case True
  then show ?thesis using assms round_nonneg by simp
next
  case False
  with assms have a: "0 < a" and b: "0 < b" by auto
  let ?u = "ulp_exp p emin a" and ?v = "ulp_exp p emin b"
  show ?thesis
  proof (cases "?u = ?v")
    case True
    have "a / pow2 ?v \<le> b / pow2 ?v"
      using assms(2) by (intro divide_right_mono) auto
    then have "rne (a / pow2 ?v) \<le> rne (b / pow2 ?v)" by (rule rne_mono)
    then show ?thesis using a b True by (simp add: round_eq)
  next
    case False
    with ulp_mono [OF a assms(2)] have lt: "?u < ?v" by simp
    then have e: "?v + (p - 1) = ilog2 b" by (auto simp: ulp_exp_def)
    have "a < pow2 (?u + p)" using a by (rule ulp_upper)
    then have "round_fmt p emin a \<le> pow2 (?u + p)"
      using a prec by (intro round_le_pow) auto
    also have "\<dots> \<le> pow2 (?v + (p - 1))" using lt by simp
    also have "\<dots> \<le> round_fmt p emin b"
    proof (rule round_ge_pow [OF b])
      show "pow2 (?v + (p - 1)) \<le> b" unfolding e by (rule ilog2_bounds(1) [OF b])
    qed (use prec in simp)
    finally show ?thesis .
  qed
qed

text \<open>The numbers of the format: multiples of a power of two with at most \<open>p\<close> bits.\<close>

lemma round_grid:
  assumes "0 < m" "m = of_int k * pow2 e" "emin \<le> e" "k \<le> 2 ^ nat p"
  shows "round_fmt p emin m = m"
proof (cases "ulp_exp p emin m \<le> e")
  case True
  let ?u = "ulp_exp p emin m"
  have "m / pow2 ?u = of_int k * pow2 (e - ?u)" by (simp add: assms(2) pow2_diff)
  also have "\<dots> = of_int (k * 2 ^ nat (e - ?u))" using True by (simp add: pow2_nat)
  finally have "of_int (rne (m / pow2 ?u)) = m / pow2 ?u" by (metis rne_of_int)
  then show ?thesis using assms(1) by (simp add: round_eq)
next
  case False
  then have u: "ulp_exp p emin m = ilog2 m - (p - 1)" and gt: "e < ulp_exp p emin m"
    using assms(3) by (auto simp: ulp_exp_def)
  have "pow2 (e + p) \<le> pow2 (ilog2 m)" using gt u by simp
  also have "\<dots> \<le> m" using assms(1) by (rule ilog2_bounds)
  finally have ge: "pow2 (e + p) \<le> m" .
  have "(of_int k :: rat) \<le> of_int (2 ^ nat p)" using assms(4) by (simp only: of_int_le_iff)
  then have "m \<le> of_int (2 ^ nat p) * pow2 e" unfolding assms(2) by (intro mult_right_mono) auto
  also have "\<dots> = pow2 (e + p)" using prec by (simp add: pow2_add pow2_nat)
  finally have m: "m = pow2 (e + p)" using ge by simp
  have i: "ilog2 m = e + p" unfolding m by (rule ilog2_eqI) auto
  then have u': "ulp_exp p emin m = e + 1" using u by simp
  have "m / pow2 (e + 1) = pow2 (p - 1)" by (simp add: m pow2_add pow2_diff)
  also have "\<dots> = of_int (2 ^ nat (p - 1))" using prec by (simp add: pow2_nat)
  finally have "of_int (rne (m / pow2 (e + 1))) = m / pow2 (e + 1)" by (metis rne_of_int)
  then show ?thesis using assms(1) u' by (simp add: round_eq)
qed

lemma round_idem: "0 \<le> m \<Longrightarrow> round_fmt p emin (round_fmt p emin m) = round_fmt p emin m"
proof (cases "round_fmt p emin m = 0")
  case False
  assume "0 \<le> m"
  with False have m: "0 < m" by (cases "m = 0") auto
  let ?u = "ulp_exp p emin m"
  have "m / pow2 ?u \<le> of_int (2 ^ nat p)"
    using ulp_upper [OF m] prec by (simp add: pos_divide_le_eq pow2_add pow2_nat mult.commute)
  then have "rne (m / pow2 ?u) \<le> 2 ^ nat p" by (rule rne_le_int)
  moreover have "0 < round_fmt p emin m" using False round_nonneg [of m] \<open>0 \<le> m\<close> by simp
  ultimately show ?thesis using ulp_ge round_eq [OF m] by (intro round_grid)
qed simp

lemma round_nat: "int n \<le> 2 ^ nat p \<Longrightarrow> emin \<le> 0 \<Longrightarrow> round_fmt p emin (of_nat n) = of_nat n"
  by (cases "n = 0") (auto intro!: round_grid [where k = "int n" and e = 0] simp: pow2_def)

lemma round_le_rep:
  "0 \<le> m \<Longrightarrow> m \<le> r \<Longrightarrow> round_fmt p emin r = r \<Longrightarrow> round_fmt p emin m \<le> r"
  using round_mono [of m r] by simp

lemma round_ge_rep:
  "0 \<le> r \<Longrightarrow> r \<le> m \<Longrightarrow> round_fmt p emin r = r \<Longrightarrow> r \<le> round_fmt p emin m"
  using round_mono [of r m] by simp

lemma round_error:
  assumes "0 < m"
  shows "\<bar>round_fmt p emin m - m\<bar> \<le> pow2 (ulp_exp p emin m) / 2"
proof -
  let ?u = "pow2 (ulp_exp p emin m)"
  have "round_fmt p emin m - m = (of_int (rne (m / ?u)) - m / ?u) * ?u"
    using assms by (simp add: round_eq left_diff_distrib)
  then have "\<bar>round_fmt p emin m - m\<bar> = \<bar>of_int (rne (m / ?u)) - m / ?u\<bar> * ?u"
    by (simp add: abs_mult)
  also have "\<dots> \<le> 1 / 2 * ?u" by (intro mult_right_mono rne_error) simp
  finally show ?thesis by simp
qed

lemma round_rel_error:
  assumes "pow2 (emin + (p - 1)) \<le> m"
  shows "\<bar>round_fmt p emin m - m\<bar> \<le> m / pow2 p"
proof -
  have m: "0 < m" using assms less_le_trans pow2_pos by metis
  have "emin + (p - 1) \<le> ilog2 m" using assms ilog2_ge_iff [OF m] by simp
  then have "ulp_exp p emin m = ilog2 m - (p - 1)" by (simp add: ulp_exp_def)
  then have "pow2 (ulp_exp p emin m) / 2 = pow2 (ilog2 m) / pow2 p"
    by (simp add: pow2_diff) (simp add: pow2_def)
  also have "\<dots> \<le> m / pow2 p" using ilog2_bounds(1) [OF m] by (intro divide_right_mono) auto
  finally show ?thesis using round_error [OF m] by linarith
qed

end

interpretation b64: binary_format 53 "- 1074"
  by unfold_locales simp

interpretation b32: binary_format 24 "- 149"
  by unfold_locales simp

section \<open>Data\<close>

text \<open>
  \<open>Infty s\<close> and \<open>Fin s m\<close> are negative when \<open>s\<close> is true; \<open>Fin True 0\<close> is the negative zero.  A magnitude
  counts by its absolute value, so that every value of the type denotes a number.  The payload and
  the sign of a NaN, which no operation of the program looks at, are not kept.
\<close>

datatype f64 = NaN | Infty bool | Fin bool rat

fun f_val :: "f64 \<Rightarrow> rat" where
  "f_val (Fin s m) = (if s then - \<bar>m\<bar> else \<bar>m\<bar>)"
| "f_val _ = 0"

abbreviation round64 :: "rat \<Rightarrow> rat" where
  "round64 \<equiv> round_fmt 53 (- 1074)"

text \<open>The magnitude \<open>m\<close> rounded: an infinity from \<open>2 ^ 1024\<close> on.\<close>

definition f_mk :: "bool \<Rightarrow> rat \<Rightarrow> f64" where
  "f_mk s m = (let r = round64 \<bar>m\<bar> in if 1024 \<le> ilog2 r \<and> 0 < r then Infty s else Fin s r)"

text \<open>A literal, or an integer converted with \<^verbatim>\<open>as f64\<close>.\<close>

definition f_of :: "rat \<Rightarrow> f64" where
  "f_of q = f_mk (q < 0) q"

definition f_of_nat :: "nat \<Rightarrow> f64" where
  "f_of_nat n = f_of (of_nat n)"

text \<open>The values an \<^verbatim>\<open>f64\<close> variable can hold: magnitudes of the format below \<open>2 ^ 1024\<close>.\<close>

definition f_bound :: rat where
  "f_bound = pow2 1024"

fun f_ok :: "f64 \<Rightarrow> bool" where
  "f_ok (Fin s m) = (0 \<le> m \<and> round64 m = m \<and> m < f_bound)"
| "f_ok _ = True"

text \<open>The same for the one \<^verbatim>\<open>f32\<close> field of the program, a probability-like confidence.\<close>

definition f32_of :: "rat \<Rightarrow> f64" where
  "f32_of q = Fin (q < 0) (round_fmt 24 (- 149) \<bar>q\<bar>)"

fun is_finite :: "f64 \<Rightarrow> bool" where
  "is_finite (Fin _ _) = True"
| "is_finite _ = False"

section \<open>Operations\<close>

fun f_add :: "f64 \<Rightarrow> f64 \<Rightarrow> f64" where
  "f_add NaN _ = NaN"
| "f_add _ NaN = NaN"
| "f_add (Infty s) (Infty t) = (if s = t then Infty s else NaN)"
| "f_add (Infty s) (Fin _ _) = Infty s"
| "f_add (Fin _ _) (Infty t) = Infty t"
| "f_add (Fin s a) (Fin t b) =
     (let v = f_val (Fin s a) + f_val (Fin t b)
      in if v = 0 then Fin (s \<and> t) 0 else f_of v)"

fun f_neg :: "f64 \<Rightarrow> f64" where
  "f_neg NaN = NaN"
| "f_neg (Infty s) = Infty (\<not> s)"
| "f_neg (Fin s m) = Fin (\<not> s) m"

fun f_mul :: "f64 \<Rightarrow> f64 \<Rightarrow> f64" where
  "f_mul NaN _ = NaN"
| "f_mul _ NaN = NaN"
| "f_mul (Infty s) (Infty t) = Infty (s \<noteq> t)"
| "f_mul (Infty s) (Fin t b) = (if b = 0 then NaN else Infty (s \<noteq> t))"
| "f_mul (Fin s a) (Infty t) = (if a = 0 then NaN else Infty (s \<noteq> t))"
| "f_mul (Fin s a) (Fin t b) = f_mk (s \<noteq> t) (a * b)"

fun f_div :: "f64 \<Rightarrow> f64 \<Rightarrow> f64" where
  "f_div NaN _ = NaN"
| "f_div _ NaN = NaN"
| "f_div (Infty s) (Infty t) = NaN"
| "f_div (Infty s) (Fin t b) = Infty (s \<noteq> t)"
| "f_div (Fin s a) (Infty t) = Fin (s \<noteq> t) 0"
| "f_div (Fin s a) (Fin t b) =
     (if b = 0 then (if a = 0 then NaN else Infty (s \<noteq> t)) else f_mk (s \<noteq> t) (a / b))"

text \<open>The comparisons are false whenever an operand is NaN; the two zeros are equal.\<close>

fun f_lt :: "f64 \<Rightarrow> f64 \<Rightarrow> bool" where
  "f_lt NaN _ = False"
| "f_lt _ NaN = False"
| "f_lt (Infty s) (Infty t) = (s \<and> \<not> t)"
| "f_lt (Infty s) (Fin _ _) = s"
| "f_lt (Fin _ _) (Infty t) = (\<not> t)"
| "f_lt x y = (f_val x < f_val y)"

fun f_le :: "f64 \<Rightarrow> f64 \<Rightarrow> bool" where
  "f_le NaN _ = False"
| "f_le _ NaN = False"
| "f_le (Infty s) (Infty t) = (s \<or> \<not> t)"
| "f_le (Infty s) (Fin _ _) = s"
| "f_le (Fin _ _) (Infty t) = (\<not> t)"
| "f_le x y = (f_val x \<le> f_val y)"

fun f_abs :: "f64 \<Rightarrow> f64" where
  "f_abs NaN = NaN"
| "f_abs (Infty _) = Infty False"
| "f_abs (Fin _ m) = Fin False m"

instantiation f64 :: "{plus, minus, uminus, times, inverse, ord, abs}"
begin

definition plus_f64 :: "f64 \<Rightarrow> f64 \<Rightarrow> f64" where "plus_f64 = f_add"

definition uminus_f64 :: "f64 \<Rightarrow> f64" where "uminus_f64 = f_neg"

definition minus_f64 :: "f64 \<Rightarrow> f64 \<Rightarrow> f64" where "minus_f64 x y = f_add x (f_neg y)"

definition times_f64 :: "f64 \<Rightarrow> f64 \<Rightarrow> f64" where "times_f64 = f_mul"

definition divide_f64 :: "f64 \<Rightarrow> f64 \<Rightarrow> f64" where "divide_f64 = f_div"

definition inverse_f64 :: "f64 \<Rightarrow> f64" where "inverse_f64 = f_div (Fin False 1)"

definition less_f64 :: "f64 \<Rightarrow> f64 \<Rightarrow> bool" where "less_f64 = f_lt"

definition less_eq_f64 :: "f64 \<Rightarrow> f64 \<Rightarrow> bool" where "less_eq_f64 = f_le"

definition abs_f64 :: "f64 \<Rightarrow> f64" where "abs_f64 = f_abs"

instance ..

end

lemmas f_ops = plus_f64_def uminus_f64_def minus_f64_def times_f64_def divide_f64_def
  inverse_f64_def less_f64_def less_eq_f64_def abs_f64_def

text \<open>
  The library's \<^verbatim>\<open>max\<close>, \<^verbatim>\<open>min\<close> (a NaN operand is ignored) and \<^verbatim>\<open>clamp\<close> (a NaN passes through), and
  the order of \<^verbatim>\<open>total_cmp\<close>: the negative zero below the positive one, NaN above everything.
\<close>

definition f_max :: "f64 \<Rightarrow> f64 \<Rightarrow> f64" where
  "f_max x y = (if x = NaN then y else if y = NaN then x else if x < y then y else x)"

definition f_min :: "f64 \<Rightarrow> f64 \<Rightarrow> f64" where
  "f_min x y = (if x = NaN then y else if y = NaN then x else if y < x then y else x)"

definition f_clamp :: "f64 \<Rightarrow> f64 \<Rightarrow> f64 \<Rightarrow> f64" where
  "f_clamp x lo hi = (let x = (if x < lo then lo else x) in if hi < x then hi else x)"

fun f_total_lt :: "f64 \<Rightarrow> f64 \<Rightarrow> bool" where
  "f_total_lt NaN _ = False"
| "f_total_lt _ NaN = True"
| "f_total_lt (Fin s a) (Fin t b) =
     (f_val (Fin s a) < f_val (Fin t b) \<or> (a = 0 \<and> b = 0 \<and> s \<and> \<not> t))"
| "f_total_lt x y = f_lt x y"

section \<open>Laws\<close>

subsection \<open>Representable values\<close>

lemma f_bound_pos [simp]: "0 < f_bound"
  by (simp add: f_bound_def)

lemma f_mk_eq: "f_mk s m = (if f_bound \<le> round64 \<bar>m\<bar> then Infty s else Fin s (round64 \<bar>m\<bar>))"
proof -
  have "\<not> f_bound \<le> round64 \<bar>m\<bar>" if "\<not> 0 < round64 \<bar>m\<bar>"
    using that f_bound_pos by linarith
  then show ?thesis
    using ilog2_ge_iff [of "round64 \<bar>m\<bar>" 1024] by (auto simp: f_mk_def Let_def f_bound_def)
qed

lemma round64_abs [simp]: "\<bar>round64 \<bar>m\<bar>\<bar> = round64 \<bar>m\<bar>"
  by (simp add: b64.round_nonneg)

lemma round64_nat: "n \<le> 2 ^ 53 \<Longrightarrow> round64 (of_nat n) = of_nat n"
  by (rule b64.round_nat) (simp_all add: nat_le_iff)

lemma round64_numeral [simp]: "(numeral n :: nat) \<le> 2 ^ 53 \<Longrightarrow> round64 (numeral n) = numeral n"
  using round64_nat [of "numeral n"] by simp

lemma round64_1 [simp]: "round64 1 = 1"
  using round64_nat [of 1] by simp

lemma f_mk_0 [simp]: "f_mk s 0 = Fin s 0"
  by (simp add: f_mk_def)

lemma f_of_0 [simp]: "f_of 0 = Fin False 0"
  by (simp add: f_of_def)

lemma small_lt_bound: "q \<le> 2 ^ 53 \<Longrightarrow> q < f_bound"
proof -
  have "(2 :: rat) ^ 53 = pow2 53" by (simp add: pow2_def)
  also have "\<dots> < f_bound" by (simp add: f_bound_def)
  finally show "q \<le> 2 ^ 53 \<Longrightarrow> q < f_bound" by linarith
qed

lemma f_mk_nat: "n \<le> 2 ^ 53 \<Longrightarrow> f_mk s (of_nat n) = Fin s (of_nat n)"
proof -
  assume n: "n \<le> 2 ^ 53"
  then have "(of_nat n :: rat) \<le> of_nat (2 ^ 53)" by (simp only: of_nat_le_iff)
  then have "(of_nat n :: rat) < f_bound" by (intro small_lt_bound) simp
  with n show ?thesis by (simp add: f_mk_eq round64_nat)
qed

lemma f_of_small_nat: "n \<le> 2 ^ 53 \<Longrightarrow> f_of (of_nat n) = Fin False (of_nat n)"
  by (simp add: f_of_def f_mk_nat)

lemma f_of_nat_small: "n \<le> 2 ^ 53 \<Longrightarrow> f_of_nat n = Fin False (of_nat n)"
  by (simp add: f_of_nat_def f_of_small_nat)

lemma f_of_numeral [simp]: "(numeral n :: nat) \<le> 2 ^ 53 \<Longrightarrow> f_of (numeral n) = Fin False (numeral n)"
  using f_of_small_nat [of "numeral n"] by simp

lemma f_of_1 [simp]: "f_of 1 = Fin False 1"
  using f_of_small_nat [of 1] by simp

lemma f_ok_mk [simp]: "f_ok (f_mk s m)"
  by (auto simp: f_mk_eq b64.round_idem b64.round_nonneg not_le)

lemma f_ok_of [simp]: "f_ok (f_of q)"
  by (simp add: f_of_def)

lemma f_ok_zero [simp]: "f_ok (Fin s 0)"
  by simp

lemma f_ok_add [simp]: "f_ok (x + y)"
  by (cases x; cases y) (auto simp: f_ops Let_def simp del: f_ok.simps(1))

lemma f_ok_neg [simp]: "f_ok (f_neg x) = f_ok x"
  by (cases x) auto

lemma f_ok_diff [simp]: "f_ok (x - y)"
  using f_ok_add [of x "f_neg y"] by (simp add: f_ops)

lemma f_ok_mul [simp]: "f_ok (x * y)"
  by (cases x; cases y) (auto simp: f_ops)

lemma f_ok_div [simp]: "f_ok (x / y)"
  by (cases x; cases y) (auto simp: f_ops)

lemma f_ok_abs [simp]: "f_ok x \<Longrightarrow> f_ok \<bar>x\<bar>"
  by (cases x) (auto simp: f_ops)

lemma f_ok_max [simp]: "f_ok x \<Longrightarrow> f_ok y \<Longrightarrow> f_ok (f_max x y)"
  and f_ok_min [simp]: "f_ok x \<Longrightarrow> f_ok y \<Longrightarrow> f_ok (f_min x y)"
  and f_ok_clamp [simp]: "f_ok x \<Longrightarrow> f_ok y \<Longrightarrow> f_ok z \<Longrightarrow> f_ok (f_clamp x y z)"
  by (auto simp: f_max_def f_min_def f_clamp_def Let_def)

subsection \<open>Order\<close>

lemma f_less_imp_le: "x < y \<Longrightarrow> (x :: f64) \<le> y"
  by (cases x; cases y) (auto simp: f_ops)

lemma f_not_less: "x \<noteq> NaN \<Longrightarrow> y \<noteq> NaN \<Longrightarrow> \<not> x < y \<longleftrightarrow> (y :: f64) \<le> x"
  by (cases x; cases y) (auto simp: f_ops)

lemma f_le_trans [trans]: "x \<le> y \<Longrightarrow> y \<le> z \<Longrightarrow> (x :: f64) \<le> z"
  by (cases x; cases y; cases z) (auto simp: f_ops split: if_splits)

lemma f_le_less_trans [trans]: "x \<le> y \<Longrightarrow> y < z \<Longrightarrow> (x :: f64) < z"
  by (cases x; cases y; cases z) (auto simp: f_ops split: if_splits)

lemma f_less_le_trans [trans]: "x < y \<Longrightarrow> y \<le> z \<Longrightarrow> (x :: f64) < z"
  by (cases x; cases y; cases z) (auto simp: f_ops split: if_splits)

lemma f_le_refl: "x \<noteq> NaN \<Longrightarrow> (x :: f64) \<le> x"
  by (cases x) (auto simp: f_ops)

lemma f_le_nonan: "x \<le> y \<Longrightarrow> x \<noteq> NaN \<and> y \<noteq> NaN"
  by (cases x; cases y) (auto simp: f_ops)

lemma f_less_nonan: "x < y \<Longrightarrow> x \<noteq> NaN \<and> y \<noteq> NaN"
  by (cases x; cases y) (auto simp: f_ops)

lemma f_clamp_bounds:
  assumes "x \<noteq> NaN" "lo \<le> hi"
  shows "lo \<le> f_clamp x lo hi \<and> f_clamp x lo hi \<le> hi"
  using assms f_not_less [of x lo] f_not_less [of hi x] f_le_nonan [OF assms(2)]
  by (auto simp: f_clamp_def Let_def f_le_refl f_less_imp_le dest: f_le_trans)

lemma f_clamp_NaN [simp]: "f_clamp NaN lo hi = NaN"
  by (cases lo; cases hi) (auto simp: f_clamp_def f_ops)

lemma f_max_ge: "y \<noteq> NaN \<Longrightarrow> y \<le> f_max x y"
  using f_not_less [of x y] by (auto simp: f_max_def f_le_refl)

lemma f_max_nonan: "y \<noteq> NaN \<Longrightarrow> f_max x y \<noteq> NaN"
  by (auto simp: f_max_def)

subsection \<open>Monotonicity of the rounded operations\<close>

lemma f_mk_mono: "0 \<le> a \<Longrightarrow> a \<le> b \<Longrightarrow> f_le (f_mk False a) (f_mk False b)"
  using b64.round_mono [of a b] b64.round_nonneg [of a] b64.round_nonneg [of b]
  by (auto simp: f_mk_eq)

lemma f_mk_neg: "f_mk (\<not> s) m = f_neg (f_mk s m)"
  by (simp add: f_mk_def Let_def)

lemma f_of_mono: "a \<le> b \<Longrightarrow> f_of a \<le> f_of b"
proof -
  assume le: "a \<le> b"
  consider "0 \<le> a" | "a < 0" "0 \<le> b" | "b < 0" by linarith
  then show ?thesis
  proof cases
    case 1
    with le show ?thesis using f_mk_mono [of a b] by (simp add: f_of_def f_ops)
  next
    case 2
    then show ?thesis using b64.round_nonneg [of "\<bar>a\<bar>"] b64.round_nonneg [of "\<bar>b\<bar>"]
      by (auto simp: f_of_def f_ops f_mk_eq)
  next
    case 3
    with le have "round64 \<bar>b\<bar> \<le> round64 \<bar>a\<bar>" by (intro b64.round_mono) auto
    with 3 le b64.round_nonneg [of "\<bar>a\<bar>"] b64.round_nonneg [of "\<bar>b\<bar>"] show ?thesis by (auto simp: f_of_def f_ops f_mk_eq)
  qed
qed

lemma f_of_val: "f_ok (Fin s m) \<Longrightarrow> m \<noteq> 0 \<Longrightarrow> f_of (f_val (Fin s m)) = Fin s m"
  by (auto simp: f_of_def f_mk_eq)

lemma f_add_of:
  "Fin s a + Fin t b \<le> y \<longleftrightarrow> f_of (f_val (Fin s a) + f_val (Fin t b)) \<le> y"
  "y \<le> Fin s a + Fin t b \<longleftrightarrow> y \<le> f_of (f_val (Fin s a) + f_val (Fin t b))"
  by (cases y; auto simp: f_ops Let_def)+

lemma f_of_val_le: "f_ok (Fin s m) \<Longrightarrow> f_of (f_val (Fin s m)) \<le> Fin s m"
  and f_of_val_ge: "f_ok (Fin s m) \<Longrightarrow> Fin s m \<le> f_of (f_val (Fin s m))"
  using f_of_val [of s m] by (cases "m = 0"; auto simp: f_ops simp del: f_ok.simps)+

lemma f_add_nonneg: "f_of 0 \<le> x \<Longrightarrow> f_of 0 \<le> y \<Longrightarrow> f_of 0 \<le> x + y"
proof (cases x; cases y)
  fix s a t b
  assume xy: "x = Fin s a" "y = Fin t b" and "f_of 0 \<le> x" "f_of 0 \<le> y"
  then have "0 \<le> f_val (Fin s a) + f_val (Fin t b)" by (auto simp: f_ops)
  then have "f_of 0 \<le> f_of (f_val (Fin s a) + f_val (Fin t b))" by (rule f_of_mono)
  then show "f_of 0 \<le> x + y" unfolding xy f_add_of by simp
qed (auto simp: f_ops)

text \<open>Adding a non-negative amount does not decrease, removing one does not increase.\<close>

lemma f_add_ge:
  assumes "f_ok x" "x \<noteq> NaN" "f_of 0 \<le> y" "x \<noteq> Infty True"
  shows "x \<le> x + y"
proof (cases x; cases y)
  fix s a t b
  assume xy: "x = Fin s a" "y = Fin t b"
  with assms have "f_val (Fin s a) \<le> f_val (Fin s a) + f_val (Fin t b)" by (auto simp: f_ops)
  then have "f_of (f_val (Fin s a)) \<le> f_of (f_val (Fin s a) + f_val (Fin t b))" by (rule f_of_mono)
  then show ?thesis using f_of_val_ge [of s a] assms(1) f_le_trans
    unfolding xy f_add_of by blast
qed (use assms in \<open>auto simp: f_ops\<close>)

lemma f_diff_le:
  assumes "f_ok x" "x \<noteq> NaN" "f_of 0 \<le> y" "is_finite y"
  shows "x - y \<le> x"
proof (cases x; cases y)
  fix s a t b
  assume xy: "x = Fin s a" "y = Fin t b"
  with assms have "f_val (Fin s a) + f_val (Fin (\<not> t) b) \<le> f_val (Fin s a)" by (auto simp: f_ops)
  then have "f_of (f_val (Fin s a) + f_val (Fin (\<not> t) b)) \<le> f_of (f_val (Fin s a))" by (rule f_of_mono)
  then have "Fin s a + Fin (\<not> t) b \<le> Fin s a"
    unfolding f_add_of using f_of_val_le [of s a] assms(1) f_le_trans xy by blast
  then show ?thesis by (simp add: xy minus_f64_def plus_f64_def)
qed (use assms in \<open>auto simp: f_ops\<close>)

lemma f_mul_ge:
  assumes "f_ok x" "f_of 0 \<le> x" "f_ok y" "is_finite y" "f_of 1 \<le> y"
  shows "x \<le> x * y"
proof (cases x; cases y)
  fix s a t b
  assume xy: "x = Fin s a" "y = Fin t b"
  show ?thesis
  proof (cases "a = 0")
    case True
    then show ?thesis using xy by (auto simp: f_ops)
  next
    case False
    with assms xy have s: "\<not> s" "0 < a" and t: "\<not> t" "1 \<le> b" by (auto simp: f_ops split: if_splits)
    then have "a \<le> a * b" using mult_left_mono [of 1 b a] by simp
    then have "f_le (f_mk False a) (f_mk False (a * b))" using s by (intro f_mk_mono) auto
    moreover have "f_mk False a = Fin False a" using assms(1) xy s by (simp add: f_mk_eq)
    ultimately show ?thesis using s t by (simp add: xy f_ops)
  qed
qed (use assms in \<open>auto simp: f_ops split: if_splits\<close>)

lemma f_diff_nonneg: "x \<le> y \<Longrightarrow> is_finite x \<Longrightarrow> f_of 0 \<le> y - x"
proof (cases x; cases y)
  fix s a t b
  assume xy: "x = Fin s a" "y = Fin t b" and "x \<le> y"
  then have "0 \<le> f_val (Fin t b) + f_val (Fin (\<not> s) a)" by (auto simp: f_ops split: if_splits)
  then have "f_of 0 \<le> f_of (f_val (Fin t b) + f_val (Fin (\<not> s) a))" by (rule f_of_mono)
  then have "f_of 0 \<le> Fin t b + Fin (\<not> s) a" unfolding f_add_of .
  then show "f_of 0 \<le> y - x" by (simp add: xy minus_f64_def plus_f64_def)
qed (auto simp: f_ops)

lemma f_add_mono: "x \<le> x' \<Longrightarrow> y \<le> y' \<Longrightarrow> f_of 0 \<le> x \<Longrightarrow> f_of 0 \<le> y \<Longrightarrow> x + y \<le> x' + y'"
proof (cases x; cases y; cases x'; cases y')
  fix s a t b s' a' t' b'
  assume e: "x = Fin s a" "y = Fin t b" "x' = Fin s' a'" "y' = Fin t' b'"
    and "x \<le> x'" "y \<le> y'"
  then have "f_val (Fin s a) + f_val (Fin t b) \<le> f_val (Fin s' a') + f_val (Fin t' b')"
    by (auto simp: f_ops split: if_splits)
  then have "f_of (f_val (Fin s a) + f_val (Fin t b)) \<le> f_of (f_val (Fin s' a') + f_val (Fin t' b'))"
    by (rule f_of_mono)
  then show "x + y \<le> x' + y'" unfolding e f_add_of .
qed (auto simp: f_ops f_of_def f_mk_def Let_def split: if_splits)

text \<open>A magnitude between two numbers of the format stays between them and finite.\<close>

lemma f_mk_between:
  assumes "0 \<le> lo" "lo \<le> m" "m \<le> hi" "round64 lo = lo" "round64 hi = hi" "hi < f_bound"
  obtains r where "f_mk s m = Fin s r" "lo \<le> r" "r \<le> hi" "round64 r = r"
proof -
  have r: "lo \<le> round64 m" "round64 m \<le> hi"
    using assms by (auto intro: b64.round_ge_rep b64.round_le_rep)
  moreover have "f_mk s m = Fin s (round64 m)" using assms r by (simp add: f_mk_eq)
  ultimately show thesis using that assms b64.round_idem [of m] by simp
qed

lemma round64_pow2: "- 1074 \<le> k \<Longrightarrow> round64 (pow2 k) = pow2 k"
  by (rule b64.round_grid [where k = 1 and e = k]) auto

lemma pow2_lt_bound: "k < 1024 \<Longrightarrow> pow2 k < f_bound"
  by (simp add: f_bound_def)

lemma f_mk_nonneg [simp]: "f_le (Fin s 0) (f_mk False m)"
  using b64.round_nonneg [of "\<bar>m\<bar>"] by (auto simp: f_mk_eq f_ops)

lemma f_mk_le_Infty [simp]: "f_le (f_mk s m) (Infty False)"
  by (auto simp: f_mk_eq)

lemma f_mk_nonan [simp]: "f_mk s m \<noteq> NaN" "f_of q \<noteq> NaN"
  by (auto simp: f_mk_eq f_of_def)

text \<open>Division by a positive finite number.\<close>

lemma f_posE:
  assumes "f_of 0 < y" "is_finite y"
  obtains b where "y = Fin False b" "b \<noteq> 0"
  using assms by (cases y) (auto simp: f_ops split: if_splits)

lemma f_nonnegE:
  assumes "f_of 0 \<le> x"
  obtains "x = Infty False" | "x = Fin True 0" | a where "x = Fin False a"
  using assms by (cases x) (auto simp: f_ops split: if_splits)

lemma f_div_nonneg: "f_of 0 \<le> x \<Longrightarrow> f_of 0 < y \<Longrightarrow> is_finite y \<Longrightarrow> f_of 0 \<le> x / y"
  by (elim f_nonnegE f_posE) (simp_all add: f_ops)

lemma f_div_mono:
  assumes "x \<le> x'" "f_of 0 \<le> x" "f_of 0 < y" "is_finite y"
  shows "x / y \<le> x' / y"
proof -
  obtain b where y: "y = Fin False b" "b \<noteq> 0" using assms(3,4) by (rule f_posE)
  have x': "f_of 0 \<le> x'" using assms(1,2) f_le_trans by blast
  show ?thesis
  proof (cases "\<exists>a a'. x = Fin False a \<and> x' = Fin False a'")
    case True
    then obtain a a' where e: "x = Fin False a" "x' = Fin False a'" by blast
    then have "\<bar>a / b\<bar> \<le> \<bar>a' / b\<bar>" using assms(1) by (auto simp: f_ops divide_right_mono)
    then have "f_le (f_mk False \<bar>a / b\<bar>) (f_mk False \<bar>a' / b\<bar>)" by (intro f_mk_mono) auto
    then show ?thesis by (simp add: e y f_ops f_mk_def)
  next
    case False
    then show ?thesis
      using assms(1) y by (cases rule: f_nonnegE [OF assms(2)]; cases rule: f_nonnegE [OF x'])
        (auto simp: f_ops)
  qed
qed

lemma f_div_antimono:
  assumes "f_of 0 < y" "y \<le> y'" "is_finite y'" "f_of 0 \<le> x" "is_finite x"
  shows "x / y' \<le> x / y"
proof -
  have fy: "is_finite y" using assms(1-3) by (cases y; cases y') (auto simp: f_ops)
  obtain b where y: "y = Fin False b" "b \<noteq> 0" using assms(1) fy by (rule f_posE)
  have "f_of 0 < y'" using assms(1,2) by (rule f_less_le_trans)
  then obtain b' where y': "y' = Fin False b'" "b' \<noteq> 0" using assms(3) by (rule f_posE)
  have bb: "\<bar>b\<bar> \<le> \<bar>b'\<bar>" "0 < \<bar>b\<bar>" using assms(2) y y' by (auto simp: f_ops)
  from assms(4) show ?thesis
  proof (cases rule: f_nonnegE)
    case (3 a)
    have "\<bar>a / b'\<bar> \<le> \<bar>a / b\<bar>" using bb by (simp add: divide_left_mono zero_less_mult_iff)
    then have "f_le (f_mk False \<bar>a / b'\<bar>) (f_mk False \<bar>a / b\<bar>)" by (intro f_mk_mono) auto
    then show ?thesis using 3 y y' by (simp add: f_ops f_mk_def)
  qed (use assms y y' in \<open>auto simp: f_ops\<close>)
qed

lemma f_mul_nonneg: "f_of 0 \<le> x \<Longrightarrow> f_of 0 \<le> y \<Longrightarrow> is_finite x \<Longrightarrow> is_finite y \<Longrightarrow> f_of 0 \<le> x * y"
  by (elim f_nonnegE) (simp_all add: f_ops)

lemma f_of_nat_mono: "m \<le> n \<Longrightarrow> f_of_nat m \<le> f_of_nat n"
  by (simp add: f_of_nat_def f_of_mono)

lemma f_of_nat_nonneg [simp]: "f_of 0 \<le> f_of_nat n"
  using f_of_nat_mono [of 0 n] by (simp add: f_of_nat_def)

lemma f_div_mono2:
  assumes "x \<le> x'" "f_of 0 \<le> x" "is_finite x'" "f_of 0 < y'" "y' \<le> y"
  shows "x / y \<le> x' / y'"
proof (cases "is_finite y")
  case True
  have fx: "is_finite x" using assms(1-3) by (cases x; cases x') (auto simp: f_ops)
  have fy: "is_finite y'" using assms(4,5) True by (cases y; cases y') (auto simp: f_ops)
  have "x / y \<le> x / y'" using assms(4,5) True assms(2) fx by (rule f_div_antimono)
  also have "\<dots> \<le> x' / y'" using assms(1,2,4) fy by (rule f_div_mono)
  finally show ?thesis .
next
  case False
  then have y: "y = Infty False" using assms(4,5) by (cases y; cases y') (auto simp: f_ops)
  obtain s a s' a' where x: "x = Fin s a" "x' = Fin s' a'"
    using assms(1-3) by (cases x; cases x') (auto simp: f_ops)
  have "f_of 0 \<le> x' / y'"
  proof (cases "is_finite y'")
    case True
    with assms(1,2,4) show ?thesis using f_le_trans f_div_nonneg by blast
  next
    case False
    then show ?thesis using x assms(4) by (cases y') (auto simp: f_ops)
  qed
  then show ?thesis using x by (cases "x' / y'") (auto simp: y f_ops)
qed

subsection \<open>Sign\<close>

text \<open>Numbers without the sign bit, on which \<^verbatim>\<open>total_cmp\<close> is the numeric order.\<close>

fun plus_sign :: "f64 \<Rightarrow> bool" where
  "plus_sign (Fin s _) = (\<not> s)"
| "plus_sign (Infty s) = (\<not> s)"
| "plus_sign NaN = False"

lemma plus_sign_pos: "f_of 0 < x \<Longrightarrow> plus_sign x"
  by (cases x) (auto simp: f_ops split: if_splits)

lemma plus_sign_nonneg: "plus_sign x \<Longrightarrow> f_of 0 \<le> x"
  by (cases x) (auto simp: f_ops)

lemma plus_sign_mk [simp]: "plus_sign (f_mk False m)"
  by (simp add: f_mk_def Let_def)

lemma plus_sign_of_nat [simp]: "plus_sign (f_of_nat n)"
  by (simp add: f_of_nat_def f_of_def)

lemma abs_sum_nonneg: "\<not> \<bar>a\<bar> + \<bar>b\<bar> < (0 :: rat)"
  by (simp add: not_less)

lemma plus_sign_add: "plus_sign x \<Longrightarrow> plus_sign y \<Longrightarrow> plus_sign (x + y)"
  by (cases x; cases y) (auto simp: f_ops f_of_def Let_def abs_sum_nonneg)

lemma plus_sign_div: "plus_sign x \<Longrightarrow> is_finite x \<Longrightarrow> f_of 0 < y \<Longrightarrow> plus_sign (x / y)"
  by (cases x; cases y) (auto simp: f_ops split: if_splits)

lemma plus_sign_min: "plus_sign x \<Longrightarrow> plus_sign y \<Longrightarrow> plus_sign (f_min x y)"
  by (simp add: f_min_def)

lemma f_total_plus: "plus_sign a \<Longrightarrow> plus_sign b \<Longrightarrow> f_total_lt a b \<longleftrightarrow> a < b"
  by (cases a; cases b) (auto simp: f_ops)

lemma f_min_mono:
  "x \<le> x' \<Longrightarrow> y \<noteq> NaN \<Longrightarrow> f_min x y \<le> f_min x' y"
  by (cases x; cases x'; cases y) (auto simp: f_min_def f_ops split: if_splits)

lemma f_max_mono:
  "x \<le> x' \<Longrightarrow> y \<noteq> NaN \<Longrightarrow> f_max x y \<le> f_max x' y"
  by (cases x; cases x'; cases y) (auto simp: f_max_def f_ops split: if_splits)

subsection \<open>Products of bounded positive numbers\<close>

lemma f_mk_abs: "f_mk s \<bar>m\<bar> = f_mk s m"
  by (simp add: f_mk_eq)

lemma f_mul_mono:
  assumes "x \<le> x'" "f_of 0 \<le> x" "f_of 0 < y" "is_finite y"
  shows "x * y \<le> x' * y"
proof -
  obtain b where y: "y = Fin False b" "b \<noteq> 0" using assms(3,4) by (rule f_posE)
  have x': "f_of 0 \<le> x'" using assms(1,2) f_le_trans by blast
  show ?thesis
  proof (cases "\<exists>a a'. x = Fin False a \<and> x' = Fin False a'")
    case True
    then obtain a a' where e: "x = Fin False a" "x' = Fin False a'" by blast
    then have "\<bar>a * b\<bar> \<le> \<bar>a' * b\<bar>" using assms(1) by (auto simp: f_ops abs_mult mult_right_mono)
    then have "f_le (f_mk False \<bar>a * b\<bar>) (f_mk False \<bar>a' * b\<bar>)" by (intro f_mk_mono) auto
    then show ?thesis by (simp add: e y f_ops f_mk_abs)
  next
    case False
    then show ?thesis
      using assms(1) y by (cases rule: f_nonnegE [OF assms(2)]; cases rule: f_nonnegE [OF x'])
        (auto simp: f_ops)
  qed
qed

lemma f_mul_bounds:
  assumes "f_of 1 \<le> x" "x \<le> Fin False (pow2 i)" "f_of 1 \<le> y" "y \<le> Fin False (pow2 j)"
    and "0 \<le> i" "0 \<le> j" "i + j < 1024"
  shows "f_of 1 \<le> x * y \<and> x * y \<le> Fin False (pow2 (i + j)) \<and> is_finite (x * y)"
proof -
  obtain a where x: "x = Fin False a" and a: "1 \<le> \<bar>a\<bar>" "\<bar>a\<bar> \<le> pow2 i"
    using assms(1,2) by (cases x) (auto simp: f_ops split: if_splits)
  obtain b where y: "y = Fin False b" and b: "1 \<le> \<bar>b\<bar>" "\<bar>b\<bar> \<le> pow2 j"
    using assms(3,4) by (cases y) (auto simp: f_ops split: if_splits)
  have lo: "1 \<le> \<bar>a * b\<bar>" using mult_mono [of 1 "\<bar>a\<bar>" 1 "\<bar>b\<bar>"] a b by (simp add: abs_mult)
  have hi: "\<bar>a * b\<bar> \<le> pow2 (i + j)"
    unfolding pow2_add abs_mult using a b by (intro mult_mono) auto
  obtain r where "f_mk False \<bar>a * b\<bar> = Fin False r" "1 \<le> r" "r \<le> pow2 (i + j)"
    using assms(5-7) by (rule_tac f_mk_between [OF _ lo hi round64_1 round64_pow2 pow2_lt_bound]) auto
  then show ?thesis by (simp add: x y f_ops f_mk_abs)
qed

lemma f_mul_commute: "x * y = y * (x :: f64)"
proof (cases x; cases y)
  fix s a t b
  assume "x = Fin s a" "y = Fin t b"
  then show ?thesis by (cases s; cases t) (simp_all add: f_ops mult.commute)
qed (auto simp: f_ops)

lemma f_mul_mono2:
  assumes "x \<le> x'" "y \<le> y'" "f_of 0 \<le> x" "f_of 0 < y" "is_finite x'" "is_finite y'"
  shows "x * y \<le> x' * y'"
proof -
  have fy: "is_finite y" using assms(2,4,6) by (cases y; cases y') (auto simp: f_ops)
  have "x * y \<le> x' * y" using assms(1,3,4) fy by (rule f_mul_mono)
  also have "x' * y \<le> x' * y'"
  proof (cases "f_of 0 < x'")
    case True
    then show ?thesis
      using f_mul_mono [of y y' x'] assms(2,4,5) f_less_imp_le by (simp only: f_mul_commute)
  next
    case False
    then have "f_of 0 \<le> x'" "\<not> f_of 0 < x'" using assms(1,3) f_le_trans by blast+
    then obtain s where "x' = Fin s 0" by (cases x') (auto simp: f_ops split: if_splits)
    moreover obtain t b where "y = Fin t b" using fy by (cases y) auto
    moreover obtain t' b' where "y' = Fin t' b'" using assms(6) by (cases y') auto
    ultimately show ?thesis by (simp add: f_ops)
  qed
  finally show ?thesis .
qed

lemma f_diff_mono: "x \<le> y \<Longrightarrow> is_finite c \<Longrightarrow> x - c \<le> y - c"
proof (cases x; cases y; cases c)
  fix s a t b u d
  assume e: "x = Fin s a" "y = Fin t b" "c = Fin u d" and "x \<le> y"
  then have "f_val (Fin s a) + f_val (Fin (\<not> u) d) \<le> f_val (Fin t b) + f_val (Fin (\<not> u) d)"
    by (auto simp: f_ops split: if_splits)
  then have "f_of (f_val (Fin s a) + f_val (Fin (\<not> u) d)) \<le> f_of (f_val (Fin t b) + f_val (Fin (\<not> u) d))"
    by (rule f_of_mono)
  then have "Fin s a + Fin (\<not> u) d \<le> Fin t b + Fin (\<not> u) d" unfolding f_add_of .
  then show "x - c \<le> y - c" by (simp add: e minus_f64_def plus_f64_def)
qed (auto simp: f_ops f_of_def f_mk_def Let_def split: if_splits)

lemma f_abs_le: "- b \<le> x \<Longrightarrow> x \<le> b \<Longrightarrow> \<bar>x\<bar> \<le> (b :: f64)"
  by (cases x; cases b) (auto simp: f_ops split: if_splits)

lemma f_abs_nonneg: "x \<noteq> NaN \<Longrightarrow> f_of 0 \<le> \<bar>x\<bar>"
  by (cases x) (auto simp: f_ops)

lemma f_between_finite: "f_of 0 \<le> x \<Longrightarrow> x \<le> Fin s m \<Longrightarrow> is_finite x"
  by (cases x) (auto simp: f_ops)

end
