(* ===== verification/Prelude.thy ===== *)
theory Prelude
  imports F64 "HOL-Library.Multiset" "HOL-Library.AList" "HOL-Library.Char_ord"
    "HOL-Library.List_Lexorder" "HOL-Library.Product_Lexorder"
    "HOL-Library.Code_Target_Nat"
begin

text \<open>
  What the components share: the types that stand for Rust's and the standard library's (identifiers,
  durations, 64-bit integers), the two keyed containers with the laws the clients use, and the
  development's collections of facts.
\<close>

named_theorems rust_int \<open>definitions of the fixed-width integer operations\<close>
named_theorems keeps_inv \<open>every operation keeps its component's invariant\<close>

section \<open>Types\<close>

text \<open>
  A \<^verbatim>\<open>Uuid\<close> is a number (only equality is used); a \<^verbatim>\<open>Duration\<close> and an \<^verbatim>\<open>Instant\<close> are nanoseconds.  A Rust
  string is its sequence of bytes, ordered byte by byte.
\<close>

type_synonym uuid = nat
type_synonym duration = nat
type_synonym instant = nat

section \<open>Integers of 64 bits\<close>

text \<open>
  \<^verbatim>\<open>u64\<close> and \<^verbatim>\<open>usize\<close> are naturals below \<open>2 ^ 64\<close>.  The release profile of the workspace does not enable
  overflow checks, so plain \<^verbatim>\<open>+\<close> and \<^verbatim>\<open>-\<close> wrap around.
\<close>

definition u64_max :: nat where
  "u64_max = 2 ^ 64 - 1"

definition saturating_add :: "nat \<Rightarrow> nat \<Rightarrow> nat" where [rust_int]:
  "saturating_add a b = min (a + b) u64_max"

definition saturating_sub :: "nat \<Rightarrow> nat \<Rightarrow> nat" where [rust_int]:
  "saturating_sub a b = (if b \<le> a then a - b else 0)"

definition saturating_mul :: "nat \<Rightarrow> nat \<Rightarrow> nat" where [rust_int]:
  "saturating_mul a b = min (a * b) u64_max"

definition wrapping_add :: "nat \<Rightarrow> nat \<Rightarrow> nat" where [rust_int]:
  "wrapping_add a b = (a + b) mod 2 ^ 64"

definition wrapping_sub :: "nat \<Rightarrow> nat \<Rightarrow> nat" where [rust_int]:
  "wrapping_sub a b = (if b \<le> a then a - b else 2 ^ 64 + a - b)"

text \<open>\<^verbatim>\<open>duration.as_nanos().min(u64::MAX as u128) as u64\<close>\<close>

definition nanos_u64 :: "duration \<Rightarrow> nat" where [rust_int]:
  "nanos_u64 d = min d u64_max"

lemma u64_max_less: "n \<le> u64_max \<longleftrightarrow> n < 2 ^ 64"
  by (auto simp: u64_max_def)

lemma wrapping_add_exact: "a + b \<le> u64_max \<Longrightarrow> wrapping_add a b = a + b"
  by (simp add: rust_int u64_max_less)

lemma wrapping_sub_exact: "b \<le> a \<Longrightarrow> wrapping_sub a b = a - b"
  by (simp add: rust_int)

lemma saturating_add_le: "saturating_add a b \<le> m \<Longrightarrow> m < u64_max \<Longrightarrow> a + b \<le> m"
  by (auto simp: rust_int min_def split: if_splits)

section \<open>Keyed containers\<close>

text \<open>
  A \<^verbatim>\<open>HashMap\<close> and a \<^verbatim>\<open>BTreeMap\<close> are association lists with distinct keys.  The list is the order in which
  the container is iterated: increasing in a \<^verbatim>\<open>BTreeMap\<close>; in a \<^verbatim>\<open>HashMap\<close> the order is unspecified, and an
  operation whose result depends on it takes the order as an argument.
\<close>

fun bt_insert :: "'k::linorder \<Rightarrow> 'v \<Rightarrow> ('k \<times> 'v) list \<Rightarrow> ('k \<times> 'v) list" where
  "bt_insert k v [] = [(k, v)]"
| "bt_insert k v ((a, b) # m) =
     (if k < a then (k, v) # (a, b) # m
      else if k = a then (k, v) # m
      else (a, b) # bt_insert k v m)"

definition bt_remove :: "'k \<Rightarrow> ('k \<times> 'v) list \<Rightarrow> ('k \<times> 'v) list" where
  "bt_remove k m = filter (\<lambda>(a, _). a \<noteq> k) m"

definition bt_ok :: "('k::linorder \<times> 'v) list \<Rightarrow> bool" where
  "bt_ok m = sorted_wrt (<) (map fst m)"

definition hm_ok :: "('k \<times> 'v) list \<Rightarrow> bool" where
  "hm_ok m = distinct (map fst m)"

text \<open>
  The contract of a keyed container, and what follows from it for the totals the components keep
  beside their containers (queued requests and bytes, leased units).
\<close>

locale keyed_store =
  fixes put :: "'k \<Rightarrow> 'v \<Rightarrow> ('k \<times> 'v) list \<Rightarrow> ('k \<times> 'v) list"
    and del :: "'k \<Rightarrow> ('k \<times> 'v) list \<Rightarrow> ('k \<times> 'v) list"
    and ok :: "('k \<times> 'v) list \<Rightarrow> bool"
  assumes ok_distinct: "ok m \<Longrightarrow> distinct (map fst m)"
    and ok_put: "ok m \<Longrightarrow> ok (put k v m)"
    and ok_del: "ok m \<Longrightarrow> ok (del k m)"
    and get_put: "ok m \<Longrightarrow> map_of (put k v m) = (map_of m)(k \<mapsto> v)"
    and get_del: "ok m \<Longrightarrow> map_of (del k m) = (map_of m)(k := None)"
begin

lemma in_set_iff: "ok m \<Longrightarrow> (k, v) \<in> set m \<longleftrightarrow> map_of m k = Some v"
  using ok_distinct [of m] by simp

lemma set_put: "ok m \<Longrightarrow> set (put k v m) = insert (k, v) {(a, b). (a, b) \<in> set m \<and> a \<noteq> k}"
  using in_set_iff [OF ok_put] in_set_iff by (auto simp: get_put split: if_splits)

lemma set_del: "ok m \<Longrightarrow> set (del k m) = {(a, b). (a, b) \<in> set m \<and> a \<noteq> k}"
  using in_set_iff [OF ok_del] in_set_iff by (auto simp: get_del split: if_splits)

lemma distinct_entries: "ok m \<Longrightarrow> distinct m"
  using ok_distinct [of m] by (simp add: distinct_map)

lemma mset_put_new:
  assumes "ok m" "map_of m k = None"
  shows "mset (put k v m) = add_mset (k, v) (mset m)"
proof -
  have "k \<notin> fst ` set m" using assms(2) by (simp add: map_of_eq_None_iff)
  then have "set (put k v m) = set ((k, v) # m)" "distinct ((k, v) # m)"
    using assms(1) by (auto simp: set_put distinct_entries rev_image_eqI)
  then have "mset (put k v m) = mset ((k, v) # m)"
    using assms(1) by (simp only: set_eq_iff_mset_eq_distinct [OF distinct_entries [OF ok_put]])
  then show ?thesis by simp
qed

lemma mset_del:
  assumes "ok m" "map_of m k = Some w"
  shows "mset m = add_mset (k, w) (mset (del k m))"
proof -
  have kw: "(k, w) \<in> set m" using assms by (simp add: in_set_iff)
  have "set m = set ((k, w) # del k m)"
    using assms kw by (auto simp: set_del in_set_iff)
  moreover have "distinct ((k, w) # del k m)"
    using assms by (auto simp: set_del distinct_entries ok_del)
  ultimately have "mset m = mset ((k, w) # del k m)"
    using assms(1) by (simp only: set_eq_iff_mset_eq_distinct [OF distinct_entries])
  then show ?thesis by simp
qed

lemma mset_put_old:
  assumes "ok m" "map_of m k = Some w"
  shows "mset (put k v m) = add_mset (k, v) (mset (del k m))"
proof -
  have g: "map_of (put k v m) k = Some v" using assms(1) by (simp add: get_put)
  have "set (del k (put k v m)) = set (del k m)"
    using assms(1) by (auto simp: set_del set_put ok_put)
  then have "mset (del k (put k v m)) = mset (del k m)"
    using assms(1)
    by (simp only: set_eq_iff_mset_eq_distinct [OF distinct_entries distinct_entries] ok_del ok_put)
  then show ?thesis using mset_del [OF ok_put [OF assms(1)] g] by simp
qed

lemma del_absent: "ok m \<Longrightarrow> map_of m k = None \<Longrightarrow> mset (del k m) = mset m"
  by (rule set_eq_iff_mset_eq_distinct [THEN iffD1])
    (auto simp: distinct_entries ok_del set_del map_of_eq_None_iff rev_image_eqI)

text \<open>Totals over the stored values: counts, byte sums, or the multiset of everything stored.\<close>

lemma total_mset:
  "mset m = mset m' \<Longrightarrow> sum_list (map f m) = (sum_list (map f m') :: 'c::comm_monoid_add)"
  by (metis mset_map sum_mset_sum_list)

lemma total_put_new:
  "ok m \<Longrightarrow> map_of m k = None \<Longrightarrow>
     sum_list (map f (put k v m)) = f (k, v) + (sum_list (map f m) :: 'c::comm_monoid_add)"
  using total_mset [of "put k v m" "(k, v) # m"] by (simp add: mset_put_new)

lemma total_put_old:
  "ok m \<Longrightarrow> map_of m k = Some w \<Longrightarrow>
     sum_list (map f (put k v m)) = f (k, v) + (sum_list (map f (del k m)) :: 'c::comm_monoid_add)"
  using total_mset [of "put k v m" "(k, v) # del k m"] by (simp add: mset_put_old)

lemma total_del:
  "ok m \<Longrightarrow> map_of m k = Some w \<Longrightarrow>
     sum_list (map f m) = f (k, w) + (sum_list (map f (del k m)) :: 'c::comm_monoid_add)"
  using total_mset [of m "(k, w) # del k m"] by (simp add: mset_del [symmetric])

end

lemma map_of_bt_insert: "bt_ok m \<Longrightarrow> map_of (bt_insert k v m) = (map_of m)(k \<mapsto> v)"
  by (induction m) (auto simp: bt_ok_def fun_upd_twist)

lemma fst_bt_insert: "fst ` set (bt_insert k v m) = insert k (fst ` set m)"
  by (induction k v m rule: bt_insert.induct) (simp_all add: insert_commute)

lemma bt_ok_insert: "bt_ok m \<Longrightarrow> bt_ok (bt_insert k v m)"
proof (induction m)
  case (Cons p m)
  obtain a b where p: "p = (a, b)" by force
  from Cons show ?case
    using fst_bt_insert [of k v m] by (fastforce simp: bt_ok_def p)
qed (simp add: bt_ok_def)

lemma bt_ok_remove: "bt_ok m \<Longrightarrow> bt_ok (bt_remove k m)"
  by (induction m) (auto simp: bt_ok_def bt_remove_def)

lemma map_of_bt_remove: "map_of (bt_remove k m) = (map_of m)(k := None)"
  by (induction m) (auto simp: bt_remove_def fun_eq_iff)

lemma bt_ok_distinct: "bt_ok m \<Longrightarrow> distinct (map fst m)"
  by (simp add: bt_ok_def strict_sorted_iff)

interpretation bt: keyed_store bt_insert bt_remove bt_ok
  by unfold_locales
    (simp_all add: bt_ok_distinct bt_ok_insert bt_ok_remove map_of_bt_insert map_of_bt_remove)

interpretation hm: keyed_store AList.update AList.delete hm_ok
  by unfold_locales
    (simp_all add: hm_ok_def distinct_update distinct_delete update_conv' delete_conv')

section \<open>Decimal numbers\<close>

text \<open>\<^verbatim>\<open>u64::to_string\<close> and its inverse on digit strings.\<close>

fun nat_to_dec :: "nat \<Rightarrow> string" where
  "nat_to_dec n = (if n < 10 then [char_of (48 + n)] else nat_to_dec (n div 10) @ [char_of (48 + n mod 10)])"

declare nat_to_dec.simps [simp del]

definition is_digit :: "char \<Rightarrow> bool" where
  "is_digit c \<longleftrightarrow> 48 \<le> (of_char c :: nat) \<and> (of_char c :: nat) \<le> 57"

definition dec_value :: "string \<Rightarrow> nat" where
  "dec_value s = foldl (\<lambda>a c. 10 * a + (of_char c - 48)) 0 s"

lemma of_char_digit: "d < 10 \<Longrightarrow> (of_char (char_of (48 + d :: nat)) :: nat) = 48 + d"
  by simp

lemma nat_to_dec_digits: "c \<in> set (nat_to_dec n) \<Longrightarrow> is_digit c"
proof (induction n rule: nat_to_dec.induct)
  case (1 n)
  have d: "is_digit (char_of (48 + d :: nat))" if "d < 10" for d
    using that by (simp add: is_digit_def)
  show ?case
  proof (cases "n < 10")
    case True
    with 1 d show ?thesis by (simp add: nat_to_dec.simps [of n])
  next
    case False
    with 1 d [of "n mod 10"] show ?thesis by (auto simp: nat_to_dec.simps [of n])
  qed
qed

lemma dec_value_snoc: "dec_value (s @ [c]) = 10 * dec_value s + (of_char c - 48)"
  by (simp add: dec_value_def)

lemma dec_value_to_dec [simp]: "dec_value (nat_to_dec n) = n"
proof (induction n rule: nat_to_dec.induct)
  case (1 n)
  show ?case
  proof (cases "n < 10")
    case True
    then show ?thesis by (simp add: nat_to_dec.simps [of n] dec_value_def)
  next
    case False
    with 1 show ?thesis by (simp add: nat_to_dec.simps [of n] dec_value_snoc)
  qed
qed

lemma nat_to_dec_nonempty [simp]: "nat_to_dec n \<noteq> []"
  by (subst nat_to_dec.simps) simp

lemma nat_to_dec_inject [simp]: "nat_to_dec m = nat_to_dec n \<longleftrightarrow> m = n"
  by (metis dec_value_to_dec)

text \<open>\<^verbatim>\<open>split_once(':')\<close>: the text before and after the first colon.\<close>

fun split_colon :: "string \<Rightarrow> (string \<times> string) option" where
  "split_colon [] = None"
| "split_colon (c # cs) =
     (if c = CHR '':'' then Some ([], cs) else map_option (\<lambda>(a, b). (c # a, b)) (split_colon cs))"

lemma split_colon_append: "CHR '':'' \<notin> set a \<Longrightarrow> split_colon (a @ '':'' @ b) = Some (a, b)"
  by (induction a) auto

lemma colon_not_dec [simp]: "CHR '':'' \<notin> set (nat_to_dec n)"
  using nat_to_dec_digits [of "CHR '':''" n] by (auto simp: is_digit_def)

section \<open>Text\<close>

text \<open>\<^verbatim>\<open>str::lines\<close>: split at line feeds, without a carriage return before one and without a last empty line.\<close>

fun split_lf :: "string \<Rightarrow> string \<Rightarrow> string list" where
  "split_lf acc [] = (if acc = [] then [] else [rev acc])"
| "split_lf acc (c # cs) =
     (if c = CHR 0x0A
      then (case acc of a # as \<Rightarrow> if a = CHR 0x0D then rev as else rev acc | [] \<Rightarrow> []) # split_lf [] cs
      else split_lf (c # acc) cs)"

text \<open>
  \<^verbatim>\<open>str::trim\<close> on UTF-8 bytes: the white space of Unicode is six ASCII characters, two characters of two
  bytes and seventeen of three.
\<close>

definition is_whitespace :: "string \<Rightarrow> bool" where
  "is_whitespace c =
     (case map of_char c :: nat list of
        [a] \<Rightarrow> a = 32 \<or> (9 \<le> a \<and> a \<le> 13)
      | [a, b] \<Rightarrow> a = 0xC2 \<and> (b = 0x85 \<or> b = 0xA0)
      | [a, b, d] \<Rightarrow> (a = 0xE1 \<and> b = 0x9A \<and> d = 0x80) \<or> (a = 0xE3 \<and> b = 0x80 \<and> d = 0x80) \<or>
          (a = 0xE2 \<and> ((b = 0x80 \<and> ((0x80 \<le> d \<and> d \<le> 0x8A) \<or> d = 0xA8 \<or> d = 0xA9 \<or> d = 0xAF)) \<or>
                       (b = 0x81 \<and> d = 0x9F)))
      | _ \<Rightarrow> False)"

fun trim_front_while :: "(string \<Rightarrow> bool) \<Rightarrow> string \<Rightarrow> string" where
  "trim_front_while p [] = []"
| "trim_front_while p (a # s) =
     (if p [a] then trim_front_while p s
      else case s of
        b # s' \<Rightarrow> if p [a, b] then trim_front_while p s'
          else (case s' of d # s'' \<Rightarrow> if p [a, b, d] then trim_front_while p s'' else a # s | [] \<Rightarrow> a # s)
      | [] \<Rightarrow> a # s)"

definition trim :: "string \<Rightarrow> string" where
  "trim s = rev (trim_front_while (\<lambda>c. is_whitespace (rev c)) (rev (trim_front_while is_whitespace s)))"

section \<open>Sequences of results\<close>

text \<open>\<^verbatim>\<open>collect\<close> into a \<^verbatim>\<open>Result\<close>: the values, or the first error.\<close>

fun collect_results :: "('e + 'a) list \<Rightarrow> 'e + 'a list" where
  "collect_results [] = Inr []"
| "collect_results (r # rs) =
     (case r of Inl e \<Rightarrow> Inl e
      | Inr a \<Rightarrow> (case collect_results rs of Inl e \<Rightarrow> Inl e | Inr as \<Rightarrow> Inr (a # as)))"

lemma collect_results_map [simp]: "collect_results (map Inr as) = Inr as"
  by (induction as) auto

lemma collect_results_Inr: "collect_results rs = Inr as \<longleftrightarrow> rs = map Inr as"
proof
  show "collect_results rs = Inr as \<Longrightarrow> rs = map Inr as"
    by (induction rs arbitrary: as) (auto split: sum.splits)
qed simp

text \<open>\<^verbatim>\<open>entry(k).or_default()\<close> of a \<^verbatim>\<open>BTreeMap\<close>, updated in place.\<close>

definition bt_update :: "'k::linorder \<Rightarrow> 'v \<Rightarrow> ('v \<Rightarrow> 'v) \<Rightarrow> ('k \<times> 'v) list \<Rightarrow> ('k \<times> 'v) list" where
  "bt_update k d f m = bt_insert k (f (case map_of m k of None \<Rightarrow> d | Some v \<Rightarrow> v)) m"

lemma bt_ok_update [simp]: "bt_ok m \<Longrightarrow> bt_ok (bt_update k d f m)"
  by (simp add: bt_update_def bt_ok_insert)

lemma map_of_bt_update:
  "bt_ok m \<Longrightarrow> map_of (bt_update k d f m) = (map_of m)(k \<mapsto> f (case map_of m k of None \<Rightarrow> d | Some v \<Rightarrow> v))"
  by (simp add: bt_update_def map_of_bt_insert)

lemma bt_ok_Nil [simp]: "bt_ok []"
  by (simp add: bt_ok_def)

section \<open>Checks that return early\<close>

text \<open>
  A function that ends with \<^verbatim>\<open>Ok(())\<close> after a row of \<^verbatim>\<open>if bad { return Err(e) }\<close> is the first failure of the row.
\<close>

definition require :: "bool \<Rightarrow> 'e \<Rightarrow> 'e + unit" where
  "require b e = (if b then Inr () else Inl e)"

fun try_all :: "('e + unit) list \<Rightarrow> 'e + unit" where
  "try_all [] = Inr ()"
| "try_all (c # cs) = (case c of Inl e \<Rightarrow> Inl e | Inr _ \<Rightarrow> try_all cs)"

lemma require_Inr [simp]: "require b e = Inr u \<longleftrightarrow> b"
  by (simp add: require_def)

lemma try_all_Inr: "try_all cs = Inr u \<longleftrightarrow> (\<forall>c \<in> set cs. c = Inr ())"
  by (induction cs) (auto split: sum.splits)

lemma try_all_append: "try_all (cs @ ds) = (case try_all cs of Inl e \<Rightarrow> Inl e | Inr _ \<Rightarrow> try_all ds)"
  by (induction cs) (auto split: sum.splits)

lemma try_all_Inl: "try_all cs = Inl e \<Longrightarrow> \<exists>as bs. cs = as @ Inl e # bs \<and> (\<forall>c \<in> set as. c = Inr ())"
proof (induction cs)
  case (Cons c cs)
  show ?case
  proof (cases c)
    case (Inl d)
    with Cons.prems show ?thesis by (intro exI [of _ "[]"] exI [of _ cs]) auto
  next
    case (Inr u)
    with Cons obtain as bs where "cs = as @ Inl e # bs" "\<forall>c \<in> set as. c = Inr ()" by auto
    with Inr show ?thesis by (intro exI [of _ "c # as"] exI [of _ bs]) auto
  qed
qed simp

declare try_all.simps(2) [simp del]

end
