(* ===== verification/Core.thy ===== *)
theory Core
  imports Prelude
begin

text \<open>
  The provider-neutral domain types of \<^verbatim>\<open>crates/core/src/lib.rs\<close> and the estimate check of
  \<^verbatim>\<open>crates/provider-sdk/src/lib.rs\<close>: service classes with their names, work units, work estimates,
  identities and admission requests.
\<close>

section \<open>Service classes\<close>

datatype service_class = Realtime | Interactive | Standard | Workflow | Batch

fun class_rank :: "service_class \<Rightarrow> nat" where
  "class_rank Realtime = 0"
| "class_rank Interactive = 1"
| "class_rank Standard = 2"
| "class_rank Workflow = 3"
| "class_rank Batch = 4"

lemma class_rank_inject [simp]: "class_rank a = class_rank b \<longleftrightarrow> a = b"
  by (cases a; cases b) auto

text \<open>The derived \<^verbatim>\<open>Ord\<close> is the order of declaration.\<close>

instantiation service_class :: linorder
begin

definition less_eq_service_class :: "service_class \<Rightarrow> service_class \<Rightarrow> bool" where
  "less_eq_service_class a b = (class_rank a \<le> class_rank b)"

definition less_service_class :: "service_class \<Rightarrow> service_class \<Rightarrow> bool" where
  "less_service_class a b = (class_rank a < class_rank b)"

instance
  by standard (auto simp: less_eq_service_class_def less_service_class_def)

end

datatype core_error =
    InvalidServiceClass string
  | InvalidWork f64
  | Provider string
  | Cancelled
  | Deadline
  | Capacity "duration option"

text \<open>\<^verbatim>\<open>Display for ServiceClass\<close> and \<^verbatim>\<open>FromStr for ServiceClass\<close>.\<close>

fun class_to_string :: "service_class \<Rightarrow> string" where
  "class_to_string Realtime = ''realtime''"
| "class_to_string Interactive = ''interactive''"
| "class_to_string Standard = ''standard''"
| "class_to_string Workflow = ''workflow''"
| "class_to_string Batch = ''batch''"

definition class_from_str :: "string \<Rightarrow> core_error + service_class" where
  "class_from_str value =
     (if value = ''realtime'' then Inr Realtime
      else if value = ''interactive'' then Inr Interactive
      else if value = ''standard'' then Inr Standard
      else if value = ''workflow'' then Inr Workflow
      else if value = ''batch'' then Inr Batch
      else Inl (InvalidServiceClass value))"

lemma class_from_to: "class_from_str (class_to_string c) = Inr c"
  by (cases c) (simp_all add: class_from_str_def)

lemma class_from_str_Inr: "class_from_str s = Inr c \<longleftrightarrow> s = class_to_string c"
  by (cases c) (auto simp: class_from_str_def split: if_splits)

lemma class_to_string_inject [simp]: "class_to_string a = class_to_string b \<longleftrightarrow> a = b"
  by (metis class_from_to sum.inject(2))

section \<open>Work\<close>

text \<open>\<^verbatim>\<open>WorkUnits::new\<close>: finite and not negative.\<close>

definition work_units_new :: "f64 \<Rightarrow> core_error + f64" where
  "work_units_new value =
     (if is_finite value \<and> f_of 0 \<le> value then Inr value else Inl (InvalidWork value))"

datatype estimate_source =
  ExactTokenizer | CompatibleTokenizer | TrustedClient | ProviderMetadata | Approximation

record work_estimate =
  input_tokens :: nat
  output_tokens :: nat
  cached_input_tokens :: nat
  provider_cost_coefficient :: f64
  normalized_units :: f64
  confidence :: f64
  source :: estimate_source

text \<open>\<^verbatim>\<open>WorkEstimate::conservative\<close>\<close>

definition conservative :: "nat \<Rightarrow> nat \<Rightarrow> f64 \<Rightarrow> core_error + work_estimate" where
  "conservative input max_output coefficient =
     (let units = f_of_nat (saturating_add input max_output) * coefficient
      in case work_units_new units of
           Inl e \<Rightarrow> Inl e
         | Inr u \<Rightarrow> Inr \<lparr>input_tokens = input, output_tokens = max_output, cached_input_tokens = 0,
             provider_cost_coefficient = coefficient, normalized_units = u,
             confidence = f32_of (45 / 100), source = Approximation\<rparr>)"

text \<open>\<^verbatim>\<open>validate_estimate\<close> of the provider SDK.\<close>

definition validate_estimate :: "work_estimate \<Rightarrow> core_error + unit" where
  "validate_estimate e =
     (if \<not> is_finite (normalized_units e) \<or> normalized_units e < f_of 0
      then Inl (InvalidWork (normalized_units e))
      else if \<not> (f32_of 0 \<le> confidence e \<and> confidence e \<le> f32_of 1)
      then Inl (Provider ''estimate confidence must be in [0,1]'')
      else if input_tokens e < cached_input_tokens e
      then Inl (Provider ''cached input cannot exceed input tokens'')
      else Inr ())"

lemma work_units_new_Inr: "work_units_new v = Inr u \<longleftrightarrow> u = v \<and> is_finite v \<and> f_of 0 \<le> v"
  by (auto simp: work_units_new_def)

section \<open>Requests\<close>

record identity_context =
  principal :: string
  tenant :: string
  application :: string
  trusted :: bool

record admission_request =
  req_id :: uuid
  req_identity :: identity_context
  requested_class :: service_class
  effective_class :: service_class
  req_pool :: string
  estimate :: work_estimate
  req_deadline :: duration
  queueable :: bool

datatype admission_decision =
    Admit uuid
  | Queue nat nat
  | Reject string "nat option"
  | Shadow admission_decision

definition HEADER_CLASS :: string where "HEADER_CLASS = ''x-inferqos-class''"
definition HEADER_DEADLINE_MS :: string where "HEADER_DEADLINE_MS = ''x-inferqos-deadline-ms''"
definition HEADER_TENANT :: string where "HEADER_TENANT = ''x-inferqos-tenant''"
definition HEADER_APPLICATION :: string where "HEADER_APPLICATION = ''x-inferqos-application''"
definition HEADER_QUEUEABLE :: string where "HEADER_QUEUEABLE = ''x-inferqos-queueable''"
definition HEADER_REQUEST_ID :: string where "HEADER_REQUEST_ID = ''x-inferqos-request-id''"

lemmas header_defs = HEADER_CLASS_def HEADER_DEADLINE_MS_def HEADER_TENANT_def
  HEADER_APPLICATION_def HEADER_QUEUEABLE_def HEADER_REQUEST_ID_def

section \<open>Properties\<close>

lemma confidence_045: "f32_of 0 \<le> f32_of (45 / 100)" "f32_of (45 / 100) \<le> f32_of 1"
  by code_simp+

end
