(* ===== verification/Scheduler.thy ===== *)
theory Scheduler
  imports Core
begin

text \<open>
  The work-conserving hierarchical weighted fair scheduler of \<^verbatim>\<open>crates/scheduler/src/lib.rs\<close>: queues
  keyed by class, tenant and application, the score that picks the next queue, and the operations
  \<^verbatim>\<open>enqueue\<close>, \<^verbatim>\<open>cancel\<close>, \<^verbatim>\<open>pop_next\<close> and \<^verbatim>\<open>snapshot\<close>.  Each operation runs under the scheduler's mutex, so it is a
  function of the locked state; the clock's reading is an argument.
\<close>

section \<open>Clocks\<close>

text \<open>
  \<^verbatim>\<open>SystemClock\<close> reads the nanoseconds since its epoch; \<^verbatim>\<open>VirtualClock\<close> is an atomic counter, which wraps.
\<close>

definition system_now_ns :: "instant \<Rightarrow> instant \<Rightarrow> nat" where
  "system_now_ns epoch now = nanos_u64 (now - epoch)"

definition virtual_advance :: "nat \<Rightarrow> duration \<Rightarrow> nat" where
  "virtual_advance clock d = wrapping_add clock (nanos_u64 d)"

section \<open>State\<close>

record scheduler_config =
  max_depth :: nat
  max_bytes :: nat
  aging_half_life :: duration
  deadline_window :: duration
  quantum :: f64

definition default_config :: scheduler_config where
  "default_config = \<lparr>max_depth = 10000, max_bytes = 256 * 1024 * 1024,
     aging_half_life = 2000000000, deadline_window = 1000000000, quantum = f_of 1000\<rparr>"

datatype queue_key = QueueKey (key_class: service_class) (key_tenant: string) (key_app: string)

definition key_tuple :: "queue_key \<Rightarrow> service_class \<times> string \<times> string" where
  "key_tuple k = (key_class k, key_tenant k, key_app k)"

lemma key_tuple_inject [simp]: "key_tuple a = key_tuple b \<longleftrightarrow> a = b"
  by (cases a; cases b) (simp add: key_tuple_def)

text \<open>The derived \<^verbatim>\<open>Ord\<close> of a struct is lexicographic in its fields.\<close>

instantiation queue_key :: linorder
begin

definition less_eq_queue_key :: "queue_key \<Rightarrow> queue_key \<Rightarrow> bool" where
  "less_eq_queue_key a b = (key_tuple a \<le> key_tuple b)"

definition less_queue_key :: "queue_key \<Rightarrow> queue_key \<Rightarrow> bool" where
  "less_queue_key a b = (key_tuple a < key_tuple b)"

instance
  by standard (auto simp: less_eq_queue_key_def less_queue_key_def less_le)

end

record queued =
  q_request :: admission_request
  enqueued_ns :: nat
  deadline_ns :: nat
  body_bytes :: nat
  q_sequence :: nat

record queue_state =
  items :: "queued list"
  served :: f64
  weight :: f64

record inner =
  queues :: "(queue_key \<times> queue_state) list"
  index :: "uuid \<rightharpoonup> queue_key"
  depth :: nat
  bytes :: nat
  sequence :: nat

definition scheduler_new :: inner where
  "scheduler_new = \<lparr>queues = [], index = Map.empty, depth = 0, bytes = 0, sequence = 0\<rparr>"

datatype scheduler_error = DepthLimit | ByteLimit | Duplicate uuid

section \<open>Operations\<close>

definition request_key :: "admission_request \<Rightarrow> queue_key" where
  "request_key r = QueueKey (effective_class r) (tenant (req_identity r)) (application (req_identity r))"

definition queue_weight :: "nat \<Rightarrow> nat \<Rightarrow> nat \<Rightarrow> f64" where
  "queue_weight class_weight tenant_weight app_weight =
     f_of_nat (max class_weight 1) * f_of_nat (max tenant_weight 1) * f_of_nat (max app_weight 1)"

definition enqueue ::
  "scheduler_config \<Rightarrow> nat \<Rightarrow> admission_request \<Rightarrow> nat \<Rightarrow> nat \<Rightarrow> nat \<Rightarrow> nat \<Rightarrow> inner
     \<Rightarrow> (scheduler_error + nat) \<times> inner" where
  "enqueue cfg now request body class_weight tenant_weight app_weight state =
     (if max_depth cfg \<le> depth state then (Inl DepthLimit, state)
      else if max_bytes cfg < saturating_add (bytes state) body then (Inl ByteLimit, state)
      else if index state (req_id request) \<noteq> None then (Inl (Duplicate (req_id request)), state)
      else
        let deadline = saturating_add now (nanos_u64 (req_deadline request));
            key = request_key request;
            seq = wrapping_add (sequence state) 1;
            w = queue_weight class_weight tenant_weight app_weight;
            q = (case map_of (queues state) key of
                   Some q \<Rightarrow> q
                 | None \<Rightarrow> \<lparr>items = [], served = f_of 0, weight = w\<rparr>);
            item = \<lparr>q_request = request, enqueued_ns = now, deadline_ns = deadline,
                     body_bytes = body, q_sequence = seq\<rparr>;
            state' = state\<lparr>sequence := seq,
              queues := bt_insert key (q\<lparr>items := items q @ [item]\<rparr>) (queues state),
              index := (index state)(req_id request \<mapsto> key),
              depth := wrapping_add (depth state) 1,
              bytes := wrapping_add (bytes state) body\<rparr>
        in (Inr (depth state'), state'))"

text \<open>The request with the given id taken out of a queue: \<^verbatim>\<open>position\<close>, then \<^verbatim>\<open>remove\<close>.\<close>

fun take_request :: "uuid \<Rightarrow> queued list \<Rightarrow> (queued \<times> queued list) option" where
  "take_request i [] = None"
| "take_request i (q # qs) =
     (if req_id (q_request q) = i then Some (q, qs)
      else map_option (\<lambda>(x, rest). (x, q # rest)) (take_request i qs))"

text \<open>\<^verbatim>\<open>if state.queues.get(&key).is_some_and(|q| q.items.is_empty()) { state.queues.remove(&key); }\<close>\<close>

definition drop_if_empty :: "queue_key \<Rightarrow> (queue_key \<times> queue_state) list \<Rightarrow> (queue_key \<times> queue_state) list" where
  "drop_if_empty key qs =
     (case map_of qs key of
        Some q \<Rightarrow> if items q = [] then bt_remove key qs else qs
      | None \<Rightarrow> qs)"

definition cancel :: "uuid \<Rightarrow> inner \<Rightarrow> bool \<times> inner" where
  "cancel i state =
     (case index state i of
        None \<Rightarrow> (False, state)
      | Some key \<Rightarrow>
          let state1 = state\<lparr>index := (index state)(i := None)\<rparr>;
              found = (case map_of (queues state1) key of
                         None \<Rightarrow> None
                       | Some q \<Rightarrow> map_option (\<lambda>(x, rest). (q, x, rest)) (take_request i (items q)));
              state2 = (case found of
                          None \<Rightarrow> state1
                        | Some (q, x, rest) \<Rightarrow>
                            state1\<lparr>queues := bt_insert key (q\<lparr>items := rest\<rparr>) (queues state1),
                              depth := wrapping_sub (depth state1) 1,
                              bytes := wrapping_sub (bytes state1) (body_bytes x)\<rparr>)
          in (found \<noteq> None, state2\<lparr>queues := drop_if_empty key (queues state2)\<rparr>))"

text \<open>The score of a queue with a given front, as the closure of \<^verbatim>\<open>filter_map\<close> computes it.\<close>

definition age_boost :: "scheduler_config \<Rightarrow> nat \<Rightarrow> queued \<Rightarrow> f64" where
  "age_boost cfg now front =
     f_of_nat (saturating_sub now (enqueued_ns front)) / f_of_nat (max (aging_half_life cfg) 1)"

definition deadline_boost :: "scheduler_config \<Rightarrow> nat \<Rightarrow> queued \<Rightarrow> f64" where
  "deadline_boost cfg now front =
     (let remaining = f_of_nat (saturating_sub (deadline_ns front) now)
      in if deadline_ns front \<le> now then f_of 1000000
         else f_min (f_of_nat (max (deadline_window cfg) 1) / f_max remaining (f_of 1)) (f_of 100000))"

definition fair_share :: "scheduler_config \<Rightarrow> queue_state \<Rightarrow> f64" where
  "fair_share cfg q = (weight q * quantum cfg) / (served q + quantum cfg)"

definition score :: "scheduler_config \<Rightarrow> nat \<Rightarrow> queue_state \<Rightarrow> queued \<Rightarrow> f64" where
  "score cfg now q front = fair_share cfg q + age_boost cfg now front + deadline_boost cfg now front"

type_synonym candidate = "queue_key \<times> f64 \<times> nat"

definition candidates :: "scheduler_config \<Rightarrow> nat \<Rightarrow> inner \<Rightarrow> candidate list" where
  "candidates cfg now state =
     List.map_filter (\<lambda>(key, q). case items q of
         [] \<Rightarrow> None
       | front # _ \<Rightarrow> Some (key, score cfg now q front, q_sequence front)) (queues state)"

text \<open>
  The comparator of \<^verbatim>\<open>max_by\<close>: by score in \<^verbatim>\<open>total_cmp\<close>'s order, then the smaller sequence number.  Of
  equal elements \<^verbatim>\<open>max_by\<close> keeps the last.
\<close>

definition outranks :: "candidate \<Rightarrow> candidate \<Rightarrow> bool" where
  "outranks a b =
     (f_total_lt (fst (snd b)) (fst (snd a)) \<or>
      \<not> f_total_lt (fst (snd a)) (fst (snd b)) \<and> snd (snd a) < snd (snd b))"

fun max_candidate :: "candidate list \<Rightarrow> candidate option" where
  "max_candidate [] = None"
| "max_candidate (c # cs) = Some (foldl (\<lambda>a b. if outranks a b then a else b) c cs)"

text \<open>
  The charge for a popped request, and the rebasing of all queues once the least served of them has
  passed a thousand quanta.
\<close>

definition charge :: "queued \<Rightarrow> queue_state \<Rightarrow> queue_state" where
  "charge item q =
     q\<lparr>served := served q
         + f_max (normalized_units (estimate (q_request item))) (f_of 1) / f_max (weight q) (f_of 1)\<rparr>"

definition min_served :: "(queue_key \<times> queue_state) list \<Rightarrow> f64" where
  "min_served qs = foldl f_min (Infty False) (map (\<lambda>(_, q). served q) qs)"

definition rebase :: "scheduler_config \<Rightarrow> (queue_key \<times> queue_state) list \<Rightarrow> (queue_key \<times> queue_state) list" where
  "rebase cfg qs =
     (if is_finite (min_served qs) \<and> quantum cfg * f_of 1000 < min_served qs
      then map (\<lambda>(k, q). (k, q\<lparr>served := served q - min_served qs\<rparr>)) qs
      else qs)"

text \<open>\<^verbatim>\<open>None\<close> of the outer option is a panic of one of the two \<^verbatim>\<open>expect\<close> calls.\<close>

definition pop_next ::
  "scheduler_config \<Rightarrow> nat \<Rightarrow> inner \<Rightarrow> (admission_request option \<times> inner) option" where
  "pop_next cfg now state =
     (case max_candidate (candidates cfg now state) of
        None \<Rightarrow> Some (None, state)
      | Some (selected, _, _) \<Rightarrow>
          (case map_of (queues state) selected of
             None \<Rightarrow> None
           | Some q \<Rightarrow>
               (case items q of
                  [] \<Rightarrow> None
                | item # rest \<Rightarrow>
                    let qs = bt_insert selected (charge item (q\<lparr>items := rest\<rparr>)) (queues state);
                        qs = rebase cfg qs
                    in Some (Some (q_request item),
                         state\<lparr>queues := drop_if_empty selected qs,
                           index := (index state)(req_id (q_request item) := None),
                           depth := wrapping_sub (depth state) 1,
                           bytes := wrapping_sub (bytes state) (body_bytes item)\<rparr>))))"

record queue_snapshot =
  snap_depth :: nat
  snap_bytes :: nat
  active_queues :: nat

definition snapshot :: "inner \<Rightarrow> queue_snapshot" where
  "snapshot s = \<lparr>snap_depth = depth s, snap_bytes = bytes s, active_queues = length (queues s)\<rparr>"

section \<open>Invariant\<close>

definition all_queued :: "inner \<Rightarrow> queued multiset" where
  "all_queued s = sum_list (map (\<lambda>(_, q). mset (items q)) (queues s))"

abbreviation item_id :: "queued \<Rightarrow> uuid" where
  "item_id it \<equiv> req_id (q_request it)"

definition queue_ok :: "queue_key \<Rightarrow> queue_state \<Rightarrow> bool" where
  "queue_ok k q \<longleftrightarrow> items q \<noteq> [] \<and> (\<forall>it \<in> set (items q). request_key (q_request it) = k) \<and>
     f_of 0 \<le> served q \<and> f_of 1 \<le> weight q \<and> weight q \<le> Fin False (pow2 96) \<and> is_finite (weight q)"

text \<open>
  Queues are never empty and hold the requests of their key; the index names exactly the queued
  requests, each once, with its queue; \<^verbatim>\<open>depth\<close> and \<^verbatim>\<open>bytes\<close> are the totals and within their limits.
\<close>

definition sched_ok :: "scheduler_config \<Rightarrow> inner \<Rightarrow> bool" where
  "sched_ok cfg s \<longleftrightarrow>
     bt_ok (queues s) \<and> (\<forall>(k, q) \<in> set (queues s). queue_ok k q) \<and>
     finite (dom (index s)) \<and> image_mset item_id (all_queued s) = mset_set (dom (index s)) \<and>
     (\<forall>it \<in># all_queued s. index s (item_id it) = Some (request_key (q_request it))) \<and>
     depth s = size (all_queued s) \<and> bytes s = sum_mset (image_mset body_bytes (all_queued s)) \<and>
     depth s \<le> max_depth cfg \<and> bytes s \<le> max_bytes cfg"

text \<open>Limits that fit their type; at \<^verbatim>\<open>usize::MAX\<close> the saturating byte check cannot fail.\<close>

definition limits_ok :: "scheduler_config \<Rightarrow> bool" where
  "limits_ok cfg \<longleftrightarrow> max_depth cfg \<le> u64_max \<and> max_bytes cfg < u64_max"

lemma all_queued_insert_new:
  "bt_ok (queues s) \<Longrightarrow> map_of (queues s) k = None \<Longrightarrow>
     all_queued (s\<lparr>queues := bt_insert k q (queues s)\<rparr>) = mset (items q) + all_queued s"
  by (simp add: all_queued_def bt.total_put_new)

lemma all_queued_insert_old:
  "bt_ok (queues s) \<Longrightarrow> map_of (queues s) k = Some q \<Longrightarrow> mset (items q) = A + mset (items q') \<Longrightarrow>
     all_queued s = A + all_queued (s\<lparr>queues := bt_insert k q' (queues s)\<rparr>)"
  by (simp add: all_queued_def bt.total_put_old bt.total_del)

lemma all_queued_cong: "queues s = queues t \<Longrightarrow> all_queued s = all_queued t"
  by (simp add: all_queued_def)

lemma in_all_queued:
  "it \<in># all_queued s \<longleftrightarrow> (\<exists>(k, q) \<in> set (queues s). it \<in> set (items q))"
proof -
  have "set_mset (sum_list (map f xs)) = (\<Union>x \<in> set xs. set_mset (f x))"
    for f :: "queue_key \<times> queue_state \<Rightarrow> queued multiset" and xs
    by (induction xs) auto
  then show ?thesis by (force simp: all_queued_def)
qed

subsection \<open>Queue weights\<close>

lemma f_of_nat_u32:
  assumes "n < 2 ^ 32"
  shows "\<exists>a. f_of_nat (max n 1) = Fin False a \<and> 1 \<le> a \<and> a \<le> pow2 32"
proof -
  have "max n 1 \<le> 2 ^ 53" and le: "max n 1 \<le> 2 ^ 32" using assms by auto
  then have "f_of_nat (max n 1) = Fin False (of_nat (max n 1))" by (intro f_of_nat_small)
  moreover have "(of_nat (max n 1) :: rat) \<le> of_nat (2 ^ 32)" using le by (simp only: of_nat_le_iff)
  then have "(of_nat (max n 1) :: rat) \<le> pow2 32" by (simp add: pow2_def)
  moreover have "(1 :: rat) \<le> of_nat (max n 1)" by simp
  ultimately show ?thesis by blast
qed

lemma f_mul_weights:
  assumes "1 \<le> a" "a \<le> pow2 i" "1 \<le> b" "b \<le> pow2 j" "0 \<le> i" "0 \<le> j" "i + j < 1024"
  shows "\<exists>c. Fin False a * Fin False b = Fin False c \<and> 1 \<le> c \<and> c \<le> pow2 (i + j)"
proof -
  have lo: "1 \<le> a * b" using mult_mono [of 1 a 1 b] assms by simp
  have hi: "a * b \<le> pow2 (i + j)" unfolding pow2_add using assms by (intro mult_mono) auto
  obtain r where "f_mk False (a * b) = Fin False r" "1 \<le> r" "r \<le> pow2 (i + j)"
    using assms(5-7) by (rule_tac f_mk_between [OF _ lo hi round64_1 round64_pow2 pow2_lt_bound]) auto
  then show ?thesis by (simp add: f_ops)
qed

lemma queue_weight_bounds:
  assumes "cw < 2 ^ 32" "tw < 2 ^ 32" "aw < 2 ^ 32"
  shows "f_of 1 \<le> queue_weight cw tw aw \<and> queue_weight cw tw aw \<le> Fin False (pow2 96) \<and>
    is_finite (queue_weight cw tw aw)"
proof -
  from f_of_nat_u32 [OF assms(1)] f_of_nat_u32 [OF assms(2)] f_of_nat_u32 [OF assms(3)]
  obtain a b c where abc: "f_of_nat (max cw 1) = Fin False a" "f_of_nat (max tw 1) = Fin False b"
      "f_of_nat (max aw 1) = Fin False c"
    and r: "1 \<le> a" "a \<le> pow2 32" "1 \<le> b" "b \<le> pow2 32" "1 \<le> c" "c \<le> pow2 32" by blast
  from f_mul_weights [OF r(1-4)] obtain d
    where d: "Fin False a * Fin False b = Fin False d" "1 \<le> d" "d \<le> pow2 (32 + 32)" by auto
  from f_mul_weights [OF d(2,3) r(5,6)] obtain e
    where "Fin False d * Fin False c = Fin False e" "1 \<le> e" "e \<le> pow2 96" by auto
  with d abc show ?thesis by (simp add: queue_weight_def f_ops)
qed

subsection \<open>Enqueue\<close>

lemma enqueue_error:
  "enqueue cfg now r b cw tw aw s = (Inl e, t) \<Longrightarrow> t = s"
  by (auto simp: enqueue_def Let_def split: if_splits)

lemma enqueue_ok_cases:
  assumes "enqueue cfg now r b cw tw aw s = (Inr d, t)"
  shows "depth s < max_depth cfg" "saturating_add (bytes s) b \<le> max_bytes cfg"
    and "index s (req_id r) = None"
  using assms by (auto simp: enqueue_def Let_def split: if_splits)

lemma enqueue_all_queued:
  assumes "bt_ok (queues s)" "enqueue cfg now r b cw tw aw s = (Inr d, t)"
  shows "\<exists>it. q_request it = r \<and> body_bytes it = b \<and> enqueued_ns it = now \<and>
     all_queued t = add_mset it (all_queued s)"
proof (cases "map_of (queues s) (request_key r)")
  case None
  then show ?thesis
    using assms by (auto simp: enqueue_def Let_def all_queued_def bt.total_put_new split: if_splits)
next
  case (Some q)
  then show ?thesis
    using assms
    by (auto simp: enqueue_def Let_def all_queued_def bt.total_put_old bt.total_del split: if_splits)
qed

lemma enqueue_queue_ok:
  assumes "sched_ok cfg s" "enqueue cfg now r b cw tw aw s = (Inr d, t)"
    and "cw < 2 ^ 32" "tw < 2 ^ 32" "aw < 2 ^ 32"
  shows "\<forall>(k, q) \<in> set (queues t). queue_ok k q"
proof -
  have ok: "bt_ok (queues s)" and all: "\<forall>(k, q) \<in> set (queues s). queue_ok k q"
    using assms(1) by (auto simp: sched_ok_def)
  define q where "q = (case map_of (queues s) (request_key r) of Some q \<Rightarrow> q
      | None \<Rightarrow> \<lparr>items = [], served = f_of 0, weight = queue_weight cw tw aw\<rparr>)"
  obtain it where it: "q_request it = r"
    and t: "queues t = bt_insert (request_key r) (q\<lparr>items := items q @ [it]\<rparr>) (queues s)"
    using assms(2) by (force simp: enqueue_def Let_def q_def split: if_splits)
  have "queue_ok (request_key r) (q\<lparr>items := items q @ [it]\<rparr>)"
  proof (cases "map_of (queues s) (request_key r)")
    case None
    then show ?thesis
      using it queue_weight_bounds [OF assms(3-5)] by (auto simp: q_def queue_ok_def f_ops)
  next
    case (Some p)
    then have "queue_ok (request_key r) p" using all ok by (auto simp: bt.in_set_iff [symmetric])
    then show ?thesis using Some it by (auto simp: q_def queue_ok_def)
  qed
  then show ?thesis using all ok by (auto simp: t bt.set_put)
qed

lemma enqueue_keeps [keeps_inv]:
  assumes inv: "sched_ok cfg s" and lim: "limits_ok cfg"
    and eq: "enqueue cfg now r b cw tw aw s = (Inr d, t)"
    and w: "cw < 2 ^ 32" "tw < 2 ^ 32" "aw < 2 ^ 32"
  shows "sched_ok cfg t"
proof -
  have ok: "bt_ok (queues s)" using inv by (simp add: sched_ok_def)
  note c = enqueue_ok_cases [OF eq]
  obtain it where it: "q_request it = r" "body_bytes it = b"
    and all: "all_queued t = add_mset it (all_queued s)"
    using enqueue_all_queued [OF ok eq] by blast
  have b: "bytes s + b \<le> max_bytes cfg"
    using c(2) lim by (auto simp: limits_ok_def intro: saturating_add_le)
  have t: "bt_ok (queues t)" "index t = (index s)(req_id r \<mapsto> request_key r)"
    "depth t = wrapping_add (depth s) 1" "bytes t = wrapping_add (bytes s) b"
    using eq ok by (auto simp: enqueue_def Let_def bt_ok_insert split: if_splits)
  have "depth t = depth s + 1" "bytes t = bytes s + b"
    unfolding t using c(1) b lim wrapping_add_exact [of "depth s" 1] wrapping_add_exact [of "bytes s" b]
    by (simp_all add: limits_ok_def)
  moreover have "req_id r \<notin> dom (index s)" using c(3) by auto
  moreover have "\<forall>x \<in># all_queued s. item_id x \<noteq> req_id r"
    using inv c(3) by (auto simp: sched_ok_def)
  ultimately show ?thesis
    using inv c(1) b it t enqueue_queue_ok [OF inv eq w]
    by (auto simp: sched_ok_def all)
qed

subsection \<open>Removing a request\<close>

lemma take_request_None: "take_request i qs = None \<longleftrightarrow> (\<forall>q \<in> set qs. item_id q \<noteq> i)"
  by (induction qs) auto

lemma take_request_Some:
  "take_request i qs = Some (x, rest) \<Longrightarrow>
     item_id x = i \<and> mset qs = add_mset x (mset rest) \<and>
     (\<exists>us vs. qs = us @ x # vs \<and> rest = us @ vs \<and> (\<forall>u \<in> set us. item_id u \<noteq> i))"
proof (induction qs arbitrary: rest)
  case (Cons q qs)
  show ?case
  proof (cases "item_id q = i")
    case True
    with Cons.prems show ?thesis by fastforce
  next
    case False
    with Cons.prems obtain rest' where r: "take_request i qs = Some (x, rest')" "rest = q # rest'"
      by auto
    with Cons.IH obtain us vs where "item_id x = i" "mset qs = add_mset x (mset rest')"
      "qs = us @ x # vs" "rest' = us @ vs" "\<forall>u \<in> set us. item_id u \<noteq> i" by blast
    then have "q # qs = (q # us) @ x # vs" "rest = (q # us) @ vs" "\<forall>u \<in> set (q # us). item_id u \<noteq> i"
      using False r by auto
    then show ?thesis
      using \<open>item_id x = i\<close> \<open>mset qs = add_mset x (mset rest')\<close> r(2)
      by (intro conjI exI [of _ "q # us"] exI [of _ vs]) auto
  qed
qed simp

lemma drop_if_empty_ok: "bt_ok qs \<Longrightarrow> bt_ok (drop_if_empty k qs)"
  by (auto simp: drop_if_empty_def bt_ok_remove split: option.splits)

lemma drop_if_empty_queued:
  assumes "bt_ok qs"
  shows "sum_list (map (\<lambda>(_, q). mset (items q)) (drop_if_empty k qs))
    = sum_list (map (\<lambda>(_, q). mset (items q)) qs)"
  using assms by (auto simp: drop_if_empty_def bt.total_del split: option.splits)

lemma drop_if_empty_set:
  assumes "bt_ok qs" "\<And>a q. (a, q) \<in> set qs \<Longrightarrow> a \<noteq> k \<Longrightarrow> queue_ok a q"
    and "\<And>q. map_of qs k = Some q \<Longrightarrow> items q \<noteq> [] \<Longrightarrow> queue_ok k q"
  shows "\<forall>(a, q) \<in> set (drop_if_empty k qs). queue_ok a q"
proof (clarify, rename_tac a q)
  fix a q
  assume "(a, q) \<in> set (drop_if_empty k qs)"
  then have "(a, q) \<in> set qs" "a = k \<Longrightarrow> items q \<noteq> []"
    using assms(1) by (auto simp: drop_if_empty_def bt.set_del bt.in_set_iff split: option.splits if_splits)
  then show "queue_ok a q" using assms by (cases "a = k") (auto simp: bt.in_set_iff)
qed

text \<open>
  The state after one queued request \<open>x\<close> has left: shared by \<^verbatim>\<open>cancel\<close> and \<^verbatim>\<open>pop_next\<close>.
\<close>

lemma sched_ok_removed:
  assumes inv: "sched_ok cfg s" and all: "all_queued s = add_mset x (all_queued t)"
    and qs: "bt_ok (queues t)" "\<forall>(k, q) \<in> set (queues t). queue_ok k q"
    and t: "index t = (index s)(item_id x := None)"
      "depth t = wrapping_sub (depth s) 1" "bytes t = wrapping_sub (bytes s) (body_bytes x)"
  shows "sched_ok cfg t"
proof -
  have d: "depth s = Suc (size (all_queued t))"
    and b: "bytes s = body_bytes x + sum_mset (image_mset body_bytes (all_queued t))"
    and ids: "add_mset (item_id x) (image_mset item_id (all_queued t)) = mset_set (dom (index s))"
    and fin: "finite (dom (index s))"
    and ix: "\<forall>it \<in># all_queued s. index s (item_id it) = Some (request_key (q_request it))"
    using inv all by (auto simp: sched_ok_def)
  have "depth t = size (all_queued t)" "bytes t = sum_mset (image_mset body_bytes (all_queued t))"
    unfolding t using d b by (simp_all add: wrapping_sub_exact)
  moreover have dom: "dom (index t) = dom (index s) - {item_id x}" by (auto simp: t)
  moreover have mem: "item_id x \<in> dom (index s)" using ix all by auto
  have img: "image_mset item_id (all_queued t) = mset_set (dom (index t))"
    using ids mset_set.remove [OF fin mem] unfolding dom by simp
  moreover have "item_id it \<noteq> item_id x" if "it \<in># all_queued t" for it
  proof -
    have "item_id it \<in># image_mset item_id (all_queued t)" using that by simp
    then have "item_id it \<in> dom (index t)" unfolding img using fin dom by simp
    then show ?thesis unfolding dom by simp
  qed
  ultimately show ?thesis
    using inv qs fin ix by (auto simp: sched_ok_def all t)
qed

subsection \<open>Cancel\<close>

lemma indexed_is_queued:
  assumes inv: "sched_ok cfg s" and ix: "index s i = Some k"
  obtains q x rest where "map_of (queues s) k = Some q" "take_request i (items q) = Some (x, rest)"
proof -
  have "i \<in> dom (index s)" using ix by auto
  then have "i \<in># image_mset item_id (all_queued s)" using inv by (auto simp: sched_ok_def)
  then obtain it where it: "it \<in># all_queued s" "item_id it = i" by auto
  then have k: "request_key (q_request it) = k" using inv ix by (auto simp: sched_ok_def)
  from it(1) obtain k' q where q: "(k', q) \<in> set (queues s)" "it \<in> set (items q)"
    by (auto simp: in_all_queued)
  then have "k' = k" using inv k by (fastforce simp: sched_ok_def queue_ok_def)
  with q inv have m: "map_of (queues s) k = Some q" by (simp add: bt.in_set_iff sched_ok_def)
  obtain y where "take_request i (items q) = Some y"
    using q(2) it(2) take_request_None [of i "items q"] by (cases "take_request i (items q)") auto
  with m that show thesis by (cases y) auto
qed

lemma cancel_absent: "index s i = None \<Longrightarrow> cancel i s = (False, s)"
  by (simp add: cancel_def)

lemma cancel_present:
  assumes inv: "sched_ok cfg s" and ix: "index s i = Some k"
  shows "\<exists>x t. cancel i s = (True, t) \<and> item_id x = i \<and> all_queued s = add_mset x (all_queued t) \<and>
     sched_ok cfg t"
proof -
  obtain q x rest where q: "map_of (queues s) k = Some q"
    and x: "take_request i (items q) = Some (x, rest)"
    using indexed_is_queued [OF assms] by blast
  have ok: "bt_ok (queues s)" and all: "\<And>a p. (a, p) \<in> set (queues s) \<Longrightarrow> queue_ok a p"
    using inv by (auto simp: sched_ok_def)
  note tr = take_request_Some [OF x]
  define qs where "qs = bt_insert k (q\<lparr>items := rest\<rparr>) (queues s)"
  define t where "t = s\<lparr>index := (index s)(i := None), depth := wrapping_sub (depth s) 1,
    bytes := wrapping_sub (bytes s) (body_bytes x), queues := drop_if_empty k qs\<rparr>"
  have c: "cancel i s = (True, t)"
    using ix q x by (simp add: cancel_def t_def qs_def)
  have ok': "bt_ok qs" unfolding qs_def using ok by (rule bt_ok_insert)
  have "mset (items q) = {#x#} + mset (items (q\<lparr>items := rest\<rparr>))" using tr by simp
  from all_queued_insert_old [OF ok q this] have A: "all_queued s = add_mset x (all_queued t)"
    using drop_if_empty_queued [OF ok'] by (simp add: t_def all_queued_def qs_def)
  have "queue_ok k q" using all q ok by (simp add: bt.in_set_iff)
  then have "\<forall>(a, p) \<in> set (queues t). queue_ok a p"
    unfolding t_def using ok ok' all tr
    by simp (intro drop_if_empty_set, auto simp: qs_def bt.set_put map_of_bt_insert queue_ok_def)
  moreover have "bt_ok (queues t)" using ok' by (simp add: t_def drop_if_empty_ok)
  ultimately have "sched_ok cfg t"
    using tr by (intro sched_ok_removed [OF inv A]) (auto simp: t_def)
  with c A tr show ?thesis by blast
qed

subsection \<open>Selection\<close>

lemma f_total_asym: "f_total_lt a b \<Longrightarrow> \<not> f_total_lt b a"
  by (cases a; cases b) (auto split: if_splits)

lemma f_total_negtrans: "\<not> f_total_lt a b \<Longrightarrow> \<not> f_total_lt b c \<Longrightarrow> \<not> f_total_lt a c"
  by (cases a; cases b; cases c) (auto split: if_splits)

lemma outranks_asym: "outranks a b \<Longrightarrow> \<not> outranks b a"
  using f_total_asym by (auto simp: outranks_def)

lemma outranks_negtrans: "\<not> outranks a b \<Longrightarrow> \<not> outranks b c \<Longrightarrow> \<not> outranks a c"
  unfolding outranks_def using f_total_negtrans f_total_asym by (meson leI le_trans not_le)

lemma foldl_max:
  assumes "m = foldl (\<lambda>a b. if outranks a b then a else b) c cs"
  shows "m \<in> set (c # cs) \<and> (\<forall>x \<in> set (c # cs). \<not> outranks x m)"
  using assms
proof (induction cs arbitrary: c)
  case Nil
  then show ?case using outranks_asym [of c c] by auto
next
  case (Cons d cs)
  let ?e = "if outranks c d then c else d"
  have m: "m \<in> set (?e # cs)" "\<forall>x \<in> set (?e # cs). \<not> outranks x m"
    using Cons.IH [of ?e] Cons.prems by auto
  have "\<not> outranks c ?e" "\<not> outranks d ?e" using outranks_asym [of c d] outranks_asym [of d d]
      outranks_asym [of c c] by auto
  then have "\<not> outranks c m" "\<not> outranks d m" using m(2) outranks_negtrans [of _ ?e m] by auto
  with m show ?case by (auto split: if_splits)
qed

lemma max_candidate_None: "max_candidate cs = None \<longleftrightarrow> cs = []"
  by (cases cs) auto

lemma max_candidate_Some:
  "max_candidate cs = Some m \<Longrightarrow> m \<in> set cs \<and> (\<forall>x \<in> set cs. \<not> outranks x m)"
proof (cases cs)
  case (Cons c ds)
  moreover assume "max_candidate cs = Some m"
  ultimately have "m = foldl (\<lambda>a b. if outranks a b then a else b) c ds" by simp
  from foldl_max [OF this] Cons show ?thesis by simp
qed simp

lemma in_candidates:
  "(k, v, n) \<in> set (candidates cfg now s) \<longleftrightarrow>
     (\<exists>q front rest. (k, q) \<in> set (queues s) \<and> items q = front # rest \<and>
        v = score cfg now q front \<and> n = q_sequence front)"
  by (force simp: candidates_def List.map_filter_def split: list.splits option.splits)

subsection \<open>Charging and rebasing\<close>

lemma charge_simps [simp]: "items (charge it q) = items q" "weight (charge it q) = weight q"
  by (simp_all add: charge_def)

lemma charge_served:
  assumes "f_of 0 \<le> served q" "f_of 1 \<le> weight q" "is_finite (weight q)"
  shows "f_of 0 \<le> served (charge it q)"
proof -
  have one: "f_of 0 \<le> f_of 1" "f_of 0 < f_of 1" by (simp_all add: f_ops)
  have "f_of 1 \<le> f_max u (f_of 1)" for u by (rule f_max_ge) simp
  then have "f_of 0 \<le> f_max u (f_of 1)" "f_of 0 < f_max u (f_of 1)" for u
    using one f_le_trans f_less_le_trans by blast+
  moreover have "is_finite (f_max (weight q) (f_of 1))"
    using assms(3) by (simp add: f_max_def f_ops)
  ultimately have "f_of 0 \<le> served q
      + f_max (normalized_units (estimate (q_request it))) (f_of 1) / f_max (weight q) (f_of 1)"
    by (intro f_add_nonneg f_div_nonneg assms(1))
  then show ?thesis by (simp add: charge_def)
qed

lemma foldl_min_le:
  assumes "a \<noteq> NaN" "\<forall>x \<in> set xs. x \<noteq> NaN"
  shows "foldl f_min a xs \<noteq> NaN \<and> foldl f_min a xs \<le> a \<and> (\<forall>x \<in> set xs. foldl f_min a xs \<le> x)"
  using assms
proof (induction xs arbitrary: a)
  case (Cons b xs)
  have m: "f_min a b \<noteq> NaN" "f_min a b \<le> a" "f_min a b \<le> b"
    using Cons.prems f_not_less [of b a] by (auto simp: f_min_def f_le_refl f_less_imp_le)
  with Cons.IH [of "f_min a b"] Cons.prems show ?case by (auto intro: f_le_trans)
qed (simp add: f_le_refl)

lemma min_served_le:
  assumes "\<forall>(k, q) \<in> set qs. f_of 0 \<le> served q" "(k, q) \<in> set qs"
  shows "min_served qs \<le> served q"
proof -
  have "\<forall>x \<in> set (map (\<lambda>(_, q). served q) qs). x \<noteq> NaN"
    using assms(1) f_le_nonan by fastforce
  then have "\<forall>x \<in> set (map (\<lambda>(_, q). served q) qs). min_served qs \<le> x"
    unfolding min_served_def using foldl_min_le [of "Infty False"] by blast
  then show ?thesis using assms(2) by fastforce
qed

text \<open>Rebasing changes nothing but the service credit.\<close>

lemma rebase_cases:
  obtains (same) "rebase cfg qs = qs"
  | (shifted) "is_finite (min_served qs)"
      "rebase cfg qs = map (\<lambda>(k, q). (k, q\<lparr>served := served q - min_served qs\<rparr>)) qs"
  by (cases "is_finite (min_served qs) \<and> quantum cfg * f_of 1000 < min_served qs")
    (simp_all only: rebase_def if_True if_False simp_thms)

lemma rebase_fst [simp]: "map fst (rebase cfg qs) = map fst qs"
  by (cases rule: rebase_cases [of cfg qs]) (auto simp: case_prod_beta comp_def)

lemma bt_ok_rebase: "bt_ok (rebase cfg qs) = bt_ok qs"
  by (simp add: bt_ok_def)

lemma rebase_queued:
  "map (\<lambda>(_, q). mset (items q)) (rebase cfg qs) = map (\<lambda>(_, q). mset (items q)) qs"
  by (cases rule: rebase_cases [of cfg qs]) auto

lemma in_rebase:
  assumes "(k, q) \<in> set (rebase cfg qs)" "\<forall>(k, q) \<in> set qs. f_of 0 \<le> served q"
  shows "\<exists>p. (k, p) \<in> set qs \<and> items q = items p \<and> weight q = weight p \<and> f_of 0 \<le> served q"
  using assms(1)
proof (cases rule: rebase_cases [of cfg qs])
  case same
  with assms show ?thesis by fastforce
next
  case shifted
  with assms(1) obtain p where p: "(k, p) \<in> set qs" "q = p\<lparr>served := served p - min_served qs\<rparr>"
    by auto
  have "f_of 0 \<le> served p - min_served qs"
    using min_served_le [OF assms(2) p(1)] shifted(1) by (rule f_diff_nonneg)
  with p show ?thesis by auto
qed

subsection \<open>Pop\<close>

lemma pop_empty: "queues s = [] \<Longrightarrow> pop_next cfg now s = Some (None, s)"
  by (simp add: pop_next_def candidates_def List.map_filter_def)

lemma pop_nonempty:
  assumes inv: "sched_ok cfg s" and ne: "queues s \<noteq> []"
  shows "\<exists>k q item rest t. pop_next cfg now s = Some (Some (q_request item), t) \<and>
     map_of (queues s) k = Some q \<and> items q = item # rest \<and>
     max_candidate (candidates cfg now s) = Some (k, score cfg now q item, q_sequence item) \<and>
     all_queued s = add_mset item (all_queued t) \<and> sched_ok cfg t"
proof -
  have ok: "bt_ok (queues s)" and all: "\<And>a p. (a, p) \<in> set (queues s) \<Longrightarrow> queue_ok a p"
    using inv by (auto simp: sched_ok_def)
  obtain k0 q0 where "(k0, q0) \<in> set (queues s)" using ne by (cases "queues s") auto
  then have "candidates cfg now s \<noteq> []"
    using all [of k0 q0] in_candidates [of k0 _ _ cfg now s]
    by (cases "items q0") (force simp: queue_ok_def)+
  then obtain k v n where sel: "max_candidate (candidates cfg now s) = Some (k, v, n)"
    by (cases "max_candidate (candidates cfg now s)") (auto simp: max_candidate_None)
  from max_candidate_Some [OF this] obtain q item rest
    where kq: "(k, q) \<in> set (queues s)" and it: "items q = item # rest"
      and vn: "v = score cfg now q item" "n = q_sequence item"
    by (auto simp: in_candidates)
  have q: "map_of (queues s) k = Some q" using kq ok by (simp add: bt.in_set_iff)
  define q' where "q' = charge item (q\<lparr>items := rest\<rparr>)"
  define qs where "qs = bt_insert k q' (queues s)"
  define t where "t = s\<lparr>queues := drop_if_empty k (rebase cfg qs),
    index := (index s)(item_id item := None), depth := wrapping_sub (depth s) 1,
    bytes := wrapping_sub (bytes s) (body_bytes item)\<rparr>"
  have pop: "pop_next cfg now s = Some (Some (q_request item), t)"
    by (simp add: pop_next_def sel q it Let_def t_def qs_def q'_def)
  have okq: "bt_ok qs" unfolding qs_def using ok by (rule bt_ok_insert)
  have "queue_ok k q" using all kq by blast
  then have sv: "f_of 0 \<le> served q'" "f_of 1 \<le> weight q'" "weight q' \<le> Fin False (pow2 96)"
      "is_finite (weight q')" "items q' = rest"
      "\<forall>x \<in> set rest. request_key (q_request x) = k"
    using charge_served [of "q\<lparr>items := rest\<rparr>" item] it by (auto simp: q'_def queue_ok_def)
  have mem: "(a, p) \<in> set qs \<Longrightarrow> f_of 0 \<le> served p \<and> (a \<noteq> k \<longrightarrow> queue_ok a p) \<and> (a = k \<longrightarrow> p = q')" for a p
    using ok all sv(1) by (auto simp: qs_def bt.set_put queue_ok_def)
  have mem': "\<exists>p'. (a, p') \<in> set qs \<and> items p = items p' \<and> weight p = weight p' \<and> f_of 0 \<le> served p"
    if "(a, p) \<in> set (rebase cfg qs)" for a p
    using that mem by (intro in_rebase) auto
  have okr: "bt_ok (rebase cfg qs)" using okq by (simp add: bt_ok_rebase)
  have "\<forall>(a, p) \<in> set (queues t). queue_ok a p"
    unfolding t_def using okr mem mem' sv
    by simp (rule drop_if_empty_set, auto simp: bt.in_set_iff [symmetric] queue_ok_def, metis+)
  moreover have "bt_ok (queues t)" using okr by (simp add: t_def drop_if_empty_ok)
  moreover have A: "all_queued s = add_mset item (all_queued t)"
  proof -
    have "mset (items q) = {#item#} + mset (items q')" using it sv(5) by simp
    from all_queued_insert_old [OF ok q this] show ?thesis
      using drop_if_empty_queued [OF okr] by (simp add: t_def all_queued_def qs_def rebase_queued)
  qed
  ultimately have "sched_ok cfg t"
    by (intro sched_ok_removed [OF inv A]) (auto simp: t_def)
  with pop q it sel vn A show ?thesis by blast
qed

end
