(* ===== verification/Scheduler_Properties.thy ===== *)
theory Scheduler_Properties
  imports Scheduler
begin

text \<open>
  What the scheduler of \<^verbatim>\<open>crates/scheduler/src/lib.rs\<close> promises: over every sequence of calls it never
  panics, keeps its invariant and loses no request; it refines one first-in-first-out list per
  class, tenant and application; and it serves the front with the best score.
\<close>

section \<open>Sequences of calls\<close>

datatype sched_op =
    OpEnqueue nat admission_request nat nat nat nat
  | OpCancel uuid
  | OpPop nat

datatype sched_event =
    Accepted admission_request | Refused | Cancelled uuid | Missed | Popped admission_request | Idle

text \<open>One call under the mutex and what its caller sees; \<^verbatim>\<open>None\<close> is a panic.\<close>

fun exec :: "scheduler_config \<Rightarrow> sched_op \<Rightarrow> inner \<Rightarrow> (sched_event \<times> inner) option" where
  "exec cfg (OpEnqueue now r b cw tw aw) s =
     (case enqueue cfg now r b cw tw aw s of
        (Inl _, t) \<Rightarrow> Some (Refused, t)
      | (Inr _, t) \<Rightarrow> Some (Accepted r, t))"
| "exec cfg (OpCancel i) s =
     (case cancel i s of (found, t) \<Rightarrow> Some (if found then Cancelled i else Missed, t))"
| "exec cfg (OpPop now) s =
     (case pop_next cfg now s of
        None \<Rightarrow> None
      | Some (None, t) \<Rightarrow> Some (Idle, t)
      | Some (Some r, t) \<Rightarrow> Some (Popped r, t))"

fun run :: "scheduler_config \<Rightarrow> sched_op list \<Rightarrow> inner \<Rightarrow> (sched_event list \<times> inner) option" where
  "run cfg [] s = Some ([], s)"
| "run cfg (op # ops) s =
     (case exec cfg op s of
        None \<Rightarrow> None
      | Some (e, t) \<Rightarrow> map_option (\<lambda>(es, u). (e # es, u)) (run cfg ops t))"

text \<open>Weights are \<^verbatim>\<open>u32\<close>.\<close>

fun op_ok :: "sched_op \<Rightarrow> bool" where
  "op_ok (OpEnqueue _ _ _ cw tw aw) = (cw < 2 ^ 32 \<and> tw < 2 ^ 32 \<and> aw < 2 ^ 32)"
| "op_ok _ = True"

fun accepted :: "sched_event list \<Rightarrow> admission_request list" where
  "accepted [] = []"
| "accepted (Accepted r # es) = r # accepted es"
| "accepted (_ # es) = accepted es"

fun dispatched :: "sched_event list \<Rightarrow> admission_request list" where
  "dispatched [] = []"
| "dispatched (Popped r # es) = r # dispatched es"
| "dispatched (_ # es) = dispatched es"

fun cancelled :: "sched_event list \<Rightarrow> uuid list" where
  "cancelled [] = []"
| "cancelled (Cancelled i # es) = i # cancelled es"
| "cancelled (_ # es) = cancelled es"

abbreviation queued_requests :: "inner \<Rightarrow> admission_request multiset" where
  "queued_requests s \<equiv> image_mset q_request (all_queued s)"

section \<open>The abstract scheduler\<close>

text \<open>One list of requests per key: arrivals at the end, departures from the front.\<close>

type_synonym fifos = "queue_key \<Rightarrow> admission_request list"

inductive fifo_step :: "fifos \<Rightarrow> sched_event \<Rightarrow> fifos \<Rightarrow> bool" where
  accept: "(\<forall>k. \<forall>x \<in> set (F k). req_id x \<noteq> req_id r) \<Longrightarrow>
    fifo_step F (Accepted r) (F(request_key r := F (request_key r) @ [r]))"
| refuse: "fifo_step F Refused F"
| cancel: "x \<in> set (F k) \<Longrightarrow> req_id x = i \<Longrightarrow>
    fifo_step F (Cancelled i) (\<lambda>k. filter (\<lambda>x. req_id x \<noteq> i) (F k))"
| miss: "fifo_step F Missed F"
| pop: "F k = r # rs \<Longrightarrow> fifo_step F (Popped r) (F(k := rs))"
| idle: "(\<forall>k. F k = []) \<Longrightarrow> fifo_step F Idle F"

inductive_cases fifo_popE: "fifo_step F (Popped r) G"

definition fifo_in :: "(queue_key \<times> queue_state) list \<Rightarrow> fifos" where
  "fifo_in qs k = (case map_option items (map_of qs k) of None \<Rightarrow> [] | Some l \<Rightarrow> map q_request l)"

abbreviation fifo_of :: "inner \<Rightarrow> fifos" where
  "fifo_of s \<equiv> fifo_in (queues s)"

section \<open>The invariant over every run\<close>

lemma sched_ok_new: "sched_ok cfg scheduler_new"
  by (simp add: sched_ok_def scheduler_new_def bt_ok_def all_queued_def)

lemma exec_enqueue:
  assumes "sched_ok cfg s" "limits_ok cfg" "cw < 2 ^ 32" "tw < 2 ^ 32" "aw < 2 ^ 32"
  obtains "exec cfg (OpEnqueue now r b cw tw aw) s = Some (Refused, s)"
  | d t where "enqueue cfg now r b cw tw aw s = (Inr d, t)"
      "exec cfg (OpEnqueue now r b cw tw aw) s = Some (Accepted r, t)" "sched_ok cfg t"
      "queued_requests t = add_mset r (queued_requests s)"
proof -
  obtain x t where x: "enqueue cfg now r b cw tw aw s = (x, t)" by force
  show thesis
  proof (cases x)
    case (Inl e)
    with x have "t = s" by (simp add: enqueue_error)
    with x Inl that(1) show thesis by simp
  next
    case (Inr d)
    have "bt_ok (queues s)" using assms(1) by (simp add: sched_ok_def)
    with x Inr obtain it where "q_request it = r" "all_queued t = add_mset it (all_queued s)"
      using enqueue_all_queued by blast
    with x Inr that(2) [of d t] enqueue_keeps [OF assms(1,2) _ assms(3-5)] show thesis by simp
  qed
qed

lemma exec_cancel:
  assumes "sched_ok cfg s"
  obtains "index s i = None" "exec cfg (OpCancel i) s = Some (Missed, s)"
  | r t where "index s i \<noteq> None" "exec cfg (OpCancel i) s = Some (Cancelled i, t)" "sched_ok cfg t"
      "req_id r = i" "queued_requests s = add_mset r (queued_requests t)"
proof (cases "index s i")
  case None
  then show thesis using that(1) by (simp add: cancel_absent)
next
  case (Some k)
  from cancel_present [OF assms this] obtain x t where
    "cancel i s = (True, t)" "item_id x = i" "all_queued s = add_mset x (all_queued t)" "sched_ok cfg t"
    by blast
  then show thesis using that(2) [of t "q_request x"] Some by simp
qed

lemma exec_pop:
  assumes "sched_ok cfg s"
  obtains "queues s = []" "exec cfg (OpPop now) s = Some (Idle, s)"
  | r t where "pop_next cfg now s = Some (Some r, t)" "exec cfg (OpPop now) s = Some (Popped r, t)"
      "sched_ok cfg t" "queued_requests s = add_mset r (queued_requests t)"
proof (cases "queues s = []")
  case True
  then show thesis using that(1) by (simp add: pop_empty)
next
  case False
  from pop_nonempty [OF assms this, of now] obtain item t where
    "pop_next cfg now s = Some (Some (q_request item), t)"
    "all_queued s = add_mset item (all_queued t)" "sched_ok cfg t" by blast
  then show thesis using that(2) [of "q_request item" t] by simp
qed

text \<open>What a call adds to the requests inside equals what it lets in minus what it lets out.\<close>

lemma exec_ok:
  assumes inv: "sched_ok cfg s" and lim: "limits_ok cfg" and op: "op_ok op"
  shows "\<exists>e t C. exec cfg op s = Some (e, t) \<and> sched_ok cfg t \<and>
     queued_requests s + mset (accepted [e]) = mset (dispatched [e]) + C + queued_requests t \<and>
     image_mset req_id C = mset (cancelled [e])"
proof (cases op)
  case (OpEnqueue now r b cw tw aw)
  with op have "cw < 2 ^ 32" "tw < 2 ^ 32" "aw < 2 ^ 32" by auto
  from exec_enqueue [OF inv lim this, of now r b] show ?thesis
    unfolding OpEnqueue using inv by cases auto
next
  case (OpCancel i)
  from exec_cancel [OF inv, of i] show ?thesis
  proof cases
    case (2 r t)
    then show ?thesis
      using OpCancel by (intro exI [of _ "Cancelled i"] exI [of _ t] exI [of _ "{#r#}"]) simp
  qed (use inv OpCancel in simp)
next
  case (OpPop now)
  from exec_pop [OF inv, of now] show ?thesis
    unfolding OpPop using inv by cases auto
qed

lemma run_ok:
  assumes "sched_ok cfg s" "limits_ok cfg" "\<forall>op \<in> set ops. op_ok op"
  shows "\<exists>es t C. run cfg ops s = Some (es, t) \<and> sched_ok cfg t \<and>
     queued_requests s + mset (accepted es) = mset (dispatched es) + C + queued_requests t \<and>
     image_mset req_id C = mset (cancelled es)"
  using assms
proof (induction ops arbitrary: s)
  case (Cons op ops)
  obtain e u B where e: "exec cfg op s = Some (e, u)" "sched_ok cfg u"
    and B: "queued_requests s + mset (accepted [e]) =
      mset (dispatched [e]) + B + queued_requests u" "image_mset req_id B = mset (cancelled [e])"
    using exec_ok [of cfg s op] Cons.prems by auto
  obtain es t C where r: "run cfg ops u = Some (es, t)" "sched_ok cfg t"
    "queued_requests u + mset (accepted es) = mset (dispatched es) + C + queued_requests t"
    "image_mset req_id C = mset (cancelled es)"
    using Cons.IH [OF e(2)] Cons.prems by auto
  have split: "mset (accepted (e # es)) = mset (accepted [e]) + mset (accepted es)"
    "mset (dispatched (e # es)) = mset (dispatched [e]) + mset (dispatched es)"
    "mset (cancelled (e # es)) = mset (cancelled [e]) + mset (cancelled es)"
    by (cases e; simp)+
  have "queued_requests s + mset (accepted (e # es)) =
      mset (dispatched [e]) + B + (queued_requests u + mset (accepted es))"
    unfolding split by (simp only: B(1) add.assoc [symmetric])
  also have "\<dots> = mset (dispatched (e # es)) + (B + C) + queued_requests t"
    unfolding split r(3) by (simp only: ac_simps)
  finally have "queued_requests s + mset (accepted (e # es)) =
      mset (dispatched (e # es)) + (B + C) + queued_requests t" .
  moreover have "image_mset req_id (B + C) = mset (cancelled (e # es))"
    unfolding split using B(2) r(4) by simp
  ultimately show ?case
    using e(1) r(1,2) by (intro exI [of _ "e # es"] exI [of _ t] exI [of _ "B + C"]) simp
qed simp

section \<open>Refinement\<close>

lemma fifo_drop_if_empty: "bt_ok qs \<Longrightarrow> fifo_in (drop_if_empty k qs) = fifo_in qs"
  by (auto simp: fun_eq_iff fifo_in_def drop_if_empty_def map_of_bt_remove split: option.splits)

lemma fifo_rebase: "fifo_in (rebase cfg qs) = fifo_in qs"
proof (cases rule: rebase_cases [of cfg qs])
  case shifted
  then show ?thesis by (simp add: fun_eq_iff fifo_in_def map_of_map option.map_comp comp_def)
qed simp

lemma fifo_insert:
  "bt_ok qs \<Longrightarrow> fifo_in (bt_insert k q qs) = (fifo_in qs)(k := map q_request (items q))"
  by (auto simp: fun_eq_iff fifo_in_def map_of_bt_insert)

lemma in_fifo:
  assumes "sched_ok cfg s"
  shows "r \<in> set (fifo_of s k) \<longleftrightarrow> r \<in># queued_requests s \<and> request_key r = k"
proof -
  have ok: "bt_ok (queues s)" and all: "\<And>k q. (k, q) \<in> set (queues s) \<Longrightarrow> queue_ok k q"
    using assms by (auto simp: sched_ok_def)
  have "r \<in> set (fifo_of s k) \<longleftrightarrow> (\<exists>q it. (k, q) \<in> set (queues s) \<and> it \<in> set (items q) \<and> r = q_request it)"
    using ok by (cases "map_of (queues s) k") (auto simp: fifo_in_def bt.in_set_iff)
  also have "\<dots> \<longleftrightarrow> r \<in># queued_requests s \<and> request_key r = k"
    using all by (fastforce simp: in_all_queued queue_ok_def)
  finally show ?thesis .
qed

lemma queued_indexed:
  assumes "sched_ok cfg s" "r \<in># queued_requests s"
  shows "index s (req_id r) = Some (request_key r)"
  using assms by (auto simp: sched_ok_def)

lemma enqueue_fifo:
  assumes "bt_ok (queues s)" "enqueue cfg now r b cw tw aw s = (Inr d, t)"
  shows "fifo_of t = (fifo_of s)(request_key r := fifo_of s (request_key r) @ [r])"
  using assms
  by (auto simp: enqueue_def Let_def fifo_insert fifo_in_def split: if_splits option.splits)

lemma pop_cases:
  assumes "pop_next cfg now s = Some (Some r, t)"
  obtains k q item rest where "map_of (queues s) k = Some q" "items q = item # rest"
    "r = q_request item"
    "queues t = drop_if_empty k (rebase cfg (bt_insert k (charge item (q\<lparr>items := rest\<rparr>)) (queues s)))"
  using assms by (auto simp: pop_next_def Let_def split: option.splits list.splits)

lemma pop_fifo:
  assumes inv: "sched_ok cfg s" and pop: "pop_next cfg now s = Some (Some r, t)"
  shows "\<exists>rs. fifo_of s (request_key r) = r # rs \<and> fifo_of t = (fifo_of s)(request_key r := rs)"
proof -
  obtain k q item rest where q: "map_of (queues s) k = Some q" "items q = item # rest"
    "r = q_request item"
    and t: "queues t = drop_if_empty k (rebase cfg (bt_insert k (charge item (q\<lparr>items := rest\<rparr>)) (queues s)))"
    using pop by (rule pop_cases)
  have ok: "bt_ok (queues s)" using inv by (simp add: sched_ok_def)
  have s: "fifo_of s k = r # map q_request rest" using q by (simp add: fifo_in_def)
  then have "request_key r = k" using in_fifo [OF inv, of r k] by simp
  moreover have "fifo_of t = (fifo_of s)(k := map q_request rest)"
    using ok by (simp add: t fifo_drop_if_empty fifo_rebase fifo_insert bt_ok_rebase bt_ok_insert)
  ultimately show ?thesis using s by blast
qed

lemma cancel_fifo:
  assumes inv: "sched_ok cfg s" and ix: "index s i = Some k"
  shows "\<exists>x t. cancel i s = (True, t) \<and> x \<in> set (fifo_of s k) \<and> req_id x = i \<and>
     fifo_of t = (\<lambda>k. filter (\<lambda>x. req_id x \<noteq> i) (fifo_of s k))"
proof -
  obtain q x rest where q: "map_of (queues s) k = Some q"
    and x: "take_request i (items q) = Some (x, rest)"
    using indexed_is_queued [OF assms] by blast
  from take_request_Some [OF x] obtain us vs
    where x': "item_id x = i" "items q = us @ x # vs" "rest = us @ vs" by blast
  obtain t where c: "cancel i s = (True, t)" and inv': "sched_ok cfg t"
    using cancel_present [OF inv ix] by blast
  have t: "queues t = drop_if_empty k (bt_insert k (q\<lparr>items := rest\<rparr>) (queues s))" "index t i = None"
    using c ix q x by (auto simp: cancel_def Let_def)
  have ok: "bt_ok (queues s)" using inv by (simp add: sched_ok_def)
  have F: "fifo_of t = (fifo_of s)(k := map q_request rest)"
    using ok by (simp add: t fifo_drop_if_empty fifo_insert bt_ok_insert)
  have sk: "fifo_of s k = map q_request (items q)" using q by (simp add: fifo_in_def)
  have "req_id r \<noteq> i" if "r \<in> set (fifo_of t k')" for r k'
    using that in_fifo [OF inv'] queued_indexed [OF inv'] t(2) by force
  then have t_id: "filter (\<lambda>x. req_id x \<noteq> i) (fifo_of t k') = fifo_of t k'" for k'
    by (simp add: filter_id_conv)
  have "fifo_of t k' = filter (\<lambda>x. req_id x \<noteq> i) (fifo_of s k')" for k'
    using t_id [of k'] x' by (cases "k' = k") (simp_all add: F sk)
  with c sk x' show ?thesis by auto
qed

lemma exec_refines:
  assumes inv: "sched_ok cfg s" and lim: "limits_ok cfg" and op: "op_ok op"
  shows "\<exists>e t. exec cfg op s = Some (e, t) \<and> sched_ok cfg t \<and> fifo_step (fifo_of s) e (fifo_of t)"
proof (cases op)
  case (OpEnqueue now r b cw tw aw)
  with op have "cw < 2 ^ 32" "tw < 2 ^ 32" "aw < 2 ^ 32" by auto
  from exec_enqueue [OF inv lim this, of now r b] show ?thesis
  proof cases
    case (2 d t)
    have F: "fifo_of t = (fifo_of s)(request_key r := fifo_of s (request_key r) @ [r])"
      using inv 2(1) by (intro enqueue_fifo) (simp_all add: sched_ok_def)
    have "\<forall>k. \<forall>x \<in> set (fifo_of s k). req_id x \<noteq> req_id r"
      using in_fifo [OF inv] queued_indexed [OF inv] enqueue_ok_cases(3) [OF 2(1)] by force
    from fifo_step.accept [OF this] 2 OpEnqueue F show ?thesis by auto
  qed (use inv OpEnqueue in \<open>auto intro: fifo_step.intros\<close>)
next
  case (OpCancel i)
  show ?thesis
  proof (cases "index s i")
    case None
    then show ?thesis using OpCancel inv by (auto simp: cancel_absent intro: fifo_step.intros)
  next
    case (Some k)
    from cancel_fifo [OF inv Some] obtain x t where c: "cancel i s = (True, t)"
      and x: "x \<in> set (fifo_of s k)" "req_id x = i"
      and F: "fifo_of t = (\<lambda>k. filter (\<lambda>x. req_id x \<noteq> i) (fifo_of s k))" by blast
    have "sched_ok cfg t" using cancel_present [OF inv Some] c by auto
    with c OpCancel fifo_step.cancel [of x "fifo_of s", OF x] show ?thesis
      unfolding F [symmetric] by auto
  qed
next
  case (OpPop now)
  from exec_pop [OF inv, of now] show ?thesis
  proof cases
    case 1
    then have "\<forall>k. fifo_of s k = []" by (simp add: fifo_in_def)
    with 1 OpPop inv show ?thesis by (auto intro: fifo_step.intros)
  next
    case (2 r t)
    then obtain rs where "fifo_of s (request_key r) = r # rs" "fifo_of t = (fifo_of s)(request_key r := rs)"
      using pop_fifo [OF inv] by blast
    with 2 OpPop show ?thesis by (auto intro: fifo_step.pop)
  qed
qed

section \<open>Scores\<close>

text \<open>Tuning for which no intermediate result of a score overflows; the proxy runs with the defaults.\<close>

definition tuning_ok :: "scheduler_config \<Rightarrow> bool" where
  "tuning_ok cfg \<longleftrightarrow> f_of 1 \<le> quantum cfg \<and> quantum cfg \<le> Fin False (pow2 64) \<and>
     aging_half_life cfg \<le> 2 ^ 96 \<and> deadline_window cfg \<le> 2 ^ 96"

lemma f_of_nat_pow:
  assumes "n \<le> 2 ^ k" "k < 1024"
  shows "\<exists>a. f_of_nat (max n 1) = Fin False a \<and> 1 \<le> a \<and> a \<le> pow2 (int k)"
proof -
  let ?m = "of_nat (max n 1) :: rat"
  have "max n 1 \<le> 2 ^ k" using assms(1) by simp
  then have "?m \<le> of_nat (2 ^ k)" by (simp only: of_nat_le_iff)
  then have hi: "?m \<le> pow2 (int k)" by (simp add: pow2_def)
  have lo: "1 \<le> ?m" by simp
  obtain r where "f_mk False ?m = Fin False r" "1 \<le> r" "r \<le> pow2 (int k)"
    using assms(2) by (rule_tac f_mk_between [OF _ lo hi round64_1 round64_pow2 pow2_lt_bound]) auto
  then show ?thesis by (auto simp: f_of_nat_def f_of_def)
qed

lemma f_one_pos: "f_of 1 \<le> x \<Longrightarrow> f_of 0 < x" "f_of 1 \<le> x \<Longrightarrow> f_of 0 \<le> x"
  by (cases x; auto simp: f_ops split: if_splits)+

lemma share_numerator:
  assumes "queue_ok k q" "tuning_ok cfg"
  shows "f_of 1 \<le> weight q * quantum cfg" "is_finite (weight q * quantum cfg)"
  using assms f_mul_bounds [of "weight q" 96 "quantum cfg" 64]
  by (auto simp: queue_ok_def tuning_ok_def)

lemma share_denominator:
  assumes "f_of 0 \<le> served q" "tuning_ok cfg"
  shows "f_of 0 < served q + quantum cfg"
proof -
  have "f_of 0 + f_of 1 \<le> served q + quantum cfg"
    using assms by (intro f_add_mono) (auto simp: tuning_ok_def f_ops)
  moreover have "f_of 0 + f_of 1 = f_of 1" by (simp add: f_ops)
  ultimately have "f_of 1 \<le> served q + quantum cfg" by (simp only:)
  then show ?thesis by (rule f_one_pos)
qed

lemma quantum_finite: "tuning_ok cfg \<Longrightarrow> is_finite (quantum cfg)"
  by (cases "quantum cfg") (auto simp: tuning_ok_def f_ops)

text \<open>A heavier queue and a less served queue have the larger fair share.\<close>

lemma fair_share_mono:
  assumes "queue_ok k q" "queue_ok k' q'" "tuning_ok cfg"
    and "weight q \<le> weight q'" "served q' \<le> served q"
  shows "fair_share cfg q \<le> fair_share cfg q'"
  unfolding fair_share_def
proof (rule f_div_mono2)
  have q: "f_of 1 \<le> quantum cfg" using assms(3) by (simp add: tuning_ok_def)
  show "weight q * quantum cfg \<le> weight q' * quantum cfg"
    using assms f_one_pos [of "weight q"] f_one_pos [OF q]
    by (intro f_mul_mono) (auto simp: queue_ok_def quantum_finite simp del: f_of_0 f_of_1)
  show "f_of 0 \<le> weight q * quantum cfg" using share_numerator(1) [OF assms(1,3)] by (rule f_one_pos)
  show "is_finite (weight q' * quantum cfg)" using assms(2,3) by (rule share_numerator)
  show "f_of 0 < served q' + quantum cfg"
    using assms(2,3) by (intro share_denominator) (auto simp: queue_ok_def)
  show "served q' + quantum cfg \<le> served q + quantum cfg"
    using assms f_one_pos [OF q] f_le_refl [of "quantum cfg"] f_le_nonan [OF q]
    by (intro f_add_mono) (auto simp: queue_ok_def simp del: f_of_0 f_of_1)
qed

lemma fair_share_plus:
  assumes "queue_ok k q" "tuning_ok cfg"
  shows "plus_sign (fair_share cfg q)"
proof -
  have "f_of 0 < served q + quantum cfg"
    using assms by (intro share_denominator) (auto simp: queue_ok_def)
  then show ?thesis
    unfolding fair_share_def using share_numerator [OF assms] plus_sign_pos f_one_pos(1)
    by (intro plus_sign_div) blast+
qed

lemma half_life_pos:
  assumes "tuning_ok cfg"
  shows "f_of 0 < f_of_nat (max (aging_half_life cfg) 1)" "is_finite (f_of_nat (max (aging_half_life cfg) 1))"
  using assms f_of_nat_pow [of "aging_half_life cfg" 96] by (auto simp: tuning_ok_def f_ops)

lemma window_bounds:
  assumes "tuning_ok cfg"
  shows "plus_sign (f_of_nat (max (deadline_window cfg) 1))" "is_finite (f_of_nat (max (deadline_window cfg) 1))"
  using assms f_of_nat_pow [of "deadline_window cfg" 96] by (auto simp: tuning_ok_def)

text \<open>The clock and every deadline are \<^verbatim>\<open>u64\<close> nanoseconds.\<close>

lemma u64_finite: "n \<le> u64_max \<Longrightarrow> is_finite (f_of_nat n)"
  using f_of_nat_pow [of n 64] max_absorb1 [of 1 n]
  by (cases "n = 0") (auto simp: u64_max_def f_of_nat_def)

lemma age_boost_mono:
  assumes "tuning_ok cfg" "now \<le> now'" "enqueued_ns b \<le> enqueued_ns a"
    "now' \<le> u64_max"
  shows "age_boost cfg now a \<le> age_boost cfg now' b"
  unfolding age_boost_def using assms half_life_pos [OF assms(1)]
  by (intro f_div_mono2 f_of_nat_mono f_of_nat_nonneg u64_finite f_le_refl)
    (auto simp: saturating_sub_def f_of_nat_def)

lemma age_boost_plus: "tuning_ok cfg \<Longrightarrow> now \<le> u64_max \<Longrightarrow> plus_sign (age_boost cfg now a)"
  unfolding age_boost_def
  by (intro plus_sign_div plus_sign_of_nat u64_finite half_life_pos) (auto simp: saturating_sub_def)

lemma deadline_boost_mono:
  assumes "tuning_ok cfg" "now \<le> now'" "deadline_ns b \<le> deadline_ns a"
  shows "deadline_boost cfg now a \<le> deadline_boost cfg now' b"
proof -
  let ?w = "f_of_nat (max (deadline_window cfg) 1)"
  let ?r = "\<lambda>now x. f_max (f_of_nat (saturating_sub (deadline_ns x) now)) (f_of 1)"
  have w: "f_of 0 \<le> ?w" "?w \<le> ?w" by (rule f_of_nat_nonneg, rule f_le_refl) (simp add: f_of_nat_def)
  have r: "?r now' b \<le> ?r now a" "f_of 1 \<le> ?r now' b"
    using assms by (auto simp: saturating_sub_def intro!: f_max_mono f_of_nat_mono f_max_ge simp del: f_of_1)
  have "f_min (?w / ?r now a) (f_of 100000) \<le> f_min (?w / ?r now' b) (f_of 100000)"
    using w r window_bounds [OF assms(1)] f_one_pos(1) by (intro f_min_mono f_div_mono2) auto
  moreover have "f_min x (f_of 100000) \<le> f_of 1000000" for x
    by (cases x) (auto simp: f_min_def f_ops)
  ultimately show ?thesis
    using assms f_le_refl [of "f_of 1000000"] by (auto simp: deadline_boost_def Let_def simp del: f_of_numeral f_of_1)
qed

lemma deadline_boost_plus:
  assumes "tuning_ok cfg"
  shows "plus_sign (deadline_boost cfg now a)"
proof -
  have "f_of 1 \<le> f_max x (f_of 1)" for x by (rule f_max_ge) simp
  then show ?thesis
    unfolding deadline_boost_def Let_def using window_bounds [OF assms] f_one_pos(1)
    by (auto intro!: plus_sign_min plus_sign_div simp del: f_of_1)
qed

lemma score_plus:
  "queue_ok k q \<Longrightarrow> tuning_ok cfg \<Longrightarrow> now \<le> u64_max \<Longrightarrow> plus_sign (score cfg now q a)"
  unfolding score_def
  by (intro plus_sign_add) (auto intro: fair_share_plus age_boost_plus deadline_boost_plus)

lemma score_mono:
  assumes "queue_ok k q" "queue_ok k' q'" "tuning_ok cfg" "now' \<le> u64_max"
    and "weight q \<le> weight q'" "served q' \<le> served q"
    and "now \<le> now'" "enqueued_ns b \<le> enqueued_ns a" "deadline_ns b \<le> deadline_ns a"
  shows "score cfg now q a \<le> score cfg now' q' b"
proof -
  have "now \<le> u64_max" using assms by simp
  then have "f_of 0 \<le> fair_share cfg q" "f_of 0 \<le> age_boost cfg now a" "f_of 0 \<le> deadline_boost cfg now a"
    using assms(1,3) by (auto intro: plus_sign_nonneg fair_share_plus age_boost_plus deadline_boost_plus
        simp del: f_of_0)
  then show ?thesis
    unfolding score_def using assms
    by (intro f_add_mono f_add_nonneg fair_share_mono age_boost_mono deadline_boost_mono) auto
qed

lemma pop_best:
  assumes inv: "sched_ok cfg s" and tun: "tuning_ok cfg" and now: "now \<le> u64_max"
    and pop: "pop_next cfg now s = Some (Some r, t)"
  obtains k q f rest where "(k, q) \<in> set (queues s)" "items q = f # rest" "q_request f = r"
    "\<And>k' q' f' rest'. (k', q') \<in> set (queues s) \<Longrightarrow> items q' = f' # rest' \<Longrightarrow>
       score cfg now q' f' \<le> score cfg now q f \<and>
       (score cfg now q f \<le> score cfg now q' f' \<longrightarrow> q_sequence f \<le> q_sequence f')"
proof -
  have ok: "bt_ok (queues s)" and all: "\<And>k q. (k, q) \<in> set (queues s) \<Longrightarrow> queue_ok k q"
    using inv by (auto simp: sched_ok_def)
  have "queues s \<noteq> []" using pop pop_empty [of s cfg now] by auto
  from pop_nonempty [OF inv this, of now] pop obtain k q f rest
    where q: "map_of (queues s) k = Some q" "items q = f # rest" "q_request f = r"
      and m: "max_candidate (candidates cfg now s) = Some (k, score cfg now q f, q_sequence f)"
    by auto
  have kq: "(k, q) \<in> set (queues s)" using ok q(1) by (simp add: bt.in_set_iff)
  have best: "score cfg now q' f' \<le> score cfg now q f \<and>
      (score cfg now q f \<le> score cfg now q' f' \<longrightarrow> q_sequence f \<le> q_sequence f')"
    if "(k', q') \<in> set (queues s)" "items q' = f' # rest'" for k' q' f' rest'
  proof -
    let ?a = "score cfg now q f" and ?b = "score cfg now q' f'"
    have p: "plus_sign ?a" "plus_sign ?b"
      using score_plus tun now all [OF kq] all [OF that(1)] by blast+
    then have nn: "?a \<noteq> NaN" "?b \<noteq> NaN" by auto
    have "(k', ?b, q_sequence f') \<in> set (candidates cfg now s)" using that by (auto simp: in_candidates)
    with max_candidate_Some [OF m] have "\<not> outranks (k', ?b, q_sequence f') (k, ?a, q_sequence f)" by blast
    then have "\<not> ?a < ?b \<and> (\<not> ?b < ?a \<longrightarrow> q_sequence f \<le> q_sequence f')"
      using p by (auto simp: outranks_def f_total_plus)
    then show ?thesis using f_not_less [OF nn] f_not_less [OF nn(2) nn(1)] by blast
  qed
  show thesis by (rule that [OF kq q(2,3)]) (rule best)
qed

section \<open>Examples\<close>

definition example_request :: "uuid \<Rightarrow> service_class \<Rightarrow> admission_request" where
  "example_request i c = \<lparr>req_id = i,
     req_identity = \<lparr>principal = ''p'', tenant = ''t'', application = ''a'', trusted = True\<rparr>,
     requested_class = c, effective_class = c, req_pool = ''pool'',
     estimate = \<lparr>input_tokens = 10, output_tokens = 20, cached_input_tokens = 0,
       provider_cost_coefficient = f_of 1, normalized_units = f_of 30, confidence = f_of 1,
       source = TrustedClient\<rparr>,
     req_deadline = 1000000, queueable = True\<rparr>"

definition example_ops :: "sched_op list" where
  "example_ops = [OpEnqueue 0 (example_request 1 Batch) 10 1 1 1,
     OpEnqueue 5 (example_request 2 Realtime) 20 16 1 1, OpEnqueue 6 (example_request 3 Batch) 7 1 1 1,
     OpCancel 3]"

definition example_item :: "uuid \<Rightarrow> service_class \<Rightarrow> nat \<Rightarrow> nat \<Rightarrow> queued" where
  "example_item i c t d = \<lparr>q_request = example_request i c, enqueued_ns = t, deadline_ns = d,
     body_bytes = 10, q_sequence = i\<rparr>"

text \<open>A realtime request queued at 0 and a batch request queued at 5, with the given deadlines.\<close>

definition example_realtime :: "nat \<Rightarrow> queue_key \<times> queue_state" where
  "example_realtime d = (QueueKey Realtime ''t'' ''a'',
     \<lparr>items = [example_item 1 Realtime 0 d], served = f_of 0, weight = f_of 16\<rparr>)"

definition example_batch :: "nat \<Rightarrow> queue_key \<times> queue_state" where
  "example_batch d = (QueueKey Batch ''t'' ''a'',
     \<lparr>items = [example_item 2 Batch 5 d], served = f_of 3, weight = f_of 1\<rparr>)"

definition example_state :: "nat \<Rightarrow> nat \<Rightarrow> inner" where
  "example_state d e = \<lparr>queues = [example_realtime d, example_batch e],
     index = [1 \<mapsto> QueueKey Realtime ''t'' ''a'', 2 \<mapsto> QueueKey Batch ''t'' ''a''],
     depth = 2, bytes = 20, sequence = 2\<rparr>"

lemmas example_defs = example_state_def example_realtime_def example_batch_def example_item_def
  example_request_def

lemma default_limits_ok: "limits_ok default_config"
  by (simp add: limits_ok_def default_config_def u64_max_def)

lemma default_tuning_ok: "tuning_ok default_config"
  by (simp add: tuning_ok_def default_config_def f_ops pow2_def)

lemma example_ops_ok: "\<forall>op \<in> set example_ops. op_ok op"
  by (simp add: example_ops_def)

lemma example_state_ok: "sched_ok default_config (example_state d e)"
proof -
  have "dom [1 \<mapsto> QueueKey Realtime ''t'' ''a'', 2 \<mapsto> QueueKey Batch ''t'' ''a''] = {1, 2 :: nat}" by auto
  moreover have "QueueKey Realtime ''t'' ''a'' < QueueKey Batch ''t'' ''a''" by code_simp
  ultimately show ?thesis
    by (simp add: sched_ok_def example_defs all_queued_def bt_ok_def queue_ok_def request_key_def
        default_config_def f_ops pow2_def add_mset_commute)
qed

lemma example_pop: "\<exists>r t. pop_next default_config now (example_state d e) = Some (Some r, t)"
  using pop_nonempty [OF example_state_ok, of d e now] by (auto simp: example_state_def)

lemma example_now: "(10 :: nat) \<le> u64_max" "(2000000 :: nat) \<le> u64_max"
  by (simp_all add: u64_max_def)

lemma example_fronts:
  assumes "(k, q) \<in> set (queues (example_state d e))" "items q = f # rest"
  shows "(k, q) = example_realtime d \<and> f = example_item 1 Realtime 0 d \<or>
    (k, q) = example_batch e \<and> f = example_item 2 Batch 5 e"
  using assms by (auto simp: example_state_def example_realtime_def example_batch_def)

section \<open>Properties\<close>

text \<open>
  C1.  Over every sequence of calls on a new scheduler, at any clock readings and with any requests,
  no call panics, the invariant holds at the end (the index names exactly the queued requests, the
  depth and the byte count are the totals and within their limits), and every accepted request has
  been dispatched once, or cancelled once, or is still queued.
\<close>

theorem scheduler_conserves_requests:
  assumes "limits_ok cfg" "\<forall>op \<in> set ops. op_ok op"
  shows "\<exists>es s C. run cfg ops scheduler_new = Some (es, s) \<and> sched_ok cfg s \<and>
     mset (accepted es) = mset (dispatched es) + C + queued_requests s \<and>
     image_mset req_id C = mset (cancelled es)"
  using run_ok [OF sched_ok_new assms] by (simp add: all_queued_def scheduler_new_def)

theorem scheduler_conserves_requests_witness:
  "\<exists>es s C. run default_config example_ops scheduler_new = Some (es, s) \<and> sched_ok default_config s \<and>
     mset (accepted es) = mset (dispatched es) + C + queued_requests s \<and>
     image_mset req_id C = mset (cancelled es)"
  using default_limits_ok example_ops_ok by (rule scheduler_conserves_requests)

text \<open>
  C2.  The scheduler refines one first-in-first-out list per class, tenant and application: an accepted
  request goes to the end of its own list, a cancelled id disappears from wherever it was, a popped
  request was the front of its list, and an idle pop means that every list was empty.
\<close>

theorem scheduler_refines_fifo:
  assumes "sched_ok cfg s" "limits_ok cfg" "op_ok op"
  shows "\<exists>e t. exec cfg op s = Some (e, t) \<and> sched_ok cfg t \<and> fifo_step (fifo_of s) e (fifo_of t)"
  using assms by (rule exec_refines)

theorem scheduler_refines_fifo_witness:
  "\<exists>e t. exec default_config (OpPop 10) (example_state 900 1000) = Some (e, t) \<and> sched_ok default_config t \<and>
     fifo_step (fifo_of (example_state 900 1000)) e (fifo_of t)"
  using example_state_ok default_limits_ok by (rule scheduler_refines_fifo) simp

text \<open>
  C3.  A pop takes the front with the best score, and among fronts with equal scores the one that
  arrived first.
\<close>

theorem pop_takes_best_score:
  assumes "sched_ok cfg s" "tuning_ok cfg" "now \<le> u64_max"
    and "pop_next cfg now s = Some (Some r, t)"
  shows "\<exists>k q f rest. (k, q) \<in> set (queues s) \<and> items q = f # rest \<and> q_request f = r \<and>
     (\<forall>k' q' f' rest'. (k', q') \<in> set (queues s) \<longrightarrow> items q' = f' # rest' \<longrightarrow>
        score cfg now q' f' \<le> score cfg now q f \<and>
        (score cfg now q f \<le> score cfg now q' f' \<longrightarrow> q_sequence f \<le> q_sequence f'))"
  using pop_best [OF assms] by metis

theorem pop_takes_best_score_witness:
  "\<exists>r t k q f rest. pop_next default_config 10 (example_state 900 1000) = Some (Some r, t) \<and>
     (k, q) \<in> set (queues (example_state 900 1000)) \<and> items q = f # rest \<and> q_request f = r \<and>
     (\<forall>k' q' f' rest'. (k', q') \<in> set (queues (example_state 900 1000)) \<longrightarrow> items q' = f' # rest' \<longrightarrow>
        score default_config 10 q' f' \<le> score default_config 10 q f \<and>
        (score default_config 10 q f \<le> score default_config 10 q' f' \<longrightarrow> q_sequence f \<le> q_sequence f'))"
proof -
  obtain r t where pop: "pop_next default_config 10 (example_state 900 1000) = Some (Some r, t)"
    using example_pop by blast
  from pop_takes_best_score [OF example_state_ok default_tuning_ok example_now(1) pop] pop show ?thesis
    by blast
qed

text \<open>
  C4.  Work conservation and termination of the backlog: from any reachable state, as many pops as
  there are queued requests, at any clock readings, dispatch each queued request exactly once and
  leave the scheduler empty.
\<close>

theorem pops_drain_backlog:
  assumes "sched_ok cfg s" "length ts = depth s"
  shows "\<exists>es t. run cfg (map OpPop ts) s = Some (es, t) \<and> mset (dispatched es) = queued_requests s \<and>
     queues t = [] \<and> snap_depth (snapshot t) = 0 \<and> snap_bytes (snapshot t) = 0"
  using assms
proof (induction ts arbitrary: s)
  case Nil
  then have "all_queued s = {#}" "\<forall>(k, q) \<in> set (queues s). items q \<noteq> []" "bytes s = 0"
    by (auto simp: sched_ok_def queue_ok_def)
  moreover from this have "queues s = []"
    using in_all_queued [of _ s] by (cases "queues s") (auto, metis list.set_intros(1) neq_Nil_conv)
  ultimately show ?case using Nil by (simp add: snapshot_def)
next
  case (Cons x ts)
  from exec_pop [OF Cons.prems(1), of x] show ?case
  proof cases
    case 1
    then show ?thesis using Cons.prems by (auto simp: sched_ok_def all_queued_def)
  next
    case (2 r t)
    have "depth t = length ts"
      using 2(3,4) Cons.prems by (auto simp: sched_ok_def dest: arg_cong [where f = size])
    with Cons.IH [OF 2(3)] 2 show ?thesis by force
  qed
qed

theorem pops_drain_backlog_witness:
  "\<exists>es t. run default_config (map OpPop [10, 7]) (example_state 900 1000) = Some (es, t) \<and>
     mset (dispatched es) = queued_requests (example_state 900 1000) \<and>
     queues t = [] \<and> snap_depth (snapshot t) = 0 \<and> snap_bytes (snapshot t) = 0"
  using example_state_ok by (rule pops_drain_backlog) (simp add: example_state_def)

text \<open>
  Fairness: a front whose queue is at least as heavy and at most as much served as every other
  queue, that arrived before and expires no later than every other front, is the one popped.
\<close>

theorem pop_serves_dominant_front:
  assumes "sched_ok cfg s" "tuning_ok cfg" "now \<le> u64_max"
    and "(k, q) \<in> set (queues s)" "items q = f # rest"
    and "\<forall>k' q' f' rest'. (k', q') \<in> set (queues s) \<longrightarrow> items q' = f' # rest' \<longrightarrow> k' \<noteq> k \<longrightarrow>
       weight q' \<le> weight q \<and> served q \<le> served q' \<and> enqueued_ns f \<le> enqueued_ns f' \<and>
       deadline_ns f \<le> deadline_ns f' \<and> q_sequence f < q_sequence f'"
  shows "\<exists>t. pop_next cfg now s = Some (Some (q_request f), t)"
proof -
  have ok: "bt_ok (queues s)" and all: "\<And>k q. (k, q) \<in> set (queues s) \<Longrightarrow> queue_ok k q"
    using assms(1) by (auto simp: sched_ok_def)
  obtain r t where pop: "pop_next cfg now s = Some (Some r, t)"
    using pop_nonempty [OF assms(1)] assms(4) by fastforce
  from pop_best [OF assms(1-3) pop] obtain k' q' f' rest'
    where b: "(k', q') \<in> set (queues s)" "items q' = f' # rest'" "q_request f' = r"
      and best: "score cfg now q' f' \<le> score cfg now q f \<longrightarrow> q_sequence f' \<le> q_sequence f"
    using assms(4,5) by metis
  have "k' = k"
  proof (rule ccontr)
    assume "k' \<noteq> k"
    with assms(6) b have d: "weight q' \<le> weight q" "served q \<le> served q'"
      "enqueued_ns f \<le> enqueued_ns f'" "deadline_ns f \<le> deadline_ns f'" "q_sequence f < q_sequence f'"
      by blast+
    have "score cfg now q' f' \<le> score cfg now q f"
      using score_mono [OF all [OF b(1)] all [OF assms(4)] assms(2,3) d(1,2) _ d(3,4)] by simp
    with best d(5) show False by simp
  qed
  then have "q' = q" using ok assms(4) b(1) by (simp add: bt.in_set_iff)
  with b assms(5) pop show ?thesis by simp
qed

theorem pop_serves_dominant_front_witness:
  "\<exists>t. pop_next default_config 10 (example_state 900 1000) =
     Some (Some (q_request (example_item 1 Realtime 0 900)), t)"
  by (rule pop_serves_dominant_front [OF example_state_ok default_tuning_ok example_now(1),
        of "QueueKey Realtime ''t'' ''a''" "snd (example_realtime 900)" 900 1000 _ "[]"])
    (auto simp: example_defs f_ops dest!: example_fronts)

text \<open>
  C5.  Urgency: while some queue's front is past its deadline, no front that still has time is popped,
  as long as its fair share and its age together stay below eight hundred thousand.
\<close>

theorem overdue_before_others:
  assumes "sched_ok cfg s" "tuning_ok cfg" "now \<le> u64_max"
    and "(k, q) \<in> set (queues s)" "items q = f # rest" "deadline_ns f \<le> now"
    and "\<forall>k' q' f' rest'. (k', q') \<in> set (queues s) \<longrightarrow> items q' = f' # rest' \<longrightarrow>
       fair_share cfg q' + age_boost cfg now f' \<le> f_of 800000"
  shows "\<exists>k' q' f' rest' t. pop_next cfg now s = Some (Some (q_request f'), t) \<and>
     (k', q') \<in> set (queues s) \<and> items q' = f' # rest' \<and> deadline_ns f' \<le> now"
proof -
  have all: "\<And>k q. (k, q) \<in> set (queues s) \<Longrightarrow> queue_ok k q"
    using assms(1) by (auto simp: sched_ok_def)
  obtain r t where pop: "pop_next cfg now s = Some (Some r, t)"
    using pop_nonempty [OF assms(1)] assms(4) by fastforce
  from pop_best [OF assms(1-3) pop] obtain k' q' f' rest'
    where b: "(k', q') \<in> set (queues s)" "items q' = f' # rest'" "q_request f' = r"
      and best: "score cfg now q f \<le> score cfg now q' f'"
    using assms(4,5) by metis
  have "deadline_ns f' \<le> now"
  proof (rule ccontr)
    assume late: "\<not> deadline_ns f' \<le> now"
    have "f_of 1000000 \<le> deadline_boost cfg now f"
      using assms(6) by (simp add: deadline_boost_def f_ops)
    moreover have "f_of 0 \<le> fair_share cfg q + age_boost cfg now f"
      using fair_share_plus [OF all [OF assms(4)] assms(2)] age_boost_plus [OF assms(2,3)]
      by (intro plus_sign_nonneg plus_sign_add)
    ultimately have "f_of 0 + f_of 1000000 \<le> score cfg now q f"
      unfolding score_def by (intro f_add_mono) (auto simp: f_ops)
    also note best
    also have "score cfg now q' f' \<le> f_of 800000 + f_of 100000"
      unfolding score_def
    proof (rule f_add_mono)
      show "fair_share cfg q' + age_boost cfg now f' \<le> f_of 800000" using assms(7) b by blast
      have "f_min x (f_of 100000) \<le> f_of 100000" for x by (cases x) (auto simp: f_min_def f_ops)
      then show "deadline_boost cfg now f' \<le> f_of 100000"
        using late by (simp add: deadline_boost_def del: f_of_numeral)
      show "f_of 0 \<le> fair_share cfg q' + age_boost cfg now f'"
        using fair_share_plus [OF all [OF b(1)] assms(2)] age_boost_plus [OF assms(2,3)]
        by (intro plus_sign_nonneg plus_sign_add)
      show "f_of 0 \<le> deadline_boost cfg now f'"
        using deadline_boost_plus [OF assms(2)] by (rule plus_sign_nonneg)
    qed
    finally show False by (simp add: f_ops)
  qed
  with b pop show ?thesis by blast
qed

theorem overdue_before_others_witness:
  "\<exists>k' q' f' rest' t. pop_next default_config 2000000 (example_state 3000000 1000000) = Some (Some (q_request f'), t) \<and>
     (k', q') \<in> set (queues (example_state 3000000 1000000)) \<and> items q' = f' # rest' \<and> deadline_ns f' \<le> 2000000"
proof (rule overdue_before_others [OF example_state_ok default_tuning_ok example_now(2)])
  show "(QueueKey Batch ''t'' ''a'', snd (example_batch 1000000)) \<in> set (queues (example_state 3000000 1000000))"
    "items (snd (example_batch 1000000)) = example_item 2 Batch 5 1000000 # []"
    "deadline_ns (example_item 2 Batch 5 1000000) \<le> 2000000"
    by (simp_all add: example_defs)
  have "fair_share default_config (snd (example_realtime 3000000)) +
      age_boost default_config 2000000 (example_item 1 Realtime 0 3000000) \<le> f_of 800000"
    "fair_share default_config (snd (example_batch 1000000)) +
      age_boost default_config 2000000 (example_item 2 Batch 5 1000000) \<le> f_of 800000"
    by code_simp+
  then show "\<forall>k' q' f' rest'. (k', q') \<in> set (queues (example_state 3000000 1000000)) \<longrightarrow> items q' = f' # rest' \<longrightarrow>
       fair_share default_config q' + age_boost default_config 2000000 f' \<le> f_of 800000"
    using example_fronts by (metis prod.sel(2))
qed

end
