(* ===== verification/Capacity.thy ===== *)
theory Capacity
  imports Core
begin

text \<open>
  The capacity model of a pool, \<^verbatim>\<open>crates/capacity/src/lib.rs\<close>: the ledger of charged reservations and the
  online calibration of the safety factor from the observed estimate error and throttling.  Every
  method runs under the model's mutex and is a function of the locked state; the fresh id of a
  reservation is an argument.
\<close>

section \<open>State\<close>

record capacity_state =
  reservations :: "uuid \<rightharpoonup> f64"
  reserved :: f64
  safety :: f64
  err_ewma :: f64
  throttle :: f64
  observations :: nat

record capacity_model =
  configured :: f64
  alpha :: f64

record capacity_status =
  configured_units :: f64
  reserved_units :: f64
  safety_factor :: f64
  estimate_error_ewma :: f64
  throttle_ewma :: f64
  cap_confidence :: f64
  cap_observations :: nat

definition f_epsilon :: f64 where
  "f_epsilon = Fin False (pow2 (- 52))"

section \<open>Operations\<close>

definition ewma_alpha :: f64 where
  "ewma_alpha = f_of (8 / 100)"

definition capacity_new :: "f64 \<Rightarrow> f64 \<Rightarrow> capacity_model \<times> capacity_state" where
  "capacity_new conf initial_safety =
     (\<lparr>configured = conf, alpha = ewma_alpha\<rparr>,
      \<lparr>reservations = Map.empty, reserved = f_of 0, safety = f_clamp initial_safety (f_of 1) (f_of 4),
       err_ewma = f_of 0, throttle = f_of 0, observations = 0\<rparr>)"

definition capacity_reserve ::
  "capacity_model \<Rightarrow> uuid \<Rightarrow> f64 \<Rightarrow> capacity_state \<Rightarrow> uuid option \<times> capacity_state" where
  "capacity_reserve m new_id predicted s =
     (let charged = predicted * safety s
      in if \<not> is_finite charged \<or> charged < f_of 0 \<or> configured m < reserved s + charged
         then (None, s)
         else (Some new_id, s\<lparr>reserved := reserved s + charged,
                 reservations := (reservations s)(new_id \<mapsto> charged)\<rparr>))"

definition charged_units :: "f64 \<Rightarrow> capacity_state \<Rightarrow> f64" where
  "charged_units predicted s = predicted * safety s"

definition track_distributed :: "uuid \<Rightarrow> f64 \<Rightarrow> capacity_state \<Rightarrow> capacity_state" where
  "track_distributed i charged s =
     (let s' = s\<lparr>reservations := (reservations s)(i \<mapsto> charged)\<rparr>
      in if reservations s i = None then s'\<lparr>reserved := reserved s' + charged\<rparr> else s')"

definition observed_ratio :: "f64 \<Rightarrow> f64 option \<Rightarrow> f64" where
  "observed_ratio predicted actual =
     f_clamp (case actual of None \<Rightarrow> f_of 1 | Some a \<Rightarrow> a / f_max predicted (f_of 1)) (f_of 0) (f_of 10)"

definition capacity_release ::
  "capacity_model \<Rightarrow> uuid \<Rightarrow> f64 \<Rightarrow> f64 option \<Rightarrow> bool \<Rightarrow> capacity_state \<Rightarrow> bool \<times> capacity_state" where
  "capacity_release m i predicted actual throttled s =
     (case reservations s i of
        None \<Rightarrow> (False, s)
      | Some charged \<Rightarrow>
          let r = f_max (reserved s - charged) (f_of 0);
              r' = (if r < f_epsilon * f_max (configured m) (f_of 1) * f_of 16 then f_of 0 else r);
              ratio = observed_ratio predicted actual;
              e = (f_of 1 - alpha m) * err_ewma s + alpha m * \<bar>ratio - f_of 1\<bar>;
              t = (f_of 1 - alpha m) * throttle s + alpha m * (if throttled then f_of 1 else f_of 0);
              target = f_clamp (f_of 1 + e * f_of (3 / 2) + t * f_of 2) (f_of 1) (f_of 4)
          in (True, s\<lparr>reservations := (reservations s)(i := None), reserved := r',
                err_ewma := e, throttle := t,
                safety := f_clamp (safety s * f_of (9 / 10) + target * f_of (1 / 10)) (f_of 1) (f_of 4),
                observations := wrapping_add (observations s) 1\<rparr>))"

definition capacity_status :: "capacity_model \<Rightarrow> capacity_state \<Rightarrow> capacity_status" where
  "capacity_status m s = \<lparr>configured_units = configured m, reserved_units = reserved s,
     safety_factor = safety s, estimate_error_ewma = err_ewma s, throttle_ewma = throttle s,
     cap_confidence = f_min (f_of_nat (observations s) / f_of 100) (f_of 1),
     cap_observations = observations s\<rparr>"

section \<open>Calls\<close>

datatype capacity_op =
    CapReserve uuid f64
  | CapTrack uuid f64
  | CapRelease uuid f64 "f64 option" bool

fun cap_exec :: "capacity_model \<Rightarrow> capacity_op \<Rightarrow> capacity_state \<Rightarrow> capacity_state" where
  "cap_exec m (CapReserve i p) s = snd (capacity_reserve m i p s)"
| "cap_exec m (CapTrack i c) s = track_distributed i c s"
| "cap_exec m (CapRelease i p a th) s = snd (capacity_release m i p a th s)"

fun cap_run :: "capacity_model \<Rightarrow> capacity_op list \<Rightarrow> capacity_state \<Rightarrow> capacity_state" where
  "cap_run m [] s = s"
| "cap_run m (c # cs) s = cap_run m cs (cap_exec m c s)"

text \<open>\<^verbatim>\<open>WorkUnits\<close> made by \<^verbatim>\<open>WorkUnits::new\<close>.\<close>

definition units_ok :: "f64 \<Rightarrow> bool" where
  "units_ok u \<longleftrightarrow> is_finite u \<and> f_of 0 \<le> u \<and> f_ok u"

fun cap_op_ok :: "capacity_op \<Rightarrow> bool" where
  "cap_op_ok (CapReserve _ p) = units_ok p"
| "cap_op_ok (CapTrack _ c) = units_ok c"
| "cap_op_ok (CapRelease _ p a _) = (units_ok p \<and> (case a of None \<Rightarrow> True | Some u \<Rightarrow> units_ok u))"

fun is_track :: "capacity_op \<Rightarrow> bool" where
  "is_track (CapTrack _ _) = True"
| "is_track _ = False"

section \<open>Invariant\<close>

text \<open>The calibration stays in its ranges: the exponential averages, and the safety factor in [1, 4].\<close>

definition calibrated :: "capacity_state \<Rightarrow> bool" where
  "calibrated s \<longleftrightarrow> f_of 1 \<le> safety s \<and> safety s \<le> f_of 4 \<and> f_ok (safety s) \<and>
     f_of 0 \<le> err_ewma s \<and> err_ewma s \<le> f_of 10 \<and> f_of 0 \<le> throttle s \<and> throttle s \<le> f_of 2"

text \<open>The local ledger: what is reserved is a non-negative number within the configured capacity.\<close>

definition within_limit :: "capacity_model \<Rightarrow> capacity_state \<Rightarrow> bool" where
  "within_limit m s \<longleftrightarrow> is_finite (configured m) \<and> f_ok (reserved s) \<and> is_finite (reserved s) \<and> f_of 0 \<le> reserved s \<and>
     reserved s \<le> configured m \<and>
     (\<forall>i c. reservations s i = Some c \<longrightarrow> is_finite c \<and> f_of 0 \<le> c \<and> f_ok c)"

lemma ratio_bounds:
  assumes "units_ok p" "case a of None \<Rightarrow> True | Some u \<Rightarrow> units_ok u"
  shows "f_of 0 \<le> observed_ratio p a \<and> observed_ratio p a \<le> f_of 10"
proof -
  have one: "f_of 1 \<le> f_max p (f_of 1)" by (rule f_max_ge) simp
  then have pos: "f_of 0 < f_max p (f_of 1)" by (cases "f_max p (f_of 1)") (auto simp: f_ops)
  have fin: "is_finite (f_max p (f_of 1))" using assms(1) by (auto simp: f_max_def units_ok_def)
  have "(case a of None \<Rightarrow> f_of 1 | Some u \<Rightarrow> u / f_max p (f_of 1)) \<noteq> NaN"
  proof (cases a)
    case (Some u)
    then have "f_of 0 \<le> u / f_max p (f_of 1)"
      using assms(2) pos fin by (intro f_div_nonneg) (auto simp: units_ok_def)
    then show ?thesis using Some f_le_nonan by auto
  qed simp
  then show ?thesis unfolding observed_ratio_def by (rule f_clamp_bounds) (simp add: f_ops)
qed

lemma ewma_consts:
  "f_of 0 < f_of 1 - ewma_alpha" "is_finite (f_of 1 - ewma_alpha)"
  "f_of 0 < ewma_alpha" "is_finite (ewma_alpha)"
  "f_of 10 * (f_of 1 - ewma_alpha) + f_of 9 * ewma_alpha \<le> f_of 10"
  "f_of 2 * (f_of 1 - ewma_alpha) + f_of 1 * ewma_alpha \<le> f_of 2"
  by code_simp+

text \<open>One step of an exponential average keeps it between 0 and a bound with room for rounding.\<close>

lemma ewma_step:
  assumes "f_of 0 \<le> e" "e \<le> f_of h" "f_of 0 \<le> x" "x \<le> f_of k"
    and "is_finite (f_of h)" "is_finite (f_of k)"
    and "f_of h * (f_of 1 - ewma_alpha) + f_of k * ewma_alpha \<le> f_of h"
  shows "f_of 0 \<le> (f_of 1 - ewma_alpha) * e + ewma_alpha * x"
    and "(f_of 1 - ewma_alpha) * e + ewma_alpha * x \<le> f_of h"
proof -
  let ?c = "f_of 1 - ewma_alpha" and ?a = "ewma_alpha"
  have f: "is_finite e" "is_finite x" "f_of 0 \<le> ?c" "f_of 0 \<le> ?a"
    using assms(1-6) ewma_consts(1,3) f_less_imp_le by (auto intro: f_between_finite elim!: is_finite.elims)
  then have nn: "f_of 0 \<le> e * ?c" "f_of 0 \<le> x * ?a"
    using assms(1,3) ewma_consts(2,4) by (auto intro!: f_mul_nonneg simp del: f_of_0 f_of_1)
  then show "f_of 0 \<le> ?c * e + ?a * x"
    unfolding f_mul_commute [of ?c] f_mul_commute [of ?a] by (rule f_add_nonneg)
  have "e * ?c \<le> f_of h * ?c" "x * ?a \<le> f_of k * ?a"
    using assms(1-4) ewma_consts(1-4) by (auto intro!: f_mul_mono simp del: f_of_0 f_of_1)
  then have "e * ?c + x * ?a \<le> f_of h * ?c + f_of k * ?a" using nn by (intro f_add_mono)
  with assms(7) show "?c * e + ?a * x \<le> f_of h"
    unfolding f_mul_commute [of ?c e] f_mul_commute [of ?a x] using f_le_trans by blast
qed

lemma error_sample:
  assumes "f_of 0 \<le> r" "r \<le> f_of 10"
  shows "f_of 0 \<le> \<bar>r - f_of 1\<bar>" "\<bar>r - f_of 1\<bar> \<le> f_of 9"
proof -
  have c: "- f_of 9 \<le> f_of 0 - f_of 1" "f_of 10 - f_of 1 \<le> f_of 9" by code_simp+
  have "f_of 0 - f_of 1 \<le> r - f_of 1" "r - f_of 1 \<le> f_of 10 - f_of 1"
    using assms by (auto intro: f_diff_mono)
  with c have "- f_of 9 \<le> r - f_of 1" "r - f_of 1 \<le> f_of 9" using f_le_trans by blast+
  then show "\<bar>r - f_of 1\<bar> \<le> f_of 9" "f_of 0 \<le> \<bar>r - f_of 1\<bar>"
    using f_abs_le f_abs_nonneg f_le_nonan by blast+
qed

lemma safety_step:
  assumes "f_of 1 \<le> u" "u \<le> f_of 4" "f_of 1 \<le> v" "v \<le> f_of 4"
  shows "u * f_of (9 / 10) + v * f_of (1 / 10) \<noteq> NaN"
proof -
  have c: "f_of 0 \<le> f_of (9 / 10)" "is_finite (f_of (9 / 10))"
      "f_of 0 \<le> f_of (1 / 10)" "is_finite (f_of (1 / 10))" by code_simp+
  have "f_of 0 \<le> u" "is_finite u" "f_of 0 \<le> v" "is_finite v"
    using assms by (cases u; cases v; auto simp: f_ops split: if_splits)+
  with c have "f_of 0 \<le> u * f_of (9 / 10) + v * f_of (1 / 10)"
    by (intro f_add_nonneg f_mul_nonneg)
  then show ?thesis using f_le_nonan by blast
qed

lemma target_nonan:
  assumes "f_of 0 \<le> e" "e \<le> f_of 10" "f_of 0 \<le> t" "t \<le> f_of 2"
  shows "f_of 1 + e * f_of (3 / 2) + t * f_of 2 \<noteq> NaN"
proof -
  have c: "f_of 0 \<le> f_of (3 / 2)" "is_finite (f_of (3 / 2))" "f_of 0 \<le> f_of 2" "is_finite (f_of 2)"
    "f_of 0 \<le> f_of 1" by code_simp+
  have "is_finite e" "is_finite t" using assms by (auto intro: f_between_finite)
  with c assms have "f_of 0 \<le> f_of 1 + e * f_of (3 / 2) + t * f_of 2"
    by (intro f_add_nonneg f_mul_nonneg)
  then show ?thesis using f_le_nonan by blast
qed

lemma clamp_ok: "f_ok x \<Longrightarrow> f_ok (f_clamp x (f_of a) (f_of b))"
  by (auto simp: f_clamp_def Let_def)

lemma calibrated_new: "initial \<noteq> NaN \<Longrightarrow> f_ok initial \<Longrightarrow> calibrated (snd (capacity_new conf initial))"
  using f_clamp_bounds [of initial "f_of 1" "f_of 4"] clamp_ok [of initial 1 4]
  by (simp add: calibrated_def capacity_new_def f_ops)

lemma release_calibrated:
  assumes cal: "calibrated s" and m: "alpha m = ewma_alpha"
    and ok: "units_ok p" "case a of None \<Rightarrow> True | Some u \<Rightarrow> units_ok u"
  shows "calibrated (snd (capacity_release m i p a th s))"
proof (cases "reservations s i")
  case None
  then show ?thesis using cal by (simp add: capacity_release_def)
next
  case (Some charged)
  define e where "e = (f_of 1 - alpha m) * err_ewma s + alpha m * \<bar>observed_ratio p a - f_of 1\<bar>"
  define t where "t = (f_of 1 - alpha m) * throttle s + alpha m * (if th then f_of 1 else f_of 0)"
  define g where "g = f_clamp (f_of 1 + e * f_of (3 / 2) + t * f_of 2) (f_of 1) (f_of 4)"
  have s: "f_of 0 \<le> err_ewma s" "err_ewma s \<le> f_of 10" "f_of 0 \<le> throttle s" "throttle s \<le> f_of 2"
    "f_of 1 \<le> safety s" "safety s \<le> f_of 4" "f_ok (safety s)"
    using cal by (auto simp: calibrated_def)
  have x: "f_of 0 \<le> \<bar>observed_ratio p a - f_of 1\<bar>" "\<bar>observed_ratio p a - f_of 1\<bar> \<le> f_of 9"
    using ratio_bounds [OF ok] error_sample by blast+
  have e: "f_of 0 \<le> e" "e \<le> f_of 10"
    unfolding e_def m using ewma_step [OF s(1,2) x] ewma_consts(5) by simp_all
  have th: "f_of 0 \<le> (if th then f_of 1 else f_of 0)" "(if th then f_of 1 else f_of 0) \<le> f_of 1"
    by (simp_all add: f_ops)
  have t: "f_of 0 \<le> t" "t \<le> f_of 2"
    unfolding t_def m using ewma_step [OF s(3,4) th] ewma_consts(6) by simp_all
  have lu: "f_of 1 \<le> f_of 4" by (simp add: f_ops)
  have g: "f_of 1 \<le> g" "g \<le> f_of 4"
    unfolding g_def using f_clamp_bounds [OF target_nonan [OF e t] lu] by auto
  have "f_of 1 \<le> f_clamp (safety s * f_of (9 / 10) + g * f_of (1 / 10)) (f_of 1) (f_of 4) \<and>
      f_clamp (safety s * f_of (9 / 10) + g * f_of (1 / 10)) (f_of 1) (f_of 4) \<le> f_of 4"
    using safety_step [OF s(5,6) g] lu by (rule f_clamp_bounds)
  moreover have "f_ok (f_clamp (safety s * f_of (9 / 10) + g * f_of (1 / 10)) (f_of 1) (f_of 4))"
    by (rule clamp_ok) simp
  moreover have "err_ewma (snd (capacity_release m i p a th s)) = e"
    "throttle (snd (capacity_release m i p a th s)) = t"
    "safety (snd (capacity_release m i p a th s)) =
       f_clamp (safety s * f_of (9 / 10) + g * f_of (1 / 10)) (f_of 1) (f_of 4)"
    using Some by (simp_all add: capacity_release_def Let_def e_def t_def g_def del: f_of_0 f_of_1 f_of_numeral)
  ultimately show ?thesis using e t unfolding calibrated_def by (simp del: f_of_0 f_of_1 f_of_numeral)
qed

lemma exec_calibrated:
  assumes "calibrated s" "alpha m = ewma_alpha" "cap_op_ok c"
  shows "calibrated (cap_exec m c s)"
proof (cases c)
  case (CapRelease i p a th)
  with assms show ?thesis by (simp add: release_calibrated)
qed (use assms in \<open>simp_all add: capacity_reserve_def track_distributed_def Let_def calibrated_def\<close>)

lemma run_calibrated:
  "calibrated s \<Longrightarrow> alpha m = ewma_alpha \<Longrightarrow> \<forall>c \<in> set cs. cap_op_ok c \<Longrightarrow> calibrated (cap_run m cs s)"
  by (induction cs arbitrary: s) (auto intro: exec_calibrated)

section \<open>The local ledger\<close>

lemma finite_below: "f_of 0 \<le> x \<Longrightarrow> x \<le> y \<Longrightarrow> is_finite y \<Longrightarrow> is_finite x"
  by (cases y) (auto intro: f_between_finite)

lemma reserve_within:
  assumes "within_limit m s" "f_ok p"
  shows "within_limit m (snd (capacity_reserve m i p s))"
proof (cases "fst (capacity_reserve m i p s)")
  case None
  then show ?thesis using assms by (auto simp: capacity_reserve_def Let_def split: if_splits)
next
  case (Some j)
  let ?c = "p * safety s"
  have c: "is_finite ?c" "\<not> ?c < f_of 0" "\<not> configured m < reserved s + ?c"
    using Some by (auto simp: capacity_reserve_def Let_def split: if_splits)
  have w: "f_ok (reserved s)" "is_finite (reserved s)" "f_of 0 \<le> reserved s" "reserved s \<le> configured m"
    "is_finite (configured m)"
    using assms(1) by (auto simp: within_limit_def)
  have c0: "f_of 0 \<le> ?c" using c(1,2) by (cases ?c) (auto simp: f_ops)
  have sum: "f_of 0 \<le> reserved s + ?c" using w(3) c0 by (rule f_add_nonneg)
  have le: "reserved s + ?c \<le> configured m"
    using c(3) f_not_less [of "configured m" "reserved s + ?c"] f_le_nonan [OF sum] f_le_nonan [OF w(4)] by blast
  have "is_finite (reserved s + ?c)" using sum le w(5) by (rule finite_below)
  moreover have "snd (capacity_reserve m i p s) =
      s\<lparr>reserved := reserved s + ?c, reservations := (reservations s)(i \<mapsto> ?c)\<rparr>"
    using Some by (auto simp: capacity_reserve_def Let_def split: if_splits)
  ultimately show ?thesis using assms(1) sum le c(1) c0 by (simp add: within_limit_def)
qed

lemma release_within:
  assumes "within_limit m s"
  shows "within_limit m (snd (capacity_release m i p a th s))"
proof (cases "reservations s i")
  case None
  then show ?thesis using assms by (simp add: capacity_release_def)
next
  case (Some c)
  have w: "f_ok (reserved s)" "is_finite (reserved s)" "f_of 0 \<le> reserved s" "reserved s \<le> configured m"
    "is_finite (configured m)" and c: "is_finite c" "f_of 0 \<le> c"
    and others: "\<And>j d. reservations s j = Some d \<Longrightarrow> is_finite d \<and> f_of 0 \<le> d \<and> f_ok d"
    using assms Some by (auto simp: within_limit_def)
  let ?r = "f_max (reserved s - c) (f_of 0)"
  have "reserved s - c \<le> reserved s" using w(1-3) c f_le_nonan by (intro f_diff_le) blast+
  then have d: "reserved s - c \<le> configured m" using w(4) f_le_trans by blast
  have z: "f_of 0 \<le> configured m" using w(3,4) f_le_trans by blast
  have r: "f_of 0 \<le> ?r" "?r \<le> configured m" "f_ok ?r"
    using d z f_max_ge [of "f_of 0" "reserved s - c"] by (auto simp: f_max_def)
  define r' where "r' = reserved (snd (capacity_release m i p a th s))"
  have "r' = ?r \<or> r' = f_of 0" using Some by (auto simp: r'_def capacity_release_def Let_def)
  then have r': "f_of 0 \<le> r'" "r' \<le> configured m" "f_ok r'"
    using r z f_le_refl [of "f_of 0"] by auto
  have "is_finite r'" using r'(1,2) w(5) by (rule finite_below)
  moreover have "reservations (snd (capacity_release m i p a th s)) = (reservations s)(i := None)"
    using Some by (simp add: capacity_release_def Let_def)
  ultimately show ?thesis using r' w(5) others by (auto simp: within_limit_def r'_def split: if_splits)
qed

lemma cap_run_within:
  "within_limit m s \<Longrightarrow> \<forall>c \<in> set cs. cap_op_ok c \<and> \<not> is_track c \<Longrightarrow> within_limit m (cap_run m cs s)"
proof (induction cs arbitrary: s)
  case (Cons c cs)
  then have "within_limit m (cap_exec m c s)"
    by (cases c) (auto intro: reserve_within release_within simp: units_ok_def)
  with Cons show ?case by simp
qed simp

section \<open>Properties\<close>

definition example_calls :: "capacity_op list" where
  "example_calls = [CapReserve 1 (f_of 6), CapReserve 2 (f_of 6), CapRelease 1 (f_of 6) (Some (f_of 9)) True]"

lemma units_6_9: "units_ok (f_of 6)" "units_ok (f_of 9)"
  by (simp_all add: units_ok_def f_ops small_lt_bound)

lemma example_calls_ok: "\<forall>c \<in> set example_calls. cap_op_ok c \<and> \<not> is_track c"
  by (simp add: example_calls_def units_6_9 del: f_of_numeral)



text \<open>
  C7.  Calibration is bounded: after any sequence of calls the safety factor is in [1, 4], so a charge is
  never below the prediction and never above four times the prediction, and the two moving averages
  stay finite and non-negative.
\<close>

theorem safety_factor_bounded:
  assumes "initial \<noteq> NaN" "f_ok initial" "\<forall>c \<in> set cs. cap_op_ok c"
    and "capacity_new conf initial = (m, s)" "units_ok p"
  shows "f_of 1 \<le> safety (cap_run m cs s) \<and> safety (cap_run m cs s) \<le> f_of 4 \<and>
     p \<le> charged_units p (cap_run m cs s) \<and> charged_units p (cap_run m cs s) \<le> p * f_of 4 \<and>
     f_of 0 \<le> err_ewma (cap_run m cs s) \<and> err_ewma (cap_run m cs s) \<le> f_of 10 \<and>
     f_of 0 \<le> throttle (cap_run m cs s) \<and> throttle (cap_run m cs s) \<le> f_of 2"
proof -
  have "calibrated s" "alpha m = ewma_alpha"
    using calibrated_new [OF assms(1,2), of conf] assms(4) by (auto simp: capacity_new_def)
  from run_calibrated [OF this assms(3)] have c: "calibrated (cap_run m cs s)" .
  let ?f = "safety (cap_run m cs s)"
  have f: "f_of 1 \<le> ?f" "?f \<le> f_of 4" "f_ok ?f" using c by (auto simp: calibrated_def)
  have fin: "is_finite ?f" and pos: "f_of 0 < ?f" "f_of 0 \<le> ?f"
    using f(1,2) by (cases ?f; auto simp: f_ops split: if_splits)+
  have p: "f_ok p" "f_of 0 \<le> p" "is_finite p" using assms(5) by (auto simp: units_ok_def)
  have "p \<le> p * ?f" using p(1,2) f(3) fin f(1) by (rule f_mul_ge)
  moreover have "p * ?f \<le> p * f_of 4"
    using f_mul_mono2 [of p p ?f "f_of 4"] p f(2) pos(1) f_le_refl [of p] f_le_nonan [OF p(2)]
    by (simp del: f_of_0)
  ultimately show ?thesis using c by (simp add: charged_units_def calibrated_def)
qed

theorem safety_factor_bounded_witness:
  "\<exists>m s. capacity_new (f_of 10) (f_of 9) = (m, s) \<and>
     f_of 1 \<le> safety (cap_run m example_calls s) \<and> safety (cap_run m example_calls s) \<le> f_of 4 \<and>
     f_of 6 \<le> charged_units (f_of 6) (cap_run m example_calls s)"
proof -
  obtain m s where ms: "capacity_new (f_of 10) (f_of 9) = (m, s)" by force
  have "f_of 9 \<noteq> NaN" "f_ok (f_of 9)" by (simp, rule f_ok_of)
  from safety_factor_bounded [OF this _ ms units_6_9(1), of example_calls] example_calls_ok ms
  show ?thesis by blast
qed

text \<open>
  A reservation is released once: the first release of an id succeeds and counts one observation,
  every later one reports false and changes nothing, and no other reservation is touched.
\<close>

theorem release_once:
  "capacity_release m i p a th s = (r, t) \<Longrightarrow>
     r = (reservations s i \<noteq> None) \<and> reservations t = (reservations s)(i := None) \<and>
     observations t = (if r then wrapping_add (observations s) 1 else observations s) \<and>
     capacity_release m i p' a' th' t = (False, t)"
  by (cases "reservations s i") (auto simp: capacity_release_def Let_def fun_upd_idem)

theorem release_once_witness:
  "\<exists>r t. capacity_release \<lparr>configured = f_of 10, alpha = ewma_alpha\<rparr> 1 (f_of 6) None False
       (track_distributed 1 (f_of 6) (snd (capacity_new (f_of 10) (f_of 1)))) = (r, t) \<and> r \<and>
     capacity_release \<lparr>configured = f_of 10, alpha = ewma_alpha\<rparr> 1 (f_of 6) None False t = (False, t)"
proof -
  let ?m = "\<lparr>configured = f_of 10, alpha = ewma_alpha\<rparr>"
  let ?s = "track_distributed 1 (f_of 6) (snd (capacity_new (f_of 10) (f_of 1)))"
  obtain r t where e: "capacity_release ?m 1 (f_of 6) None False ?s = (r, t)" by force
  have "reservations ?s 1 \<noteq> None" by (simp add: track_distributed_def capacity_new_def)
  with release_once [OF e] e show ?thesis by blast
qed

end
