(* ===== verification/F64_Sum.thy ===== *)
theory F64_Sum
  imports F64
begin

text \<open>
  Sums of \<^verbatim>\<open>f64\<close> values as \<^verbatim>\<open>Iterator::sum\<close> computes them, from the negative zero, left to right.  Sums of
  whole numbers are exact while they stay below \<open>2 ^ 53\<close>; a sum of \<open>n\<close> non-negative numbers is at least
  the exact total times \<open>(1 - 2 ^ -53) ^ n\<close>.
\<close>

definition f_sum :: "f64 list \<Rightarrow> f64" where
  "f_sum xs = foldl (+) (Fin True 0) xs"

section \<open>Values of nonnegative sums\<close>

lemma f_of_nat_val: "n \<le> 2 ^ 53 \<Longrightarrow> f_val (f_of_nat n) = of_nat n"
  by (simp add: f_of_nat_small)

lemma f_of_nat_finite: "n \<le> 2 ^ 53 \<Longrightarrow> is_finite (f_of_nat n)"
  by (simp add: f_of_nat_small)

text \<open>The comparisons of finite numbers are those of their values.\<close>

lemma f_le_val: "is_finite x \<Longrightarrow> is_finite y \<Longrightarrow> x \<le> y \<longleftrightarrow> f_val x \<le> f_val y"
  by (cases x; cases y) (auto simp: f_ops)

lemma f_lt_val: "is_finite x \<Longrightarrow> is_finite y \<Longrightarrow> x < y \<longleftrightarrow> f_val x < f_val y"
  by (cases x; cases y) (auto simp: f_ops)

lemma f_add_whole:
  assumes "is_finite x" "is_finite y" "f_val x = of_nat a" "f_val y = of_nat b" "a + b \<le> 2 ^ 53"
  shows "is_finite (x + y) \<and> f_val (x + y) = of_nat (a + b)"
proof -
  obtain s m t n where xy: "x = Fin s m" "y = Fin t n" using assms(1,2) by (cases x; cases y) auto
  have v: "f_val x + f_val y = of_nat (a + b)" using assms(3,4) by simp
  have "x + y = (if f_val x + f_val y = 0 then Fin (s \<and> t) 0 else f_of (f_val x + f_val y))"
    by (simp add: xy f_ops Let_def)
  then show ?thesis
    unfolding v f_of_small_nat [OF assms(5)] by (cases "a + b = 0") (simp_all del: of_nat_add)
qed

lemma f_val_nonneg: "f_of 0 \<le> x \<Longrightarrow> 0 \<le> f_val x"
  by (cases x) (auto simp: f_ops)

lemma foldl_whole:
  assumes "is_finite x" "f_val x = of_nat a" "a + sum_list ks \<le> 2 ^ 53"
  shows "is_finite (foldl (+) x (map f_of_nat ks)) \<and>
    f_val (foldl (+) x (map f_of_nat ks)) = of_nat (a + sum_list ks)"
  using assms
proof (induction ks arbitrary: x a)
  case (Cons k ks)
  then have "is_finite (x + f_of_nat k) \<and> f_val (x + f_of_nat k) = of_nat (a + k)"
    by (intro f_add_whole) (auto intro: f_of_nat_finite f_of_nat_val)
  with Cons.IH [of "x + f_of_nat k" "a + k"] Cons.prems show ?case by (simp add: add.assoc)
qed simp

lemma f_sum_whole:
  "sum_list ks \<le> 2 ^ 53 \<Longrightarrow>
     is_finite (f_sum (map f_of_nat ks)) \<and> f_val (f_sum (map f_of_nat ks)) = of_nat (sum_list ks)"
  using foldl_whole [of "Fin True 0" 0 ks] by (simp add: f_sum_def)

lemma f_sum_plus_whole:
  assumes "sum_list ks + k \<le> 2 ^ 53" "l \<le> 2 ^ 53"
  shows "f_of_nat l < f_sum (map f_of_nat ks) + f_of_nat k \<longleftrightarrow> l < sum_list ks + k"
proof -
  have s: "is_finite (f_sum (map f_of_nat ks))" "f_val (f_sum (map f_of_nat ks)) = of_nat (sum_list ks)"
    using f_sum_whole [of ks] assms by simp_all
  have "is_finite (f_sum (map f_of_nat ks) + f_of_nat k) \<and>
      f_val (f_sum (map f_of_nat ks) + f_of_nat k) = of_nat (sum_list ks + k)"
    using s assms by (intro f_add_whole) (auto intro: f_of_nat_finite f_of_nat_val)
  then show ?thesis
    using assms by (simp add: f_lt_val f_of_nat_finite f_of_nat_val flip: of_nat_less_iff [where 'a = rat])
qed

section \<open>Relative error\<close>

definition f_unit :: rat where
  "f_unit = 1 / pow2 53"

lemma f_unit_bounds: "0 < f_unit" "f_unit < 1"
  by (simp_all add: f_unit_def pow2_def)

text \<open>Every finite number is a whole multiple of \<open>2 ^ -1074\<close>.\<close>

lemma ok_grid:
  assumes "f_ok (Fin s m)"
  obtains k where "m = of_int k * pow2 (- 1074)" "0 \<le> k"
proof (cases "m = 0")
  case True
  then show thesis using that [of 0] by simp
next
  case False
  with assms have m: "0 < m" "round64 m = m" by auto
  define u r where "u = ulp_exp 53 (- 1074) m" and "r = rne (m / pow2 u)"
  have u: "- 1074 \<le> u" by (simp add: u_def ulp_exp_def)
  have e: "m = of_int r * pow2 u" using m(2) b64.round_eq [OF m(1)] by (simp add: r_def u_def)
  have "pow2 u = of_int (2 ^ nat (u + 1074)) * pow2 (- 1074)"
    using u pow2_add [of "u + 1074" "- 1074"] by (simp add: pow2_nat)
  with e have "m = of_int (r * 2 ^ nat (u + 1074)) * pow2 (- 1074)" by simp
  moreover have "0 < r" using m(1) e pow2_pos [of u] by (auto simp: zero_less_mult_iff)
  ultimately show thesis using that [of "r * 2 ^ nat (u + 1074)"] by simp
qed

lemma round_sum_lower:
  assumes "f_ok (Fin s a)" "f_ok (Fin t b)"
  shows "(1 - f_unit) * (a + b) \<le> round64 (a + b)"
proof -
  obtain k where k: "a = of_int k * pow2 (- 1074)" "0 \<le> k" using assms(1) by (rule ok_grid)
  obtain l where l: "b = of_int l * pow2 (- 1074)" "0 \<le> l" using assms(2) by (rule ok_grid)
  have ab: "0 \<le> a" "0 \<le> b" using assms by auto
  consider "a + b = 0" | "0 < a + b" "a + b < pow2 (- 1022)" | "pow2 (- 1022) \<le> a + b"
    using ab by linarith
  then show ?thesis
  proof cases
    case 2
    have s: "a + b = of_int (k + l) * pow2 (- 1074)" using k l by (simp add: distrib_right)
    have "pow2 (- 1022) = of_int (2 ^ 52) * pow2 (- 1074)"
      using pow2_add [of 52 "- 1074"] by (simp add: pow2_def)
    with 2(2) have "of_int (k + l) * pow2 (- 1074) < of_int (2 ^ 52) * pow2 (- 1074)"
      unfolding s by (simp only:)
    then have "(of_int (k + l) :: rat) < of_int (2 ^ 52)" by (simp only: mult_less_cancel_right_pos pow2_pos)
    then have "k + l \<le> 2 ^ nat 53" by (simp only: of_int_less_iff) simp
    then have "round64 (a + b) = a + b" using 2(1) s by (intro b64.round_grid) auto
    then show ?thesis using ab f_unit_bounds by (simp add: left_diff_distrib)
  next
    case 3
    then have "\<bar>round64 (a + b) - (a + b)\<bar> \<le> (a + b) / pow2 53"
      by (intro b64.round_rel_error) simp
    then have "(a + b) - (a + b) / pow2 53 \<le> round64 (a + b)" by linarith
    then show ?thesis by (simp add: f_unit_def left_diff_distrib)
  qed simp
qed

lemma f_add_lower:
  assumes "f_ok x" "f_ok y" "f_of 0 \<le> x" "f_of 0 \<le> y" "is_finite (x + y)"
  shows "is_finite x \<and> is_finite y \<and> (1 - f_unit) * (f_val x + f_val y) \<le> f_val (x + y)"
proof -
  obtain s a t b where xy: "x = Fin s a" "y = Fin t b"
    using assms(3-5) by (cases x; cases y) (auto simp: f_ops)
  have v: "f_val x = a" "f_val y = b" using assms(1-4) xy by (auto simp: f_ops split: if_splits)
  have ab: "0 \<le> a" "0 \<le> b" using assms xy by auto
  have "f_val (x + y) = round64 (a + b)"
    using assms(5) v ab b64.round_nonneg [of "a + b"]
    by (auto simp: xy f_ops f_of_def f_mk_eq Let_def split: if_splits)
  then show ?thesis using round_sum_lower assms(1,2) v xy by auto
qed

lemma foldl_lower:
  assumes "f_ok x" "f_of 0 \<le> x" "\<forall>y \<in> set ys. f_ok y \<and> f_of 0 \<le> y" "is_finite (foldl (+) x ys)"
  shows "is_finite x \<and> (\<forall>y \<in> set ys. is_finite y) \<and>
    (1 - f_unit) ^ length ys * (f_val x + sum_list (map f_val ys)) \<le> f_val (foldl (+) x ys)"
  using assms
proof (induction ys arbitrary: x)
  case (Cons y ys)
  have xy: "f_ok (x + y)" "f_of 0 \<le> x + y" using Cons.prems by (auto intro: f_add_nonneg simp del: f_of_0)
  note IH = Cons.IH [OF xy]
  have fin: "is_finite (x + y)" using IH Cons.prems by simp
  note a = f_add_lower [OF _ _ _ _ fin]
  have ay: "is_finite x" "is_finite y" "(1 - f_unit) * (f_val x + f_val y) \<le> f_val (x + y)"
    using a Cons.prems by auto
  let ?S = "sum_list (map f_val ys)" and ?n = "length ys"
  have S: "0 \<le> ?S" using Cons.prems(3) f_val_nonneg by (intro sum_list_nonneg) auto
  have q: "0 \<le> (1 - f_unit) ^ ?n" using f_unit_bounds by simp
  have "(1 - f_unit) * (f_val x + f_val y + ?S) \<le> f_val (x + y) + ?S"
    using ay(3) mult_right_le_one_le [OF S, of "1 - f_unit"] f_unit_bounds
    by (simp only: distrib_left mult.commute [of ?S]) simp
  then have "(1 - f_unit) ^ ?n * ((1 - f_unit) * (f_val x + f_val y + ?S)) \<le>
      (1 - f_unit) ^ ?n * (f_val (x + y) + ?S)" using q by (rule mult_left_mono)
  also have "\<dots> \<le> f_val (foldl (+) (x + y) ys)" using IH Cons.prems by simp
  finally show ?case using ay IH Cons.prems by (simp add: mult.assoc mult.left_commute add.assoc)
qed simp

lemma f_sum_lower:
  assumes "\<forall>y \<in> set ys. f_ok y \<and> f_of 0 \<le> y" "is_finite (f_sum ys)"
  shows "(1 - f_unit) ^ length ys * sum_list (map f_val ys) \<le> f_val (f_sum ys)"
  using foldl_lower [of "Fin True 0" ys] assms by (simp add: f_sum_def f_ops)

lemma foldl_nonneg:
  "f_of 0 \<le> x \<Longrightarrow> \<forall>y \<in> set ys. f_of 0 \<le> y \<Longrightarrow> f_of 0 \<le> foldl (+) x ys"
  by (induction ys arbitrary: x) (auto intro: f_add_nonneg simp del: f_of_0)

lemma f_sum_nonneg: "\<forall>y \<in> set ys. f_of 0 \<le> y \<Longrightarrow> f_of 0 \<le> f_sum ys"
  unfolding f_sum_def by (rule foldl_nonneg) (auto simp: f_ops)

lemma f_ok_foldl: "f_ok x \<Longrightarrow> f_ok (foldl (+) x ys)"
  by (induction ys arbitrary: x) auto

lemma f_ok_sum [simp]: "f_ok (f_sum ys)"
  unfolding f_sum_def by (rule f_ok_foldl) simp

text \<open>A limit test of a rounded sum bounds the exact total.\<close>

lemma f_sum_limit:
  assumes "\<forall>y \<in> set ys. f_ok y \<and> f_of 0 \<le> y" "f_ok u" "f_of 0 \<le> u"
    and "\<not> l < f_sum ys + u" "is_finite l"
  shows "(1 - f_unit) ^ (length ys + 1) * (sum_list (map f_val ys) + f_val u) \<le> f_val l"
proof -
  have nn: "f_of 0 \<le> f_sum ys + u" using assms by (intro f_add_nonneg f_sum_nonneg) auto
  have "l \<noteq> NaN" using assms(5) by auto
  then have le: "f_sum ys + u \<le> l" using assms(4) nn f_le_nonan f_not_less by blast
  have fin: "is_finite (f_sum ys + u)" using nn le assms(5) by (cases l) (auto intro: f_between_finite)
  have e: "f_sum ys + u = f_sum (ys @ [u])" by (simp add: f_sum_def)
  have "(1 - f_unit) ^ length (ys @ [u]) * sum_list (map f_val (ys @ [u])) \<le> f_val (f_sum (ys @ [u]))"
    using assms fin e by (intro f_sum_lower) auto
  also have "\<dots> \<le> f_val l" using le fin assms(5) e by (simp add: f_le_val)
  finally show ?thesis by simp
qed

end
