(* ===== verification/Coordinator.thy ===== *)
theory Coordinator
  imports Core F64_Sum
begin

text \<open>
  The capacity coordinators of \<^verbatim>\<open>crates/coordinator/src/lib.rs\<close>: leases with a time to live on a pool,
  counted against a pool limit and, scoped, against a share of it.  The in-memory coordinator works
  under its mutex; the Valkey coordinator runs two Lua scripts, which the server executes
  atomically.  Clock readings, fresh ids, the iteration order of a hash table and the outcome of a
  network exchange are arguments.
\<close>

section \<open>Leases\<close>

record lease =
  lease_id :: uuid
  lease_pool :: string
  lease_units :: f64
  expires_at :: instant
  lease_scope :: "string option"

datatype coordinator_error = InvalidUnits | ClockError | RedisError | Unhealthy string

definition validate_limits :: "f64 \<Rightarrow> f64 \<Rightarrow> f64 \<Rightarrow> coordinator_error + unit" where
  "validate_limits pool_limit scope_limit units =
     (if \<not> is_finite pool_limit \<or> \<not> is_finite scope_limit \<or> \<not> is_finite units \<or>
         pool_limit < f_of 0 \<or> scope_limit < f_of 0 \<or> units < f_of 0
      then Inl InvalidUnits else Inr ())"

section \<open>The in-memory coordinator\<close>

type_synonym pool_leases = "(uuid \<times> f64 \<times> instant \<times> string option) list"
type_synonym lease_state = "string \<rightharpoonup> pool_leases"

definition entry_or_default :: "lease_state \<Rightarrow> string \<Rightarrow> pool_leases" where
  "entry_or_default st pool = (case st pool of None \<Rightarrow> [] | Some l \<Rightarrow> l)"

text \<open>\<^verbatim>\<open>leases.retain(|_, (_, expires, _)| *expires > now)\<close>\<close>

definition retain_live :: "instant \<Rightarrow> pool_leases \<Rightarrow> pool_leases" where
  "retain_live now leases = filter (\<lambda>(_, _, expires, _). now < expires) leases"

definition used_units :: "(pool_leases \<Rightarrow> pool_leases) \<Rightarrow> pool_leases \<Rightarrow> f64" where
  "used_units ord leases = f_sum (map (\<lambda>(_, u, _, _). u) (ord leases))"

definition scope_units :: "(pool_leases \<Rightarrow> pool_leases) \<Rightarrow> string \<Rightarrow> pool_leases \<Rightarrow> f64" where
  "scope_units ord scope leases =
     f_sum (map (\<lambda>(_, u, _, _). u) (filter (\<lambda>(_, _, _, sc). sc = Some scope) (ord leases)))"

definition mem_reserve ::
  "(pool_leases \<Rightarrow> pool_leases) \<Rightarrow> instant \<Rightarrow> uuid \<Rightarrow> string \<Rightarrow> f64 \<Rightarrow> f64 \<Rightarrow> duration \<Rightarrow> lease_state
     \<Rightarrow> (coordinator_error + lease option) \<times> lease_state" where
  "mem_reserve ord now new_id pool limit units ttl st =
     (if \<not> is_finite units \<or> units < f_of 0 then (Inl InvalidUnits, st)
      else
        let leases = retain_live now (entry_or_default st pool);
            used = used_units ord leases
        in if limit < used + units then (Inr None, st(pool \<mapsto> leases))
           else let l = \<lparr>lease_id = new_id, lease_pool = pool, lease_units = units,
                         expires_at = now + ttl, lease_scope = None\<rparr>
                in (Inr (Some l), st(pool \<mapsto> AList.update new_id (units, now + ttl, None) leases)))"

definition mem_reserve_scoped ::
  "(pool_leases \<Rightarrow> pool_leases) \<Rightarrow> instant \<Rightarrow> uuid \<Rightarrow> string \<Rightarrow> string \<Rightarrow> f64 \<Rightarrow> f64 \<Rightarrow> f64 \<Rightarrow> duration
     \<Rightarrow> lease_state \<Rightarrow> (coordinator_error + lease option) \<times> lease_state" where
  "mem_reserve_scoped ord now new_id pool scope pool_limit scope_limit units ttl st =
     (case validate_limits pool_limit scope_limit units of
        Inl e \<Rightarrow> (Inl e, st)
      | Inr _ \<Rightarrow>
        let leases = retain_live now (entry_or_default st pool);
            used = used_units ord leases;
            scope_used = scope_units ord scope leases
        in if pool_limit < used + units \<or> scope_limit < scope_used + units
           then (Inr None, st(pool \<mapsto> leases))
           else let l = \<lparr>lease_id = new_id, lease_pool = pool, lease_units = units,
                         expires_at = now + ttl, lease_scope = Some scope\<rparr>
                in (Inr (Some l), st(pool \<mapsto> AList.update new_id (units, now + ttl, Some scope) leases)))"

definition mem_release :: "lease \<Rightarrow> lease_state \<Rightarrow> lease_state" where
  "mem_release l st =
     (case st (lease_pool l) of
        None \<Rightarrow> st
      | Some pool \<Rightarrow> st(lease_pool l \<mapsto> AList.delete (lease_id l) pool))"

definition mem_renew :: "instant \<Rightarrow> lease \<Rightarrow> duration \<Rightarrow> lease_state \<Rightarrow> bool \<times> lease_state" where
  "mem_renew now l ttl st =
     (case st (lease_pool l) of
        None \<Rightarrow> (False, st)
      | Some pool \<Rightarrow>
          (case map_of pool (lease_id l) of
             None \<Rightarrow> (False, st)
           | Some (u, _, sc) \<Rightarrow>
               (True, st(lease_pool l \<mapsto> AList.update (lease_id l) (u, now + ttl, sc) pool))))"

section \<open>The Valkey coordinator\<close>

text \<open>
  A hash per pool key, from lease id to the text \<^verbatim>\<open>units:expiry:scope\<close>.  \<open>tonumber\<close> and \<open>tostring\<close> are
  Lua's conversions; an exchange with the server may not reach it, or its reply may be lost.
\<close>

type_synonym valkey_hash = "(uuid \<times> string) list"
type_synonym valkey_state = "string \<rightharpoonup> valkey_hash"

datatype link = Delivered | Unreachable | ReplyLost

definition valkey_key :: "string \<Rightarrow> string \<Rightarrow> string" where
  "valkey_key namespace pool = namespace @ '':leases:'' @ pool"

definition hgetall :: "valkey_state \<Rightarrow> string \<Rightarrow> valkey_hash" where
  "hgetall st key = (case st key of None \<Rightarrow> [] | Some h \<Rightarrow> h)"

text \<open>The three parts of a value, as the two \<^verbatim>\<open>string.find\<close> calls cut it.\<close>

definition lua_parts :: "string \<Rightarrow> (string \<times> string \<times> string) option" where
  "lua_parts v =
     (case split_colon v of
        None \<Rightarrow> None
      | Some (a, r) \<Rightarrow> (case split_colon r of None \<Rightarrow> None | Some (e, sc) \<Rightarrow> Some (a, e, sc)))"

text \<open>
  The loop of the reservation script: the units in use, those of the scope, and the expired fields
  it has deleted.  \<^verbatim>\<open>Inl\<close> is a Lua error, which leaves the deletions made so far.
\<close>

fun lua_scan ::
  "(string \<Rightarrow> f64 option) \<Rightarrow> f64 \<Rightarrow> string \<Rightarrow> valkey_hash \<Rightarrow> f64 \<Rightarrow> f64 \<Rightarrow> uuid list
     \<Rightarrow> uuid list + (f64 \<times> f64 \<times> uuid list)" where
  "lua_scan tonumber now scope [] used scope_used del = Inr (used, scope_used, del)"
| "lua_scan tonumber now scope ((f, v) # es) used scope_used del =
     (case lua_parts v of
        None \<Rightarrow> Inl del
      | Some (a, e, sc) \<Rightarrow>
          (case tonumber e of
             None \<Rightarrow> Inl del
           | Some expires \<Rightarrow>
               if expires \<le> now then lua_scan tonumber now scope es used scope_used (f # del)
               else (case tonumber a of
                       None \<Rightarrow> Inl del
                     | Some amount \<Rightarrow>
                         lua_scan tonumber now scope es (used + amount)
                           (if sc = scope then scope_used + amount else scope_used) del)))"

definition hdel :: "uuid list \<Rightarrow> valkey_hash \<Rightarrow> valkey_hash" where
  "hdel fs h = filter (\<lambda>(f, _). f \<notin> set fs) h"

text \<open>\<^verbatim>\<open>RESERVE_SCRIPT\<close>: its reply (\<^verbatim>\<open>None\<close> for a Lua error), the hash, and the key's new time to live.\<close>

definition reserve_script ::
  "(string \<Rightarrow> f64 option) \<Rightarrow> (f64 \<Rightarrow> string) \<Rightarrow> (valkey_hash \<Rightarrow> valkey_hash)
     \<Rightarrow> f64 \<Rightarrow> f64 \<Rightarrow> f64 \<Rightarrow> uuid \<Rightarrow> f64 \<Rightarrow> string \<Rightarrow> f64 \<Rightarrow> valkey_hash
     \<Rightarrow> int option \<times> valkey_hash \<times> f64 option" where
  "reserve_script tonumber tostring ord now limit units lease_arg expiry scope scope_limit h =
     (case lua_scan tonumber now scope (ord h) (f_of 0) (f_of 0) [] of
        Inl del \<Rightarrow> (None, hdel del h, None)
      | Inr (used, scope_used, del) \<Rightarrow>
          if limit < used + units \<or> scope_limit < scope_used + units then (Some 0, hdel del h, None)
          else (Some 1,
                AList.update lease_arg (tostring units @ '':'' @ tostring expiry @ '':'' @ scope) (hdel del h),
                Some (f_max (f_of 1000) (expiry - now + f_of 1000))))"

definition millis_u64 :: "duration \<Rightarrow> nat" where
  "millis_u64 d = min (d div 1000000) u64_max"

text \<open>\<^verbatim>\<open>unix\<close> is the system time since the epoch, absent when the clock precedes it.\<close>

definition valkey_reserve_scoped ::
  "(string \<Rightarrow> f64 option) \<Rightarrow> (f64 \<Rightarrow> string) \<Rightarrow> (valkey_hash \<Rightarrow> valkey_hash) \<Rightarrow> string \<Rightarrow> link
     \<Rightarrow> duration option \<Rightarrow> instant \<Rightarrow> uuid \<Rightarrow> string \<Rightarrow> string \<Rightarrow> f64 \<Rightarrow> f64 \<Rightarrow> f64 \<Rightarrow> duration
     \<Rightarrow> valkey_state \<Rightarrow> (coordinator_error + lease option) \<times> valkey_state" where
  "valkey_reserve_scoped tonumber tostring ord ns net unix inst new_id pool scope limit scope_limit units ttl st =
     (case validate_limits limit scope_limit units of
        Inl e \<Rightarrow> (Inl e, st)
      | Inr _ \<Rightarrow>
     (case unix of
        None \<Rightarrow> (Inl ClockError, st)
      | Some d \<Rightarrow>
          let now = (d div 1000000) mod 2 ^ 64;
              key = valkey_key ns pool;
              (reply, h, _) = reserve_script tonumber tostring ord (f_of_nat now) limit units new_id
                 (f_of_nat (saturating_add now (millis_u64 ttl))) scope scope_limit (hgetall st key);
              l = \<lparr>lease_id = new_id, lease_pool = pool, lease_units = units, expires_at = inst + ttl,
                   lease_scope = (if scope = [] then None else Some scope)\<rparr>
          in (case net of
                Unreachable \<Rightarrow> (Inl RedisError, st)
              | ReplyLost \<Rightarrow> (Inl RedisError, st(key \<mapsto> h))
              | Delivered \<Rightarrow>
                  ((case reply of
                      None \<Rightarrow> Inl RedisError
                    | Some n \<Rightarrow> Inr (if n = 1 then Some l else None)), st(key \<mapsto> h)))))"

definition valkey_reserve where
  "valkey_reserve tonumber tostring ord ns net unix inst new_id pool limit units ttl st =
     (if \<not> is_finite units \<or> units < f_of 0 then (Inl InvalidUnits, st)
      else valkey_reserve_scoped tonumber tostring ord ns net unix inst new_id pool [] limit limit units ttl st)"

definition valkey_release ::
  "string \<Rightarrow> link \<Rightarrow> lease \<Rightarrow> valkey_state \<Rightarrow> (coordinator_error + unit) \<times> valkey_state" where
  "valkey_release ns net l st =
     (let key = valkey_key ns (lease_pool l);
          st' = st(key \<mapsto> hdel [lease_id l] (hgetall st key))
      in (case net of
            Unreachable \<Rightarrow> (Inl RedisError, st)
          | ReplyLost \<Rightarrow> (Inl RedisError, st')
          | Delivered \<Rightarrow> (Inr (), st')))"

text \<open>The renewal script: the expiry is written as the client sent it, the amount is kept as text.\<close>

definition renew_script ::
  "uuid \<Rightarrow> string \<Rightarrow> valkey_hash \<Rightarrow> int option \<times> valkey_hash" where
  "renew_script f expiry h =
     (case map_of h f of
        None \<Rightarrow> (Some 0, h)
      | Some v \<Rightarrow>
          (case lua_parts v of
             None \<Rightarrow> (None, h)
           | Some (a, _, sc) \<Rightarrow> (Some 1, AList.update f (a @ '':'' @ expiry @ '':'' @ sc) h)))"

definition valkey_renew ::
  "string \<Rightarrow> link \<Rightarrow> duration option \<Rightarrow> lease \<Rightarrow> duration \<Rightarrow> valkey_state
     \<Rightarrow> (coordinator_error + bool) \<times> valkey_state" where
  "valkey_renew ns net unix l ttl st =
     (case unix of
        None \<Rightarrow> (Inl ClockError, st)
      | Some d \<Rightarrow>
          let now = (d div 1000000) mod 2 ^ 64;
              key = valkey_key ns (lease_pool l);
              (reply, h) = renew_script (lease_id l)
                 (nat_to_dec (saturating_add now (millis_u64 ttl))) (hgetall st key)
          in (case net of
                Unreachable \<Rightarrow> (Inl RedisError, st)
              | ReplyLost \<Rightarrow> (Inl RedisError, st(key \<mapsto> h))
              | Delivered \<Rightarrow>
                  ((case reply of None \<Rightarrow> Inl RedisError | Some n \<Rightarrow> Inr (n = 1)), st(key \<mapsto> h))))"

definition valkey_healthy :: "string option \<Rightarrow> coordinator_error + unit" where
  "valkey_healthy reply =
     (case reply of
        None \<Rightarrow> Inl RedisError
      | Some pong \<Rightarrow> if pong = ''PONG'' then Inr () else Inl (Unhealthy pong))"

end
