(* ===== verification/Lease_Ledger.thy ===== *)
theory Lease_Ledger
  imports Prelude
begin

text \<open>
  The contract of the \<^verbatim>\<open>Coordinator\<close> trait for leases of whole units, as the proxy uses it for concurrency
  slots: a lease is granted exactly when the unexpired leases leave room for it, in the pool and in
  its scope; releasing forgets a lease; renewing moves its expiry.  What a client may conclude over
  any sequence of calls is proved here once, for every implementation.
\<close>

section \<open>Entries\<close>

text \<open>A lease: its id, its units, its expiry, and its scope, empty for an unscoped lease.\<close>

type_synonym ledger_entry = "uuid \<times> nat \<times> nat \<times> string"

definition slots :: "ledger_entry multiset \<Rightarrow> nat" where
  "slots M = sum_mset (image_mset (\<lambda>(_, k, _, _). k) M)"

definition live :: "nat \<Rightarrow> ledger_entry multiset \<Rightarrow> ledger_entry multiset" where
  "live now M = filter_mset (\<lambda>(_, _, e, _). now < e) M"

definition scoped :: "string \<Rightarrow> ledger_entry multiset \<Rightarrow> ledger_entry multiset" where
  "scoped sc M = filter_mset (\<lambda>(_, _, _, s). s = sc) M"

text \<open>Totals up to here are exact in every representation: below \<open>10 ^ 14\<close> and below \<open>2 ^ 53\<close>.\<close>

definition slot_max :: nat where
  "slot_max = 2 ^ 46"

lemma slots_simps [simp]:
  "slots {#} = 0" "slots (add_mset (i, k, e, s) M) = k + slots M" "slots (M + N) = slots M + slots N"
  by (simp_all add: slots_def)

lemma scoped_simps [simp]:
  "scoped sc {#} = {#}" "scoped sc (M + N) = scoped sc M + scoped sc N"
  "scoped sc (add_mset (i, k, e, s) M) = (if s = sc then add_mset (i, k, e, s) (scoped sc M) else scoped sc M)"
  by (simp_all add: scoped_def)

lemma live_simps [simp]:
  "live now {#} = {#}"
  "live now (add_mset (i, k, e, s) M) = (if now < e then add_mset (i, k, e, s) (live now M) else live now M)"
  by (simp_all add: live_def)

lemma slots_filter_le: "slots (filter_mset P M) \<le> slots M"
proof (induction M)
  case (add x M)
  then show ?case by (cases x) auto
qed simp

lemma slots_live_le: "slots (live now M) \<le> slots M"
  unfolding live_def by (rule slots_filter_le)

lemma slots_scoped_live_le: "slots (scoped sc (live now M)) \<le> slots (scoped sc M)"
  unfolding live_def scoped_def
  using slots_filter_le [of "\<lambda>(_, _, e, _). now < e" "filter_mset (\<lambda>(_, _, _, s). s = sc) M"]
  by (simp add: filter_filter_mset conj_commute case_prod_beta)

lemma slots_scoped_filter_le: "slots (scoped sc (filter_mset P M)) \<le> slots (scoped sc M)"
  unfolding scoped_def
  using slots_filter_le [of P "filter_mset (\<lambda>(_, _, _, s). s = sc) M"]
  by (simp add: filter_filter_mset conj_commute)

text \<open>Moving an expiry changes no total.\<close>

abbreviation moved :: "uuid \<Rightarrow> nat \<Rightarrow> ledger_entry multiset \<Rightarrow> ledger_entry multiset" where
  "moved i x M \<equiv> image_mset (\<lambda>(j, k, e, s). (j, k, if j = i then x else e, s)) M"

lemma slots_moved: "slots (moved i x M) = slots M" "slots (scoped sc (moved i x M)) = slots (scoped sc M)"
  by (induction M) auto

lemma moved_mem: "(i, k, e, s) \<in># M \<Longrightarrow> (i, k, if i = j then x else e, s) \<in># moved j x M"
  unfolding set_image_mset by (rule image_eqI [of _ _ "(i, k, e, s)"]) auto

section \<open>Calls\<close>

datatype lease_op =
    LeaseReserve nat uuid string nat nat nat
  | LeaseScoped nat uuid string string nat nat nat nat
  | LeaseRelease uuid string
  | LeaseRenew nat uuid string nat

fun ledger_step where
  "ledger_step grant grant_scoped forget extend (LeaseReserve now i p l k ttl) s = snd (grant now i p l k ttl s)"
| "ledger_step grant grant_scoped forget extend (LeaseScoped now i p sc l sl k ttl) s =
     snd (grant_scoped now i p sc l sl k ttl s)"
| "ledger_step grant grant_scoped forget extend (LeaseRelease i p) s = forget i p s"
| "ledger_step grant grant_scoped forget extend (LeaseRenew now i p ttl) s = snd (extend now i p ttl s)"

definition ledger_run where
  "ledger_run grant grant_scoped forget extend ops s =
     foldl (\<lambda>s op. ledger_step grant grant_scoped forget extend op s) s ops"

fun new_ids :: "lease_op list \<Rightarrow> uuid list" where
  "new_ids [] = []"
| "new_ids (LeaseReserve _ i _ _ _ _ # ops) = i # new_ids ops"
| "new_ids (LeaseScoped _ i _ _ _ _ _ _ # ops) = i # new_ids ops"
| "new_ids (_ # ops) = new_ids ops"

lemma new_ids_Cons: "new_ids (op # ops) = new_ids [op] @ new_ids ops"
  by (cases op) auto

text \<open>
  Calls that respect one limit per pool and one per scope of a pool, at times the implementation
  can represent.
\<close>

fun op_within ::
  "(nat \<Rightarrow> nat \<Rightarrow> bool) \<Rightarrow> (string \<Rightarrow> nat) \<Rightarrow> (string \<Rightarrow> string \<Rightarrow> nat) \<Rightarrow> lease_op \<Rightarrow> bool" where
  "op_within time_ok L SL (LeaseReserve now _ p l k ttl) \<longleftrightarrow>
     time_ok now ttl \<and> l \<le> L p \<and> l \<le> slot_max \<and> k \<le> slot_max"
| "op_within time_ok L SL (LeaseScoped now _ p sc l sl k ttl) \<longleftrightarrow>
     time_ok now ttl \<and> sc \<noteq> [] \<and> l \<le> L p \<and> l \<le> slot_max \<and> sl \<le> SL p sc \<and> sl \<le> slot_max \<and> k \<le> slot_max"
| "op_within time_ok L SL (LeaseRelease _ _) \<longleftrightarrow> True"
| "op_within time_ok L SL (LeaseRenew now _ _ ttl) \<longleftrightarrow> time_ok now ttl"

text \<open>
  Calls under which a lease is never left alone for longer than \<open>gap\<close>: at every timed call the lease was last
  renewed, for \<open>d\<close>, at most \<open>gap\<close> earlier, and nobody releases it or takes its id.  \<open>last_renewal\<close> is the time of its
  last renewal.
\<close>

fun kept_alive :: "nat \<Rightarrow> nat \<Rightarrow> uuid \<Rightarrow> string \<Rightarrow> nat \<Rightarrow> lease_op list \<Rightarrow> bool" where
  "kept_alive gap d i p r [] \<longleftrightarrow> True"
| "kept_alive gap d i p r (LeaseReserve now j q _ _ _ # ops) \<longleftrightarrow>
     now \<le> r + gap \<and> j \<noteq> i \<and> kept_alive gap d i p r ops"
| "kept_alive gap d i p r (LeaseScoped now j q _ _ _ _ _ # ops) \<longleftrightarrow>
     now \<le> r + gap \<and> j \<noteq> i \<and> kept_alive gap d i p r ops"
| "kept_alive gap d i p r (LeaseRelease j q # ops) \<longleftrightarrow> (j, q) \<noteq> (i, p) \<and> kept_alive gap d i p r ops"
| "kept_alive gap d i p r (LeaseRenew now j q ttl # ops) \<longleftrightarrow>
     now \<le> r + gap \<and> (if (j, q) = (i, p) then ttl = d \<and> kept_alive gap d i p now ops else kept_alive gap d i p r ops)"

fun last_renewal :: "uuid \<Rightarrow> string \<Rightarrow> nat \<Rightarrow> lease_op list \<Rightarrow> nat" where
  "last_renewal i p r [] = r"
| "last_renewal i p r (LeaseRenew now j q _ # ops) = last_renewal i p (if (j, q) = (i, p) then now else r) ops"
| "last_renewal i p r (_ # ops) = last_renewal i p r ops"

section \<open>The contract\<close>

locale lease_ledger =
  fixes entries :: "'s \<Rightarrow> string \<Rightarrow> ledger_entry multiset"
    and ok :: "'s \<Rightarrow> bool"
    and time_ok :: "nat \<Rightarrow> nat \<Rightarrow> bool"
    and expiry :: "nat \<Rightarrow> nat \<Rightarrow> nat"
    and grant :: "nat \<Rightarrow> uuid \<Rightarrow> string \<Rightarrow> nat \<Rightarrow> nat \<Rightarrow> nat \<Rightarrow> 's \<Rightarrow> bool \<times> 's"
    and grant_scoped :: "nat \<Rightarrow> uuid \<Rightarrow> string \<Rightarrow> string \<Rightarrow> nat \<Rightarrow> nat \<Rightarrow> nat \<Rightarrow> nat \<Rightarrow> 's \<Rightarrow> bool \<times> 's"
    and forget :: "uuid \<Rightarrow> string \<Rightarrow> 's \<Rightarrow> 's"
    and extend :: "nat \<Rightarrow> uuid \<Rightarrow> string \<Rightarrow> nat \<Rightarrow> 's \<Rightarrow> bool \<times> 's"
  assumes grant_spec:
    "ok s \<Longrightarrow> time_ok now ttl \<Longrightarrow> l \<le> slot_max \<Longrightarrow> k \<le> slot_max \<Longrightarrow> i \<notin># image_mset fst (entries s p) \<Longrightarrow>
     grant now i p l k ttl s = (b, t) \<Longrightarrow>
     ok t \<and> (b \<longleftrightarrow> slots (live now (entries s p)) + k \<le> l) \<and>
     entries t = (entries s)(p :=
       (if b then {#(i, k, expiry now ttl, [])#} else {#}) + live now (entries s p))"
    and grant_scoped_spec:
    "ok s \<Longrightarrow> time_ok now ttl \<Longrightarrow> sc \<noteq> [] \<Longrightarrow> l \<le> slot_max \<Longrightarrow> sl \<le> slot_max \<Longrightarrow> k \<le> slot_max \<Longrightarrow>
     i \<notin># image_mset fst (entries s p) \<Longrightarrow> grant_scoped now i p sc l sl k ttl s = (b, t) \<Longrightarrow>
     ok t \<and> (b \<longleftrightarrow> slots (live now (entries s p)) + k \<le> l \<and> slots (scoped sc (live now (entries s p))) + k \<le> sl) \<and>
     entries t = (entries s)(p :=
       (if b then {#(i, k, expiry now ttl, sc)#} else {#}) + live now (entries s p))"
    and forget_spec:
    "ok s \<Longrightarrow> ok (forget i p s) \<and>
     entries (forget i p s) = (entries s)(p := filter_mset (\<lambda>e. fst e \<noteq> i) (entries s p))"
    and extend_spec:
    "ok s \<Longrightarrow> time_ok now ttl \<Longrightarrow> extend now i p ttl s = (b, t) \<Longrightarrow>
     ok t \<and> (b \<longleftrightarrow> i \<in># image_mset fst (entries s p)) \<and>
     entries t = (entries s)(p := moved i (expiry now ttl) (entries s p))"
begin

text \<open>Every pool is within its limit, expired leases included, and so is every scope.\<close>

definition in_limits :: "(string \<Rightarrow> nat) \<Rightarrow> (string \<Rightarrow> string \<Rightarrow> nat) \<Rightarrow> 's \<Rightarrow> bool" where
  "in_limits L SL s \<longleftrightarrow> (\<forall>p. slots (entries s p) \<le> L p \<and>
     (\<forall>sc. sc \<noteq> [] \<longrightarrow> slots (scoped sc (entries s p)) \<le> SL p sc))"

definition ids :: "'s \<Rightarrow> uuid set" where
  "ids s = {i. \<exists>p. i \<in># image_mset fst (entries s p)}"

lemma within_updI:
  assumes "in_limits L SL s" "entries t = (entries s)(p := M)" "slots M \<le> L p"
    and "\<And>sc. sc \<noteq> [] \<Longrightarrow> slots (scoped sc M) \<le> SL p sc"
  shows "in_limits L SL t"
  using assms by (auto simp: in_limits_def)

lemma ids_updI:
  assumes "entries t = (entries s)(p := M)" "set_mset (image_mset fst M) \<subseteq> A \<union> ids s"
  shows "ids t \<subseteq> A \<union> ids s"
  using assms by (auto simp: ids_def split: if_splits)

lemma step_reserve:
  assumes "ok s" "in_limits L SL s" "op_within time_ok L SL (LeaseReserve now i p l k ttl)" "i \<notin> ids s"
    and "grant now i p l k ttl s = (b, t)"
  shows "ok t \<and> in_limits L SL t \<and> ids t \<subseteq> {i} \<union> ids s"
proof -
  have i: "i \<notin># image_mset fst (entries s p)" using assms(4) by (auto simp: ids_def)
  let ?M = "(if b then {#(i, k, expiry now ttl, [])#} else {#}) + live now (entries s p)"
  have t: "ok t" "b \<longleftrightarrow> slots (live now (entries s p)) + k \<le> l" "entries t = (entries s)(p := ?M)"
    using grant_spec [OF assms(1) _ _ _ i assms(5)] assms(3) by auto
  have w: "slots (entries s p) \<le> L p" "\<And>sc. sc \<noteq> [] \<Longrightarrow> slots (scoped sc (entries s p)) \<le> SL p sc"
    using assms(2) by (auto simp: in_limits_def)
  have "in_limits L SL t"
  proof (rule within_updI [OF assms(2) t(3)])
    show "slots ?M \<le> L p" using t(2) assms(3) slots_live_le [of now "entries s p"] w(1) by auto
    show "slots (scoped sc ?M) \<le> SL p sc" if "sc \<noteq> []" for sc
      using slots_scoped_live_le [of sc now "entries s p"] w(2) [OF that] that by auto
  qed
  moreover have "ids t \<subseteq> {i} \<union> ids s"
    by (rule ids_updI [OF t(3)]) (auto simp: ids_def live_def)
  ultimately show ?thesis using t(1) by blast
qed

lemma step_scoped:
  assumes "ok s" "in_limits L SL s" "op_within time_ok L SL (LeaseScoped now i p sc l sl k ttl)" "i \<notin> ids s"
    and "grant_scoped now i p sc l sl k ttl s = (b, t)"
  shows "ok t \<and> in_limits L SL t \<and> ids t \<subseteq> {i} \<union> ids s"
proof -
  have i: "i \<notin># image_mset fst (entries s p)" using assms(4) by (auto simp: ids_def)
  let ?M = "(if b then {#(i, k, expiry now ttl, sc)#} else {#}) + live now (entries s p)"
  have t: "ok t" "entries t = (entries s)(p := ?M)"
    "b \<longleftrightarrow> slots (live now (entries s p)) + k \<le> l \<and> slots (scoped sc (live now (entries s p))) + k \<le> sl"
    using grant_scoped_spec [OF assms(1) _ _ _ _ _ i assms(5)] assms(3) by auto
  have w: "slots (entries s p) \<le> L p" "\<And>sc. sc \<noteq> [] \<Longrightarrow> slots (scoped sc (entries s p)) \<le> SL p sc"
    using assms(2) by (auto simp: in_limits_def)
  have "in_limits L SL t"
  proof (rule within_updI [OF assms(2) t(2)])
    show "slots ?M \<le> L p" using t(3) assms(3) slots_live_le [of now "entries s p"] w(1) by auto
    show "slots (scoped sc' ?M) \<le> SL p sc'" if "sc' \<noteq> []" for sc'
      using slots_scoped_live_le [of sc' now "entries s p"] w(2) [OF that] t(3) assms(3)
      by (cases "sc' = sc") auto
  qed
  moreover have "ids t \<subseteq> {i} \<union> ids s"
    by (rule ids_updI [OF t(2)]) (auto simp: ids_def live_def)
  ultimately show ?thesis using t(1) by blast
qed

lemma step_release:
  assumes "ok s" "in_limits L SL s"
  shows "ok (forget i p s) \<and> in_limits L SL (forget i p s) \<and> ids (forget i p s) \<subseteq> {} \<union> ids s"
proof -
  let ?M = "filter_mset (\<lambda>e. fst e \<noteq> i) (entries s p)"
  have t: "ok (forget i p s)" "entries (forget i p s) = (entries s)(p := ?M)" using forget_spec [OF assms(1)] by auto
  have w: "slots (entries s p) \<le> L p" "\<And>sc. sc \<noteq> [] \<Longrightarrow> slots (scoped sc (entries s p)) \<le> SL p sc"
    using assms(2) by (auto simp: in_limits_def)
  have "in_limits L SL (forget i p s)"
    by (rule within_updI [OF assms(2) t(2)])
      (use w slots_filter_le slots_scoped_filter_le le_trans in blast)+
  moreover have "ids (forget i p s) \<subseteq> {} \<union> ids s"
    by (rule ids_updI [OF t(2)]) (auto simp: ids_def)
  ultimately show ?thesis using t(1) by blast
qed

lemma step_renew:
  assumes "ok s" "in_limits L SL s" "time_ok now ttl" "extend now i p ttl s = (b, t)"
  shows "ok t \<and> in_limits L SL t \<and> ids t \<subseteq> {} \<union> ids s"
proof -
  let ?M = "moved i (expiry now ttl) (entries s p)"
  have t: "ok t" "entries t = (entries s)(p := ?M)" using extend_spec [OF assms(1,3,4)] by auto
  have "in_limits L SL t"
    by (rule within_updI [OF assms(2) t(2)]) (use assms(2) in \<open>auto simp: in_limits_def slots_moved\<close>)
  moreover have "ids t \<subseteq> {} \<union> ids s"
    by (rule ids_updI [OF t(2)]) (force simp: ids_def)
  ultimately show ?thesis using t(1) by blast
qed

text \<open>No sequence of calls lets a pool or a scope exceed its limit.\<close>

lemma step_within:
  assumes "ok s" "in_limits L SL s" "set (new_ids [op]) \<inter> ids s = {}" "op_within time_ok L SL op"
  defines "t \<equiv> ledger_step grant grant_scoped forget extend op s"
  shows "ok t \<and> in_limits L SL t \<and> ids t \<subseteq> set (new_ids [op]) \<union> ids s"
proof (cases op)
  case (LeaseReserve now i p l k ttl)
  with assms show ?thesis
    using step_reserve [of s L SL now i p l k ttl "fst (grant now i p l k ttl s)" t] by auto
next
  case (LeaseScoped now i p sc l sl k ttl)
  with assms show ?thesis
    using step_scoped [of s L SL now i p sc l sl k ttl "fst (grant_scoped now i p sc l sl k ttl s)" t] by auto
next
  case (LeaseRelease i p)
  with assms show ?thesis using step_release [of s L SL i p] by auto
next
  case (LeaseRenew now i p ttl)
  with assms show ?thesis
    using step_renew [of s L SL now ttl i p "fst (extend now i p ttl s)" t] by auto
qed

lemma run_within:
  assumes "ok s" "in_limits L SL s" "distinct (new_ids ops)" "set (new_ids ops) \<inter> ids s = {}"
    and "\<forall>op \<in> set ops. op_within time_ok L SL op"
  shows "ok (ledger_run grant grant_scoped forget extend ops s) \<and>
    in_limits L SL (ledger_run grant grant_scoped forget extend ops s)"
  using assms
proof (induction ops arbitrary: s)
  case (Cons op ops)
  let ?t = "ledger_step grant grant_scoped forget extend op s"
  have n: "new_ids (op # ops) = new_ids [op] @ new_ids ops" by (rule new_ids_Cons)
  have "ok ?t \<and> in_limits L SL ?t \<and> ids ?t \<subseteq> set (new_ids [op]) \<union> ids s"
    using Cons.prems unfolding n by (intro step_within) auto
  then show ?case
    using Cons.IH [of ?t] Cons.prems unfolding n by (fastforce simp: ledger_run_def)
qed (simp add: ledger_run_def)

text \<open>A lease renewed before its time runs out stays in the ledger, whatever else is called.\<close>

lemma run_keeps:
  assumes "ok s" "in_limits L SL s" "distinct (new_ids ops)" "set (new_ids ops) \<inter> ids s = {}"
    and "\<forall>op \<in> set ops. op_within time_ok L SL op"
    and "\<And>now. expiry now d = now + d" "gap < d" "kept_alive gap d i p r ops" "(i, k, r + d, sc) \<in># entries s p"
  shows "(i, k, last_renewal i p r ops + d, sc) \<in># entries (ledger_run grant grant_scoped forget extend ops s) p"
  using assms(1-5,8,9)
proof (induction ops arbitrary: s r)
  case (Cons op ops)
  let ?t = "ledger_step grant grant_scoped forget extend op s"
  have n: "new_ids (op # ops) = new_ids [op] @ new_ids ops" by (rule new_ids_Cons)
  have t: "ok ?t \<and> in_limits L SL ?t \<and> ids ?t \<subseteq> set (new_ids [op]) \<union> ids s"
    using Cons.prems unfolding n by (intro step_within) auto
  have fresh: "i' \<notin># image_mset fst (entries s q)" if "i' \<in> set (new_ids [op])" for i' q
    using that Cons.prems(4) unfolding n by (auto simp: ids_def)
  let ?r = "last_renewal i p r [op]"
  have e: "(i, k, ?r + d, sc) \<in># entries ?t p"
  proof (cases op)
    case (LeaseReserve now j q l m ttl)
    then have b: "op_within time_ok L SL op" "now < r + d" using Cons.prems(5,6) assms(7) by auto
    obtain f u where g: "grant now j q l m ttl s = (f, u)" by (rule prod.exhaust)
    have "j \<notin># image_mset fst (entries s q)" by (rule fresh) (simp add: LeaseReserve)
    from grant_spec [OF Cons.prems(1) _ _ _ this g] b(1)
    have "entries ?t = (entries s)(q := (if f then {#(j, m, expiry now ttl, [])#} else {#}) + live now (entries s q))"
      by (simp add: LeaseReserve g)
    then show ?thesis using Cons.prems(7) b(2) by (cases "p = q") (simp_all add: LeaseReserve live_def)
  next
    case (LeaseScoped now j q sc' l sl m ttl)
    then have b: "op_within time_ok L SL op" "now < r + d" using Cons.prems(5,6) assms(7) by auto
    obtain f u where g: "grant_scoped now j q sc' l sl m ttl s = (f, u)" by (rule prod.exhaust)
    have "j \<notin># image_mset fst (entries s q)" by (rule fresh) (simp add: LeaseScoped)
    from grant_scoped_spec [OF Cons.prems(1) _ _ _ _ _ this g] b(1)
    have "entries ?t = (entries s)(q := (if f then {#(j, m, expiry now ttl, sc')#} else {#}) + live now (entries s q))"
      by (simp add: LeaseScoped g)
    then show ?thesis using Cons.prems(7) b(2) by (cases "p = q") (simp_all add: LeaseScoped live_def)
  next
    case (LeaseRelease j q)
    then show ?thesis using Cons.prems(6,7) forget_spec [OF Cons.prems(1), of j q] by auto
  next
    case (LeaseRenew now j q ttl)
    obtain f u where g: "extend now j q ttl s = (f, u)" by (rule prod.exhaust)
    have "time_ok now ttl" using Cons.prems(5) by (simp add: LeaseRenew)
    from extend_spec [OF Cons.prems(1) this g]
    have "entries ?t = (entries s)(q := moved j (expiry now ttl) (entries s q))" by (simp add: LeaseRenew g)
    moreover have "expiry now ttl = now + d" if "(j, q) = (i, p)"
      using that Cons.prems(6) assms(6) by (simp add: LeaseRenew)
    ultimately show ?thesis
      using moved_mem [OF Cons.prems(7), of j "expiry now ttl"] Cons.prems(7)
      by (cases "j = i"; cases "q = p") (simp_all add: LeaseRenew)
  qed
  have "kept_alive gap d i p ?r ops" using Cons.prems(6) by (cases op) (auto split: if_splits)
  moreover have "last_renewal i p r (op # ops) = last_renewal i p ?r ops" by (cases op) auto
  moreover have "distinct (new_ids ops)" "set (new_ids ops) \<inter> ids ?t = {}"
    using Cons.prems(3,4) t unfolding n distinct_append set_append by blast+
  ultimately show ?case
    using Cons.IH [of ?t ?r] Cons.prems(5) t e unfolding ledger_run_def by simp
qed (simp add: ledger_run_def)

end

end
