(* ===== verification/Coordinator_Memory.thy ===== *)
theory Coordinator_Memory
  imports Coordinator Lease_Ledger
begin

text \<open>
  The in-memory coordinator implements the lease contract: leases of whole units are counted
  exactly.  For arbitrary units the exact total of the unexpired leases exceeds the limit by no more
  than the rounding of the sum.
\<close>

section \<open>The contract's view of the state\<close>

definition scope_text :: "string option \<Rightarrow> string" where
  "scope_text sc = (case sc of None \<Rightarrow> [] | Some x \<Rightarrow> x)"

fun abs_entry :: "uuid \<times> f64 \<times> instant \<times> string option \<Rightarrow> ledger_entry" where
  "abs_entry (i, u, e, sc) = (i, nat \<lfloor>f_val u\<rfloor>, e, scope_text sc)"

definition mem_entries :: "lease_state \<Rightarrow> string \<Rightarrow> ledger_entry multiset" where
  "mem_entries st p = mset (map abs_entry (entry_or_default st p))"

fun entry_whole :: "uuid \<times> f64 \<times> instant \<times> string option \<Rightarrow> bool" where
  "entry_whole (i, u, e, sc) \<longleftrightarrow> u = f_of_nat (nat \<lfloor>f_val u\<rfloor>) \<and> sc \<noteq> Some []"

definition pool_ok :: "pool_leases \<Rightarrow> bool" where
  "pool_ok leases \<longleftrightarrow> hm_ok leases \<and> list_all entry_whole leases \<and>
     slots (mset (map abs_entry leases)) \<le> slot_max"

definition mem_ok :: "lease_state \<Rightarrow> bool" where
  "mem_ok st \<longleftrightarrow> (\<forall>p. pool_ok (entry_or_default st p))"

fun granted :: "(coordinator_error + lease option) \<times> 's \<Rightarrow> bool \<times> 's" where
  "granted (Inr (Some _), t) = (True, t)"
| "granted (_, t) = (False, t)"

definition mem_grant where
  "mem_grant ord now i p l k ttl st =
     granted (mem_reserve ord now i p (f_of_nat l) (f_of_nat k) ttl st)"

definition mem_grant_scoped where
  "mem_grant_scoped ord now i p sc l sl k ttl st =
     granted (mem_reserve_scoped ord now i p sc (f_of_nat l) (f_of_nat sl) (f_of_nat k) ttl st)"

definition lease_ref :: "uuid \<Rightarrow> string \<Rightarrow> lease" where
  "lease_ref i p = \<lparr>lease_id = i, lease_pool = p, lease_units = f_of 1, expires_at = 0, lease_scope = None\<rparr>"

definition mem_forget :: "uuid \<Rightarrow> string \<Rightarrow> lease_state \<Rightarrow> lease_state" where
  "mem_forget i p st = mem_release (lease_ref i p) st"

definition mem_extend :: "instant \<Rightarrow> uuid \<Rightarrow> string \<Rightarrow> duration \<Rightarrow> lease_state \<Rightarrow> bool \<times> lease_state" where
  "mem_extend now i p ttl st = mem_renew now (lease_ref i p) ttl st"

section \<open>Sums of whole units\<close>

lemma slot_max_exact: "a \<le> slot_max \<Longrightarrow> b \<le> slot_max \<Longrightarrow> a + b \<le> 2 ^ 53" "a \<le> slot_max \<Longrightarrow> a \<le> 2 ^ 53"
  by (simp_all add: slot_max_def)

lemma floor_whole: "k \<le> slot_max \<Longrightarrow> nat \<lfloor>f_val (f_of_nat k)\<rfloor> = k"
  using f_of_nat_val [OF slot_max_exact(2)] by simp

lemma slots_list: "slots (mset (map abs_entry es)) = sum_list (map (\<lambda>(_, u, _, _). nat \<lfloor>f_val u\<rfloor>) es)"
  by (induction es) (auto simp: slots_def)

lemma sum_whole:
  assumes "list_all entry_whole es"
  shows "f_sum (map (\<lambda>(_, u, _, _). u) es) =
    f_sum (map f_of_nat (map (\<lambda>(_, u, _, _). nat \<lfloor>f_val u\<rfloor>) es))"
  using assms by (intro arg_cong [where f = f_sum]) (auto simp: list_all_iff)

lemma limit_test:
  assumes "list_all entry_whole es" "slots (mset (map abs_entry es)) \<le> slot_max" "k \<le> slot_max" "l \<le> slot_max"
  shows "f_of_nat l < f_sum (map (\<lambda>(_, u, _, _). u) es) + f_of_nat k \<longleftrightarrow>
    \<not> slots (mset (map abs_entry es)) + k \<le> l"
  unfolding sum_whole [OF assms(1)] slots_list
  using f_sum_plus_whole [OF slot_max_exact(1) [OF assms(2) [unfolded slots_list] assms(3)]
      slot_max_exact(2) [OF assms(4)]] by (simp only: not_le)

lemma live_retain: "mset (map abs_entry (retain_live now es)) = live now (mset (map abs_entry es))"
  by (induction es) (auto simp: retain_live_def live_def)

lemma scoped_filter:
  assumes "list_all entry_whole es" "sc \<noteq> []"
  shows "mset (map abs_entry (filter (\<lambda>(_, _, _, s). s = Some sc) es)) = scoped sc (mset (map abs_entry es))"
  using assms by (induction es) (auto simp: scoped_def scope_text_def split: option.splits)

lemma pool_ok_retain:
  assumes "pool_ok es"
  shows "pool_ok (retain_live now es)"
proof -
  have "hm_ok (retain_live now es)"
    using assms by (auto simp: pool_ok_def hm_ok_def retain_live_def distinct_map_filter)
  moreover have "list_all entry_whole (retain_live now es)"
    using assms by (auto simp: pool_ok_def retain_live_def list_all_iff)
  moreover have "slots (mset (map abs_entry (retain_live now es))) \<le> slot_max"
    using assms slots_live_le [of now "mset (map abs_entry es)"] unfolding live_retain pool_ok_def by linarith
  ultimately show ?thesis by (simp add: pool_ok_def)
qed

lemma pool_ok_update:
  assumes "pool_ok es" "i \<notin> fst ` set es" "entry_whole (i, f_of_nat k, e, sc)" "k \<le> slot_max"
    and "slots (mset (map abs_entry es)) + k \<le> slot_max"
  shows "pool_ok (AList.update i (f_of_nat k, e, sc) es)"
    and "mset (map abs_entry (AList.update i (f_of_nat k, e, sc) es)) =
      add_mset (i, k, e, scope_text sc) (mset (map abs_entry es))"
proof -
  have ok: "hm_ok es" "list_all entry_whole es" using assms(1) by (auto simp: pool_ok_def)
  have m: "mset (AList.update i (f_of_nat k, e, sc) es) = add_mset (i, f_of_nat k, e, sc) (mset es)"
    using ok(1) assms(2) by (intro hm.mset_put_new) (auto simp: map_of_eq_None_iff)
  from m show A: "mset (map abs_entry (AList.update i (f_of_nat k, e, sc) es)) =
      add_mset (i, k, e, scope_text sc) (mset (map abs_entry es))"
    using floor_whole [OF assms(4)] by simp
  have "set (AList.update i (f_of_nat k, e, sc) es) = insert (i, f_of_nat k, e, sc) (set es)"
    using m by (metis set_mset_add_mset_insert set_mset_mset)
  then have "list_all entry_whole (AList.update i (f_of_nat k, e, sc) es)"
    using ok(2) assms(3) by (simp add: list_all_iff)
  then show "pool_ok (AList.update i (f_of_nat k, e, sc) es)"
    unfolding pool_ok_def A using ok(1) assms(5) by (simp add: hm.ok_put)
qed

lemma entry_default_upd: "entry_or_default (st(p \<mapsto> l)) = (entry_or_default st)(p := l)"
  by (auto simp: entry_or_default_def fun_eq_iff)

lemma mem_entries_upd: "mem_entries (st(p \<mapsto> l)) = (mem_entries st)(p := mset (map abs_entry l))"
  by (auto simp: mem_entries_def entry_default_upd fun_eq_iff)

lemma mem_ok_upd: "mem_ok st \<Longrightarrow> pool_ok l \<Longrightarrow> mem_ok (st(p \<mapsto> l))"
  by (auto simp: mem_ok_def entry_default_upd)

section \<open>The contract holds\<close>

locale mem_coordinator =
  fixes ord :: "pool_leases \<Rightarrow> pool_leases"
  assumes ord: "mset (ord es) = mset es"
begin

lemma ord_abs: "mset (map abs_entry (ord es)) = mset (map abs_entry es)"
  by (simp add: ord)

lemma ord_whole: "list_all entry_whole (ord es) = list_all entry_whole es"
  using ord by (metis list_all_iff set_mset_mset)

lemma ord_filter: "mset (map abs_entry (filter P (ord es))) = mset (map abs_entry (filter P es))"
  by (simp add: ord mset_filter)

lemma used_test:
  assumes "pool_ok es" "k \<le> slot_max" "l \<le> slot_max"
  shows "f_of_nat l < used_units ord es + f_of_nat k \<longleftrightarrow> \<not> slots (mset (map abs_entry es)) + k \<le> l"
  using assms limit_test [of "ord es" k l] unfolding used_units_def ord_abs ord_whole pool_ok_def by blast

lemma scope_test:
  assumes "pool_ok es" "k \<le> slot_max" "l \<le> slot_max" "sc \<noteq> []"
  shows "f_of_nat l < scope_units ord sc es + f_of_nat k \<longleftrightarrow>
    \<not> slots (scoped sc (mset (map abs_entry es))) + k \<le> l"
proof -
  let ?f = "filter (\<lambda>(_, _, _, s). s = Some sc) (ord es)"
  have w: "list_all entry_whole es" using assms(1) by (simp add: pool_ok_def)
  have e: "mset (map abs_entry ?f) = scoped sc (mset (map abs_entry es))"
    unfolding ord_filter using w assms(4) by (rule scoped_filter)
  have "list_all entry_whole ?f" using w ord_whole [of es] by (auto simp: list_all_iff)
  moreover have "slots (scoped sc (mset (map abs_entry es))) \<le> slots (mset (map abs_entry es))"
    unfolding scoped_def by (rule slots_filter_le)
  ultimately show ?thesis
    using limit_test [of ?f k l] assms unfolding e scope_units_def pool_ok_def by linarith
qed

lemma units_valid: "k \<le> slot_max \<Longrightarrow> is_finite (f_of_nat k) \<and> \<not> f_of_nat k < f_of 0"
  using f_of_nat_finite [OF slot_max_exact(2), of k] f_of_nat_nonneg [of k] f_not_less [of "f_of_nat k" "f_of 0"]
  by (simp add: f_of_nat_def)

lemma mem_grant_spec:
  assumes ok: "mem_ok s" and le: "l \<le> slot_max" "k \<le> slot_max"
    and fresh: "i \<notin># image_mset fst (mem_entries s p)" and g: "mem_grant ord now i p l k ttl s = (b, t)"
  shows "mem_ok t \<and> (b \<longleftrightarrow> slots (live now (mem_entries s p)) + k \<le> l) \<and>
     mem_entries t = (mem_entries s)(p :=
       (if b then {#(i, k, now + ttl, [])#} else {#}) + live now (mem_entries s p))"
proof -
  let ?es = "entry_or_default s p"
  let ?rs = "retain_live now ?es"
  have es: "pool_ok ?es" using ok by (simp add: mem_ok_def)
  then have rs: "pool_ok ?rs" by (rule pool_ok_retain)
  have L: "mset (map abs_entry ?rs) = live now (mem_entries s p)"
    unfolding live_retain mem_entries_def by simp
  have i: "i \<notin> fst ` set ?rs"
    using fresh by (force simp: mem_entries_def retain_live_def)
  note test = used_test [OF rs le(2,1), unfolded L]
  show ?thesis
  proof (cases "f_of_nat l < used_units ord ?rs + f_of_nat k")
    case True
    then have "b = False" "t = s(p \<mapsto> ?rs)"
      using g units_valid [OF le(2)] by (auto simp: mem_grant_def mem_reserve_def Let_def)
    with test True L show ?thesis using mem_ok_upd [OF ok rs] by (simp add: mem_entries_upd)
  next
    case False
    then have bt: "b = True" "t = s(p \<mapsto> AList.update i (f_of_nat k, now + ttl, None) ?rs)"
      using g units_valid [OF le(2)] by (auto simp: mem_grant_def mem_reserve_def Let_def)
    have fit: "slots (live now (mem_entries s p)) + k \<le> l" using test False by simp
    have w: "entry_whole (i, f_of_nat k, now + ttl, None)" using floor_whole [OF le(2)] by simp
    have "slots (mset (map abs_entry ?rs)) + k \<le> slot_max" unfolding L using fit le(1) by simp
    note u = pool_ok_update [OF rs i w le(2) this]
    show ?thesis
      using mem_ok_upd [OF ok u(1)] fit by (simp add: bt mem_entries_upd u(2) L scope_text_def del: mset_map)
  qed
qed

lemma mem_grant_scoped_spec:
  assumes ok: "mem_ok s" and sc: "sc \<noteq> []" and le: "l \<le> slot_max" "sl \<le> slot_max" "k \<le> slot_max"
    and fresh: "i \<notin># image_mset fst (mem_entries s p)"
    and g: "mem_grant_scoped ord now i p sc l sl k ttl s = (b, t)"
  shows "mem_ok t \<and> (b \<longleftrightarrow> slots (live now (mem_entries s p)) + k \<le> l \<and>
       slots (scoped sc (live now (mem_entries s p))) + k \<le> sl) \<and>
     mem_entries t = (mem_entries s)(p :=
       (if b then {#(i, k, now + ttl, sc)#} else {#}) + live now (mem_entries s p))"
proof -
  let ?es = "entry_or_default s p"
  let ?rs = "retain_live now ?es"
  have es: "pool_ok ?es" using ok by (simp add: mem_ok_def)
  then have rs: "pool_ok ?rs" by (rule pool_ok_retain)
  have L: "mset (map abs_entry ?rs) = live now (mem_entries s p)"
    unfolding live_retain mem_entries_def by simp
  have i: "i \<notin> fst ` set ?rs"
    using fresh by (force simp: mem_entries_def retain_live_def)
  have v: "validate_limits (f_of_nat l) (f_of_nat sl) (f_of_nat k) = Inr ()"
    using units_valid le by (simp add: validate_limits_def)
  note test = used_test [OF rs le(3,1), unfolded L] scope_test [OF rs le(3,2) sc, unfolded L]
  show ?thesis
  proof (cases "f_of_nat l < used_units ord ?rs + f_of_nat k \<or> f_of_nat sl < scope_units ord sc ?rs + f_of_nat k")
    case True
    then have "b = False" "t = s(p \<mapsto> ?rs)"
      using g v by (auto simp: mem_grant_scoped_def mem_reserve_scoped_def Let_def)
    with test True L show ?thesis using mem_ok_upd [OF ok rs] by (simp add: mem_entries_upd)
  next
    case False
    then have bt: "b = True" "t = s(p \<mapsto> AList.update i (f_of_nat k, now + ttl, Some sc) ?rs)"
      using g v by (auto simp: mem_grant_scoped_def mem_reserve_scoped_def Let_def)
    have fit: "slots (live now (mem_entries s p)) + k \<le> l" "slots (scoped sc (live now (mem_entries s p))) + k \<le> sl"
      using test False by simp_all
    have w: "entry_whole (i, f_of_nat k, now + ttl, Some sc)" using floor_whole [OF le(3)] sc by simp
    have "slots (mset (map abs_entry ?rs)) + k \<le> slot_max" unfolding L using fit le(1) by simp
    note u = pool_ok_update [OF rs i w le(3) this]
    show ?thesis
      using mem_ok_upd [OF ok u(1)] fit by (simp add: bt mem_entries_upd u(2) L scope_text_def del: mset_map)
  qed
qed

end

lemma mem_entries_default: "s p = None \<Longrightarrow> mem_entries s p = {#}"
  by (simp add: mem_entries_def entry_or_default_def)

lemma pool_ok_delete:
  assumes "pool_ok es"
  shows "pool_ok (AList.delete i es)"
    and "mset (map abs_entry (AList.delete i es)) = filter_mset (\<lambda>e. fst e \<noteq> i) (mset (map abs_entry es))"
proof -
  show A: "mset (map abs_entry (AList.delete i es)) = filter_mset (\<lambda>e. fst e \<noteq> i) (mset (map abs_entry es))"
    by (induction es) (auto simp: AList.delete_eq)
  have "slots (mset (map abs_entry (AList.delete i es))) \<le> slot_max"
    unfolding A using assms slots_filter_le le_trans unfolding pool_ok_def by blast
  then show "pool_ok (AList.delete i es)"
    using assms hm.ok_del by (auto simp: pool_ok_def list_all_iff AList.delete_eq)
qed

lemma mem_forget_spec:
  assumes "mem_ok s"
  shows "mem_ok (mem_forget i p s) \<and>
    mem_entries (mem_forget i p s) = (mem_entries s)(p := filter_mset (\<lambda>e. fst e \<noteq> i) (mem_entries s p))"
proof (cases "s p")
  case None
  then show ?thesis
    using assms by (auto simp: mem_forget_def mem_release_def lease_ref_def mem_entries_default fun_upd_idem)
next
  case (Some es)
  then have es: "pool_ok es" "mem_entries s p = mset (map abs_entry es)"
    using assms by (auto simp: mem_ok_def entry_or_default_def mem_entries_def split: option.splits)
  have "mem_forget i p s = s(p \<mapsto> AList.delete i es)"
    using Some by (simp add: mem_forget_def mem_release_def lease_ref_def)
  then show ?thesis
    using mem_ok_upd [OF assms pool_ok_delete(1) [OF es(1)]] es
    by (simp add: mem_entries_upd pool_ok_delete(2) [OF es(1)] del: mset_map)
qed

lemma map_update_entry:
  assumes "distinct (map fst es)" "map_of es i = Some (u, e, sc)"
  shows "AList.update i (u, x, sc) es = map (\<lambda>(j, v, f, s). (j, v, if j = i then x else f, s)) es"
  using assms
proof (induction es)
  case (Cons a es)
  obtain j v where a: "a = (j, v)" by (cases a)
  have "map (\<lambda>(j, v, f, s). (j, v, if j = i then x else f, s)) es = es" if "j = i"
    using Cons.prems that by (intro map_idI) (force simp: a)
  with Cons show ?case by (cases "j = i") (auto simp: a)
qed simp

lemma mem_extend_spec:
  assumes ok: "mem_ok s" and e: "mem_extend now i p ttl s = (b, t)"
  shows "mem_ok t \<and> (b \<longleftrightarrow> i \<in># image_mset fst (mem_entries s p)) \<and>
    mem_entries t = (mem_entries s)(p := moved i (now + ttl) (mem_entries s p))"
proof (cases "s p")
  case None
  then show ?thesis
    using assms by (auto simp: mem_extend_def mem_renew_def lease_ref_def mem_entries_default fun_upd_idem)
next
  case (Some es)
  have es: "pool_ok es" "mem_entries s p = mset (map abs_entry es)"
    using ok Some by (auto simp: mem_ok_def entry_or_default_def mem_entries_def split: option.splits)
  show ?thesis
  proof (cases "map_of es i")
    case None
    then have "i \<notin> fst ` set es" by (simp add: map_of_eq_None_iff)
    moreover from this have "moved i (now + ttl) (mem_entries s p) = mem_entries s p"
      unfolding es(2) by (auto simp: image_mset.compositionality rev_image_eqI intro!: image_mset_cong)
    ultimately show ?thesis
      using e Some None ok es by (force simp: mem_extend_def mem_renew_def lease_ref_def fun_upd_idem)
  next
    case (Some v)
    obtain u x sc where v: "v = (u, x, sc)" by (cases v) auto
    let ?es = "AList.update i (u, now + ttl, sc) es"
    have d: "distinct (map fst es)" using es(1) by (simp add: pool_ok_def hm_ok_def)
    note upd = map_update_entry [OF d Some [unfolded v], of "now + ttl"]
    have M: "mset (map abs_entry ?es) = moved i (now + ttl) (mset (map abs_entry es))"
      unfolding upd by (induction es) auto
    have "list_all entry_whole ?es"
      using es(1) by (fastforce simp: upd pool_ok_def list_all_iff)
    then have "pool_ok ?es"
      unfolding pool_ok_def M slots_moved using es(1) by (simp add: pool_ok_def hm.ok_put)
    moreover have "b = True" "t = s(p \<mapsto> ?es)"
      using e \<open>s p = Some es\<close> Some v by (auto simp: mem_extend_def mem_renew_def lease_ref_def)
    moreover have "i \<in># image_mset fst (mem_entries s p)"
      using map_of_SomeD [OF Some] unfolding es(2) v by force
    ultimately show ?thesis
      using mem_ok_upd [OF ok] es by (simp add: mem_entries_upd M del: mset_map)
  qed
qed

sublocale mem_coordinator \<subseteq> mem: lease_ledger mem_entries mem_ok "\<lambda>_ _. True" "(+)"
  "mem_grant ord" "mem_grant_scoped ord" mem_forget mem_extend
proof (unfold_locales, goal_cases)
  case 1
  then show ?case by (intro mem_grant_spec)
next
  case 2
  then show ?case by (intro mem_grant_scoped_spec)
next
  case 3
  then show ?case by (rule mem_forget_spec)
next
  case 4
  then show ?case by (intro mem_extend_spec)
qed

interpretation mem_id: mem_coordinator "\<lambda>es. es"
  by unfold_locales simp

end
