(* ===== verification/Coordinator_Valkey.thy ===== *)
theory Coordinator_Valkey
  imports Coordinator_Memory
begin

text \<open>
  The Valkey coordinator implements the same lease contract, for leases of whole units and times in
  milliseconds, given what Lua documents of its number conversions: \<^verbatim>\<open>tonumber\<close> reads decimal digits, and
  \<^verbatim>\<open>tostring\<close> (the format \<^verbatim>\<open>%.14g\<close>) writes a whole number of at most fourteen digits as its digits.
\<close>

section \<open>The contract's view of the hashes\<close>

definition printed :: "nat \<Rightarrow> nat \<Rightarrow> string \<Rightarrow> string" where
  "printed k e sc = nat_to_dec k @ '':'' @ nat_to_dec e @ '':'' @ sc"

lemma lua_parts_printed: "lua_parts (printed k e sc) = Some (nat_to_dec k, nat_to_dec e, sc)"
  by (simp add: lua_parts_def printed_def split_colon_append [simplified])

fun val_entry :: "uuid \<times> string \<Rightarrow> ledger_entry" where
  "val_entry (i, v) =
     (case lua_parts v of
        None \<Rightarrow> (i, 0, 0, [])
      | Some (a, e, sc) \<Rightarrow> (i, dec_value a, dec_value e, sc))"

lemma val_entry_printed [simp]: "val_entry (i, printed k e sc) = (i, k, e, sc)"
  by (simp add: lua_parts_printed)

declare val_entry.simps [simp del]

definition vk_entries :: "string \<Rightarrow> valkey_state \<Rightarrow> string \<Rightarrow> ledger_entry multiset" where
  "vk_entries ns st p = mset (map val_entry (hgetall st (valkey_key ns p)))"

fun value_ok :: "uuid \<times> string \<Rightarrow> bool" where
  "value_ok (i, v) \<longleftrightarrow> (case val_entry (i, v) of (_, k, e, sc) \<Rightarrow> v = printed k e sc \<and> e < 10 ^ 14)"

definition hash_ok :: "valkey_hash \<Rightarrow> bool" where
  "hash_ok h \<longleftrightarrow> hm_ok h \<and> list_all value_ok h \<and> slots (mset (map val_entry h)) \<le> slot_max"

definition vk_ok :: "string \<Rightarrow> valkey_state \<Rightarrow> bool" where
  "vk_ok ns st \<longleftrightarrow> (\<forall>p. hash_ok (hgetall st (valkey_key ns p)))"

definition vk_time :: "nat \<Rightarrow> nat \<Rightarrow> bool" where
  "vk_time now ttl \<longleftrightarrow> now + ttl < 10 ^ 14"

definition vk_grant where
  "vk_grant tonumber tostring ord ns now i p l k ttl st =
     granted (valkey_reserve tonumber tostring ord ns Delivered (Some (now * 1000000)) 0 i p
       (f_of_nat l) (f_of_nat k) (ttl * 1000000) st)"

definition vk_grant_scoped where
  "vk_grant_scoped tonumber tostring ord ns now i p sc l sl k ttl st =
     granted (valkey_reserve_scoped tonumber tostring ord ns Delivered (Some (now * 1000000)) 0 i p sc
       (f_of_nat l) (f_of_nat sl) (f_of_nat k) (ttl * 1000000) st)"

definition vk_forget where
  "vk_forget ns i p st = snd (valkey_release ns Delivered (lease_ref i p) st)"

definition vk_extend where
  "vk_extend ns now i p ttl st =
     (case valkey_renew ns Delivered (Some (now * 1000000)) (lease_ref i p) (ttl * 1000000) st of
        (r, t) \<Rightarrow> (r = Inr True, t))"

section \<open>Representation\<close>

lemma vk_time_nums:
  assumes "vk_time now ttl"
  shows "(now * 1000000 div 1000000) mod 2 ^ 64 = now" "millis_u64 (ttl * 1000000) = ttl"
    and "saturating_add now ttl = now + ttl" "now \<le> 2 ^ 53" "now + ttl \<le> 2 ^ 53" "now + ttl < 10 ^ 14"
  using assms by (simp_all add: vk_time_def millis_u64_def rust_int u64_max_def)

lemma f_of_nat_le_iff: "m \<le> 2 ^ 53 \<Longrightarrow> n \<le> 2 ^ 53 \<Longrightarrow> f_of_nat m \<le> f_of_nat n \<longleftrightarrow> m \<le> n"
  by (subst f_le_val) (simp_all only: f_of_nat_finite f_of_nat_val of_nat_le_iff)

lemma valkey_key_inject [simp]: "valkey_key ns p = valkey_key ns q \<longleftrightarrow> p = q"
  by (simp add: valkey_key_def)

lemma hgetall_upd: "hgetall (st(key \<mapsto> h)) = (hgetall st)(key := h)"
  by (auto simp: hgetall_def fun_eq_iff)

lemma vk_entries_upd:
  "vk_entries ns (st(valkey_key ns p \<mapsto> h)) = (vk_entries ns st)(p := mset (map val_entry h))"
  by (auto simp: vk_entries_def hgetall_upd fun_eq_iff)

lemma vk_ok_upd: "vk_ok ns st \<Longrightarrow> hash_ok h \<Longrightarrow> vk_ok ns (st(valkey_key ns p \<mapsto> h))"
  by (auto simp: vk_ok_def hgetall_upd)

lemma fst_val_entry: "fst (val_entry e) = fst e"
  by (cases e) (auto simp: val_entry.simps split: option.splits)

abbreviation entry_expiry :: "ledger_entry \<Rightarrow> nat" where
  "entry_expiry e \<equiv> fst (snd (snd e))"

lemma live_alt: "live now M = filter_mset (\<lambda>e. now < entry_expiry e) M"
  unfolding live_def by (rule filter_mset_cong) auto

lemma scoped_alt: "scoped sc M = filter_mset (\<lambda>e. snd (snd (snd e)) = sc) M"
  unfolding scoped_def by (rule filter_mset_cong) auto

lemma hdel_live:
  assumes d: "distinct (map fst h)"
    and fs: "set fs = fst ` {x \<in> set h. entry_expiry (val_entry x) \<le> now}"
  shows "mset (map val_entry (hdel fs h)) = live now (mset (map val_entry h))"
proof -
  have "(fst x \<notin> set fs) = (now < entry_expiry (val_entry x))" if x: "x \<in> set h" for x
  proof -
    have "y = x" if "y \<in> set h" "fst y = fst x" for y
      using that x d by (metis distinct_map inj_onD)
    then show ?thesis unfolding fs using x by (auto simp: not_le)
  qed
  then have "hdel fs h = filter (\<lambda>x. now < entry_expiry (val_entry x)) h"
    unfolding hdel_def by (intro filter_cong) (auto simp: case_prod_beta)
  then show ?thesis by (simp add: live_alt mset_filter filter_mset_image_mset)
qed

lemma hash_ok_hdel:
  assumes "hash_ok h"
  shows "hash_ok (hdel fs h)"
proof -
  have "mset (map val_entry (hdel fs h)) \<subseteq># mset (map val_entry h)"
    by (simp add: hdel_def image_mset_subseteq_mono)
  then have "slots (mset (map val_entry (hdel fs h))) \<le> slots (mset (map val_entry h))"
    by (metis le_add1 slots_simps(3) subset_mset.le_iff_add)
  with assms show ?thesis
    by (auto simp: hash_ok_def hm_ok_def hdel_def distinct_map_filter list_all_iff)
qed

lemma hash_ok_update:
  assumes "hash_ok h" "i \<notin> fst ` set h" "e < 10 ^ 14" "slots (mset (map val_entry h)) + k \<le> slot_max"
  shows "hash_ok (AList.update i (printed k e sc) h)"
    and "mset (map val_entry (AList.update i (printed k e sc) h)) = add_mset (i, k, e, sc) (mset (map val_entry h))"
proof -
  have ok: "hm_ok h" "list_all value_ok h" using assms(1) by (auto simp: hash_ok_def)
  have m: "mset (AList.update i (printed k e sc) h) = add_mset (i, printed k e sc) (mset h)"
    using ok(1) assms(2) by (intro hm.mset_put_new) (auto simp: map_of_eq_None_iff)
  from m show A: "mset (map val_entry (AList.update i (printed k e sc) h)) =
      add_mset (i, k, e, sc) (mset (map val_entry h))" by simp
  have "set (AList.update i (printed k e sc) h) = insert (i, printed k e sc) (set h)"
    using m by (metis set_mset_add_mset_insert set_mset_mset)
  then have "list_all value_ok (AList.update i (printed k e sc) h)"
    using ok(2) assms(3) by (simp add: list_all_iff)
  then show "hash_ok (AList.update i (printed k e sc) h)"
    unfolding hash_ok_def A using ok(1) assms(4) by (simp add: hm.ok_put)
qed

section \<open>The contract holds\<close>

locale valkey_coordinator =
  fixes tonumber :: "string \<Rightarrow> f64 option" and tostring :: "f64 \<Rightarrow> string"
    and ord :: "valkey_hash \<Rightarrow> valkey_hash" and ns :: string
  assumes tonumber_dec: "tonumber (nat_to_dec n) = Some (f_of_nat n)"
    and tostring_dec: "n < 10 ^ 14 \<Longrightarrow> tostring (f_of_nat n) = nat_to_dec n"
    and ord: "mset (ord h) = mset h"
begin

lemma scan_whole:
  assumes "list_all value_ok es" "now \<le> 2 ^ 53" "is_finite u" "f_val u = of_nat a"
    and "is_finite su" "f_val su = of_nat b"
    and "a + slots (mset (map val_entry es)) \<le> 2 ^ 53" "b + slots (mset (map val_entry es)) \<le> 2 ^ 53"
  shows "\<exists>u' su' del'. lua_scan tonumber (f_of_nat now) scope es u su del = Inr (u', su', del') \<and>
    is_finite u' \<and> f_val u' = of_nat (a + slots (live now (mset (map val_entry es)))) \<and>
    is_finite su' \<and> f_val su' = of_nat (b + slots (scoped scope (live now (mset (map val_entry es))))) \<and>
    set del' = set del \<union> fst ` {x \<in> set es. entry_expiry (val_entry x) \<le> now}"
  using assms
proof (induction es arbitrary: u su a b del)
  case (Cons x es)
  obtain i v where x: "x = (i, v)" by (cases x)
  obtain k e sc where v: "v = printed k e sc" and e: "e < 10 ^ 14"
    using Cons.prems(1) x by (auto split: prod.splits)
  have e53: "e \<le> 2 ^ 53" using e by simp
  note parts = lua_parts_printed [of k e sc] tonumber_dec
  define M where "M = mset (map val_entry es)"
  have X: "mset (map val_entry (x # es)) = add_mset (i, k, e, sc) M" by (simp add: x v M_def)
  define D where "D = fst ` {x \<in> set es. entry_expiry (val_entry x) \<le> now}"
  have E: "fst ` {y \<in> set (x # es). entry_expiry (val_entry y) \<le> now} = (if e \<le> now then insert i D else D)"
  proof -
    have "{y \<in> set (x # es). entry_expiry (val_entry y) \<le> now} =
        (if e \<le> now then insert x {y \<in> set es. entry_expiry (val_entry y) \<le> now}
         else {y \<in> set es. entry_expiry (val_entry y) \<le> now})" by (auto simp: x v)
    then show ?thesis by (simp add: D_def x)
  qed
  have es: "list_all value_ok es" using Cons.prems(1) by simp
  note IH = Cons.IH [OF es Cons.prems(2), folded M_def D_def]
  show ?case
  proof (cases "e \<le> now")
    case True
    have s: "lua_scan tonumber (f_of_nat now) scope (x # es) u su del =
        lua_scan tonumber (f_of_nat now) scope es u su (i # del)"
      using True f_of_nat_le_iff [OF e53 Cons.prems(2)] by (simp add: x v parts)
    have "a + slots M \<le> 2 ^ 53" "b + slots M \<le> 2 ^ 53" using Cons.prems(7,8) unfolding X by simp_all
    from IH [OF Cons.prems(3-6) this, of "i # del"] show ?thesis
      unfolding s X E using True by simp
  next
    case False
    have ab: "(a + k) + slots M \<le> 2 ^ 53" "(b + k) + slots M \<le> 2 ^ 53" "b + slots M \<le> 2 ^ 53"
      using Cons.prems(7,8) unfolding X by simp_all
    then have k: "a + k \<le> 2 ^ 53" "b + k \<le> 2 ^ 53" "k \<le> 2 ^ 53" by linarith+
    have s: "lua_scan tonumber (f_of_nat now) scope (x # es) u su del =
        lua_scan tonumber (f_of_nat now) scope es (u + f_of_nat k) (if sc = scope then su + f_of_nat k else su) del"
      using False f_of_nat_le_iff [OF e53 Cons.prems(2)] by (simp add: x v parts)
    have U: "is_finite (u + f_of_nat k) \<and> f_val (u + f_of_nat k) = of_nat (a + k)"
      and S: "is_finite (su + f_of_nat k) \<and> f_val (su + f_of_nat k) = of_nat (b + k)"
      using f_add_whole [OF Cons.prems(3) f_of_nat_finite [OF k(3)] Cons.prems(4) f_of_nat_val [OF k(3)] k(1)]
        f_add_whole [OF Cons.prems(5) f_of_nat_finite [OF k(3)] Cons.prems(6) f_of_nat_val [OF k(3)] k(2)]
      by blast+
    show ?thesis
    proof (cases "sc = scope")
      case True
      from IH [OF U [THEN conjunct1] U [THEN conjunct2] S [THEN conjunct1] S [THEN conjunct2] ab(1,2), of del]
      show ?thesis unfolding s X E using False True by (simp add: add.assoc)
    next
      case other: False
      from IH [OF U [THEN conjunct1] U [THEN conjunct2] Cons.prems(5,6) ab(1,3), of del]
      show ?thesis unfolding s X E using False other by (simp add: add.assoc)
    qed
  qed
qed (simp add: live_def scoped_def)

lemma ord_set: "set (ord h) = set h"
  using ord by (metis set_mset_mset)

text \<open>The reservation script on a well-formed hash.\<close>

lemma reserve_script_spec:
  assumes h: "hash_ok h" and now: "now \<le> 2 ^ 53" and e: "e < 10 ^ 14"
    and le: "l \<le> slot_max" "sl \<le> slot_max" "k \<le> slot_max" and i: "i \<notin> fst ` set h"
    and r: "reserve_script tonumber tostring ord (f_of_nat now) (f_of_nat l) (f_of_nat k) i
      (f_of_nat e) sc (f_of_nat sl) h = (r, h', x)"
  defines "V \<equiv> live now (mset (map val_entry h))"
  defines "fit \<equiv> slots V + k \<le> l \<and> slots (scoped sc V) + k \<le> sl"
  shows "r = Some (if fit then 1 else 0) \<and> hash_ok h' \<and>
    mset (map val_entry h') = (if fit then {#(i, k, e, sc)#} else {#}) + V"
proof -
  have O: "mset (map val_entry (ord h)) = mset (map val_entry h)" by (simp add: ord)
  have sm: "slots (mset (map val_entry h)) \<le> slot_max" and d: "distinct (map fst h)"
    and w: "list_all value_ok (ord h)"
    using h ord_set [of h] by (auto simp: hash_ok_def hm_ok_def list_all_iff)
  have V: "slots V \<le> slot_max" unfolding V_def using slots_live_le sm by (rule le_trans)
  have "slots (scoped sc V) \<le> slots V" unfolding scoped_def by (rule slots_filter_le)
  with V have VV: "slots V \<le> slot_max" "slots (scoped sc V) \<le> slot_max" by simp_all
  have z: "is_finite (f_of 0)" "f_val (f_of 0) = of_nat 0" by simp_all
  have b: "0 + slots (mset (map val_entry (ord h))) \<le> 2 ^ 53"
    unfolding O using slot_max_exact(2) [OF sm] by simp
  from scan_whole [OF w now z z b b, of sc "[]", unfolded O, folded V_def] obtain u su del
    where scan: "lua_scan tonumber (f_of_nat now) sc (ord h) (f_of 0) (f_of 0) [] = Inr (u, su, del)"
      and u: "is_finite u" "f_val u = of_nat (slots V)"
      and su: "is_finite su" "f_val su = of_nat (slots (scoped sc V))"
      and del: "set del = fst ` {x \<in> set h. entry_expiry (val_entry x) \<le> now}"
    unfolding ord_set by (clarsimp simp del: f_of_0)
  have L: "mset (map val_entry (hdel del h)) = V" unfolding V_def by (rule hdel_live [OF d del])
  have test: "f_of_nat m < y + f_of_nat k \<longleftrightarrow> \<not> n + k \<le> m"
    if "is_finite y" "f_val y = of_nat n" "n \<le> slot_max" "m \<le> slot_max" for y m n
  proof -
    have "is_finite (y + f_of_nat k) \<and> f_val (y + f_of_nat k) = of_nat (n + k)"
      using f_add_whole [OF that(1) f_of_nat_finite [OF slot_max_exact(2) [OF le(3)]] that(2)
          f_of_nat_val [OF slot_max_exact(2) [OF le(3)]] slot_max_exact(1) [OF that(3) le(3)]] .
    moreover have "is_finite (f_of_nat m)" "f_val (f_of_nat m) = of_nat m"
      using slot_max_exact(2) [OF that(4)] f_of_nat_finite f_of_nat_val by blast+
    ultimately show ?thesis by (simp add: f_lt_val not_le del: of_nat_add)
  qed
  have fit: "(f_of_nat l < u + f_of_nat k \<or> f_of_nat sl < su + f_of_nat k) \<longleftrightarrow> \<not> fit"
    using test [OF u VV(1) le(1)] test [OF su VV(2) le(2)] by (simp add: fit_def)
  have k14: "k < 10 ^ 14" using le(3) by (simp add: slot_max_def)
  show ?thesis
  proof (cases fit)
    case True
    have iN: "i \<notin> fst ` set (hdel del h)" using i by (auto simp: hdel_def)
    have "slots (mset (map val_entry (hdel del h))) + k \<le> slot_max"
      unfolding L using True le(1) by (simp add: fit_def)
    note upd = hash_ok_update [OF hash_ok_hdel [OF h] iN e this, of sc, unfolded L]
    have "r = Some 1" "h' = AList.update i (printed k e sc) (hdel del h)"
      using r fit True unfolding reserve_script_def scan
      by (auto simp: tostring_dec [OF k14] tostring_dec [OF e] printed_def split: if_splits)
    with upd True show ?thesis by simp
  next
    case False
    then have "r = Some 0" "h' = hdel del h"
      using r fit unfolding reserve_script_def scan by (simp_all split: if_splits)
    then show ?thesis using False L hash_ok_hdel [OF h] by simp
  qed
qed

lemma fresh_field: "i \<notin># image_mset fst (vk_entries ns s p) \<Longrightarrow> i \<notin> fst ` set (hgetall s (valkey_key ns p))"
  by (auto simp: vk_entries_def fst_val_entry image_mset.compositionality comp_def)

lemma units_valid: "k \<le> slot_max \<Longrightarrow> is_finite (f_of_nat k) \<and> \<not> f_of_nat k < f_of 0"
  using f_of_nat_finite [OF slot_max_exact(2), of k] f_of_nat_nonneg [of k] f_not_less [of "f_of_nat k" "f_of 0"]
  by (simp add: f_of_nat_def)

lemma reserve_scoped_spec:
  assumes ok: "vk_ok ns s" and tm: "vk_time now ttl" and le: "l \<le> slot_max" "sl \<le> slot_max" "k \<le> slot_max"
    and fresh: "i \<notin># image_mset fst (vk_entries ns s p)"
    and g: "granted (valkey_reserve_scoped tonumber tostring ord ns Delivered (Some (now * 1000000)) 0 i p sc
       (f_of_nat l) (f_of_nat sl) (f_of_nat k) (ttl * 1000000) s) = (b, t)"
  shows "vk_ok ns t \<and> (b \<longleftrightarrow> slots (live now (vk_entries ns s p)) + k \<le> l \<and>
       slots (scoped sc (live now (vk_entries ns s p))) + k \<le> sl) \<and>
     vk_entries ns t = (vk_entries ns s)(p :=
       (if b then {#(i, k, now + ttl, sc)#} else {#}) + live now (vk_entries ns s p))"
proof -
  let ?h = "hgetall s (valkey_key ns p)"
  let ?V = "live now (vk_entries ns s p)"
  let ?fit = "slots ?V + k \<le> l \<and> slots (scoped sc ?V) + k \<le> sl"
  note tm' = vk_time_nums [OF tm]
  have now64: "now mod 18446744073709551616 = now" using tm'(6) by simp
  have h: "hash_ok ?h" using ok by (simp add: vk_ok_def)
  obtain r h' x where r: "reserve_script tonumber tostring ord (f_of_nat now) (f_of_nat l) (f_of_nat k) i
      (f_of_nat (now + ttl)) sc (f_of_nat sl) ?h = (r, h', x)" by (rule prod_cases3)
  note spec = reserve_script_spec [OF h tm'(4,6) le fresh_field [OF fresh] r, folded vk_entries_def]
  have v: "validate_limits (f_of_nat l) (f_of_nat sl) (f_of_nat k) = Inr ()"
    using units_valid le by (simp add: validate_limits_def)
  have "valkey_reserve_scoped tonumber tostring ord ns Delivered (Some (now * 1000000)) 0 i p sc
       (f_of_nat l) (f_of_nat sl) (f_of_nat k) (ttl * 1000000) s =
     (Inr (if ?fit then Some \<lparr>lease_id = i, lease_pool = p, lease_units = f_of_nat k,
        expires_at = ttl * 1000000, lease_scope = (if sc = [] then None else Some sc)\<rparr> else None),
      s(valkey_key ns p \<mapsto> h'))"
    unfolding valkey_reserve_scoped_def v using spec by (simp add: Let_def now64 tm'(2,3) r)
  then have bt: "b = ?fit" "t = s(valkey_key ns p \<mapsto> h')" using g by (auto split: if_splits)
  with spec show ?thesis using vk_ok_upd [OF ok] by (simp add: vk_entries_upd del: mset_map)
qed

lemma vk_grant_spec:
  assumes "vk_ok ns s" "vk_time now ttl" "l \<le> slot_max" "k \<le> slot_max"
    and "i \<notin># image_mset fst (vk_entries ns s p)"
    and "vk_grant tonumber tostring ord ns now i p l k ttl s = (b, t)"
  shows "vk_ok ns t \<and> (b \<longleftrightarrow> slots (live now (vk_entries ns s p)) + k \<le> l) \<and>
     vk_entries ns t = (vk_entries ns s)(p :=
       (if b then {#(i, k, now + ttl, [])#} else {#}) + live now (vk_entries ns s p))"
proof -
  have "slots (scoped [] (live now (vk_entries ns s p))) \<le> slots (live now (vk_entries ns s p))"
    unfolding scoped_def by (rule slots_filter_le)
  moreover have "granted (valkey_reserve_scoped tonumber tostring ord ns Delivered (Some (now * 1000000)) 0 i p []
       (f_of_nat l) (f_of_nat l) (f_of_nat k) (ttl * 1000000) s) = (b, t)"
    using assms(6) units_valid [OF assms(4)] by (simp add: vk_grant_def valkey_reserve_def)
  note reserve_scoped_spec [OF assms(1,2,3,3,4,5) this]
  ultimately show ?thesis by auto
qed

lemma vk_grant_scoped_spec:
  assumes "vk_ok ns s" "vk_time now ttl" "sc \<noteq> []" "l \<le> slot_max" "sl \<le> slot_max" "k \<le> slot_max"
    and "i \<notin># image_mset fst (vk_entries ns s p)"
    and "vk_grant_scoped tonumber tostring ord ns now i p sc l sl k ttl s = (b, t)"
  shows "vk_ok ns t \<and> (b \<longleftrightarrow> slots (live now (vk_entries ns s p)) + k \<le> l \<and>
       slots (scoped sc (live now (vk_entries ns s p))) + k \<le> sl) \<and>
     vk_entries ns t = (vk_entries ns s)(p :=
       (if b then {#(i, k, now + ttl, sc)#} else {#}) + live now (vk_entries ns s p))"
  using assms by (intro reserve_scoped_spec) (auto simp: vk_grant_scoped_def)

end

lemma vk_forget_spec:
  assumes "vk_ok ns s"
  shows "vk_ok ns (vk_forget ns i p s) \<and>
    vk_entries ns (vk_forget ns i p s) = (vk_entries ns s)(p := filter_mset (\<lambda>e. fst e \<noteq> i) (vk_entries ns s p))"
proof -
  let ?h = "hgetall s (valkey_key ns p)"
  have t: "vk_forget ns i p s = s(valkey_key ns p \<mapsto> hdel [i] ?h)"
    by (simp add: vk_forget_def valkey_release_def lease_ref_def Let_def)
  have "mset (map val_entry (hdel [i] ?h)) = filter_mset (\<lambda>e. fst e \<noteq> i) (vk_entries ns s p)"
    by (simp add: vk_entries_def hdel_def mset_filter filter_mset_image_mset fst_val_entry case_prod_beta)
  moreover have "hash_ok (hdel [i] ?h)" using assms hash_ok_hdel by (simp add: vk_ok_def)
  ultimately show ?thesis using vk_ok_upd [OF assms] by (simp add: t vk_entries_upd del: mset_map)
qed

lemma map_update_value:
  assumes "distinct (map fst h)" "map_of h i = Some v"
  shows "AList.update i w h = map (\<lambda>(j, u). (j, if j = i then w else u)) h"
  using assms
proof (induction h)
  case (Cons a h)
  obtain j u where a: "a = (j, u)" by (cases a)
  have "map (\<lambda>(j, u). (j, if j = i then w else u)) h = h" if "j = i"
    using Cons.prems that by (intro map_idI) (force simp: a)
  with Cons show ?case by (cases "j = i") (auto simp: a)
qed simp

lemma vk_extend_spec:
  assumes ok: "vk_ok ns s" and tm: "vk_time now ttl" and e: "vk_extend ns now i p ttl s = (b, t)"
  shows "vk_ok ns t \<and> (b \<longleftrightarrow> i \<in># image_mset fst (vk_entries ns s p)) \<and>
    vk_entries ns t = (vk_entries ns s)(p := moved i (now + ttl) (vk_entries ns s p))"
proof -
  let ?h = "hgetall s (valkey_key ns p)"
  note tm' = vk_time_nums [OF tm]
  have now64: "now mod 18446744073709551616 = now" using tm'(6) by simp
  have h: "hash_ok ?h" "distinct (map fst ?h)" "list_all value_ok ?h"
    using ok by (auto simp: vk_ok_def hash_ok_def hm_ok_def)
  have mem: "i \<in># image_mset fst (vk_entries ns s p) \<longleftrightarrow> map_of ?h i \<noteq> None"
    by (auto simp: vk_entries_def fst_val_entry image_mset.compositionality comp_def map_of_eq_None_iff)
  show ?thesis
  proof (cases "map_of ?h i")
    case None
    then have "b = False" "t = s(valkey_key ns p \<mapsto> ?h)"
      using e by (auto simp: vk_extend_def valkey_renew_def lease_ref_def renew_script_def Let_def)
    moreover have "moved i (now + ttl) (vk_entries ns s p) = vk_entries ns s p"
    proof -
      have "i \<notin># image_mset fst (vk_entries ns s p)" using None mem by simp
      then show ?thesis by (intro multiset.map_ident_strong) force
    qed
    ultimately show ?thesis
      using ok h None mem vk_ok_upd [OF ok h(1)] by (simp add: vk_entries_upd vk_entries_def del: mset_map)
  next
    case (Some v)
    have iv: "(i, v) \<in> set ?h" using Some by (rule map_of_SomeD)
    then obtain k x sc where v: "v = printed k x sc" "x < 10 ^ 14"
      using h(3) by (auto simp: list_all_iff split: prod.splits)
    let ?w = "printed k (now + ttl) sc"
    have "renew_script i (nat_to_dec (now + ttl)) ?h = (Some 1, AList.update i ?w ?h)"
      using Some by (simp add: renew_script_def v(1) lua_parts_printed) (simp add: printed_def)
    then have bt: "b = True" "t = s(valkey_key ns p \<mapsto> AList.update i ?w ?h)"
      using e by (auto simp: vk_extend_def valkey_renew_def lease_ref_def Let_def now64 tm'(2,3))
    have cell: "val_entry (fst y, if fst y = i then ?w else snd y) =
        (case val_entry y of (j, k, e, s) \<Rightarrow> (j, k, if j = i then now + ttl else e, s))" if "y \<in> set ?h" for y
    proof (cases "fst y = i")
      case True
      with that iv h(2) have "y = (i, v)" by (metis distinct_map fst_conv inj_onD)
      then show ?thesis by (simp add: v(1))
    next
      case False
      then show ?thesis using fst_val_entry [of y] by (cases "val_entry y") auto
    qed
    have "map val_entry (AList.update i ?w ?h) =
        map (\<lambda>y. case val_entry y of (j, k, e, s) \<Rightarrow> (j, k, if j = i then now + ttl else e, s)) ?h"
      unfolding map_update_value [OF h(2) Some] using cell by (auto simp: case_prod_beta)
    then have M: "mset (map val_entry (AList.update i ?w ?h)) = moved i (now + ttl) (vk_entries ns s p)"
      by (simp add: vk_entries_def image_mset.compositionality comp_def)
    have "value_ok y" if "y \<in> set (AList.update i ?w ?h)" for y
      using that h(3) tm'(6) unfolding map_update_value [OF h(2) Some]
      by (auto simp: list_all_iff)
    then have "hash_ok (AList.update i ?w ?h)"
      using h(1) unfolding hash_ok_def M slots_moved by (simp add: hm.ok_put list_all_iff vk_entries_def)
    then show ?thesis
      using vk_ok_upd [OF ok] mem Some by (simp add: bt vk_entries_upd M del: mset_map)
  qed
qed

sublocale valkey_coordinator \<subseteq> vk: lease_ledger "vk_entries ns" "vk_ok ns" vk_time "(+)"
  "vk_grant tonumber tostring ord ns" "vk_grant_scoped tonumber tostring ord ns" "vk_forget ns" "vk_extend ns"
proof (unfold_locales, goal_cases)
  case 1
  then show ?case by (rule vk_grant_spec)
next
  case 2
  then show ?case by (rule vk_grant_scoped_spec)
next
  case 3
  then show ?case by (rule vk_forget_spec)
next
  case 4
  then show ?case by (rule vk_extend_spec)
qed

text \<open>Conversions that meet the two assumptions: digits only.\<close>

definition digits_to_number :: "string \<Rightarrow> f64 option" where
  "digits_to_number s = (if s \<noteq> [] \<and> list_all is_digit s then Some (f_of_nat (dec_value s)) else None)"

definition number_to_digits :: "f64 \<Rightarrow> string" where
  "number_to_digits x = nat_to_dec (nat \<lfloor>f_val x\<rfloor>)"

interpretation vk_digits: valkey_coordinator digits_to_number number_to_digits "\<lambda>h. h" ns for ns
proof
  show "digits_to_number (nat_to_dec n) = Some (f_of_nat n)" for n
    using nat_to_dec_digits by (auto simp: digits_to_number_def list_all_iff)
  show "number_to_digits (f_of_nat n) = nat_to_dec n" if "n < 10 ^ 14" for n
    using that f_of_nat_val [of n] by (simp add: number_to_digits_def)
qed simp

end
