(* ===== verification/Coordinator_Properties.thy ===== *)
theory Coordinator_Properties
  imports Coordinator_Valkey
begin

text \<open>
  What the coordinators of \<^verbatim>\<open>crates/coordinator/src/lib.rs\<close> promise the proxy: no sequence of calls lets
  whole-unit leases (the concurrency slots) exceed their limits; leases of fractional units exceed a
  limit by the rounding of their sum at most; and the two coordinators decide alike.
\<close>

section \<open>Sums of fractional units\<close>

definition lease_total :: "pool_leases \<Rightarrow> rat" where
  "lease_total leases = sum_list (map (\<lambda>(_, u, _, _). f_val u) leases)"

definition amounts_ok :: "pool_leases \<Rightarrow> bool" where
  "amounts_ok leases \<longleftrightarrow> hm_ok leases \<and> (\<forall>(_, u, _, _) \<in> set leases. f_ok u \<and> f_of 0 \<le> u)"

definition of_scope :: "string \<Rightarrow> pool_leases \<Rightarrow> pool_leases" where
  "of_scope sc leases = filter (\<lambda>(_, _, _, s). s = Some sc) leases"

lemma lease_total_mset: "mset xs = mset ys \<Longrightarrow> lease_total xs = lease_total ys"
  unfolding lease_total_def sum_mset_sum_list [symmetric] mset_map by simp

lemma amounts_ok_retain: "amounts_ok es \<Longrightarrow> amounts_ok (retain_live now es)"
  by (auto simp: amounts_ok_def retain_live_def hm_ok_def distinct_map_filter)

text \<open>A passed limit test, for leases in any iteration order.\<close>

lemma passed_test:
  assumes "\<forall>(_, u, _, _) \<in> set es. f_ok u \<and> f_of 0 \<le> u" "f_ok u" "f_of 0 \<le> u" "is_finite l"
    and "\<not> l < f_sum (map (\<lambda>(_, u, _, _). u) es) + u"
  shows "(1 - f_unit) ^ (length es + 1) * (lease_total es + f_val u) \<le> f_val l"
proof -
  let ?ys = "map (\<lambda>(_, u, _, _). u) es"
  have "\<forall>y \<in> set ?ys. f_ok y \<and> f_of 0 \<le> y" using assms(1) by auto
  from f_sum_limit [OF this assms(2,3,5,4)] show ?thesis
    by (simp add: lease_total_def comp_def case_prod_unfold)
qed

lemma reserve_scoped_grant:
  assumes "mem_reserve_scoped ord now i p sc l sl u ttl s = (Inr (Some x), t)"
  defines "es \<equiv> retain_live now (entry_or_default s p)"
  shows "entry_or_default t p = AList.update i (u, now + ttl, Some sc) es"
    and "is_finite l" "is_finite sl" "is_finite u" "f_of 0 \<le> u"
    and "\<not> l < used_units ord es + u" "\<not> sl < scope_units ord sc es + u"
proof -
  have v: "validate_limits l sl u = Inr ()"
    using assms(1) by (auto simp: mem_reserve_scoped_def split: sum.splits)
  then show "is_finite l" "is_finite sl" "is_finite u"
    by (auto simp: validate_limits_def split: if_splits)
  have "\<not> u < f_of 0" using v by (auto simp: validate_limits_def split: if_splits)
  then show "f_of 0 \<le> u" using \<open>is_finite u\<close> by (cases u) (auto simp: f_ops)
  show "entry_or_default t p = AList.update i (u, now + ttl, Some sc) es"
    "\<not> l < used_units ord es + u" "\<not> sl < scope_units ord sc es + u"
    using assms(1) v by (auto simp: mem_reserve_scoped_def Let_def es_def entry_or_default_def split: if_splits)
qed

lemma update_fresh: "i \<notin> fst ` set es \<Longrightarrow> AList.update i v es = es @ [(i, v)]"
  by (induction es) auto

section \<open>The contract's consequences for a new coordinator\<close>

context mem_coordinator
begin

lemma run_limits:
  assumes "distinct (new_ids ops)" "\<forall>op \<in> set ops. op_within (\<lambda>_ _. True) L SL op"
  defines "t \<equiv> ledger_run (mem_grant ord) (mem_grant_scoped ord) mem_forget mem_extend ops Map.empty"
  shows "slots (mem_entries t p) \<le> L p \<and> (sc \<noteq> [] \<longrightarrow> slots (scoped sc (mem_entries t p)) \<le> SL p sc)"
proof -
  have e: "mem_entries Map.empty p = {#}" for p by (simp add: mem_entries_def entry_or_default_def)
  have ok: "mem_ok Map.empty" by (simp add: mem_ok_def entry_or_default_def pool_ok_def hm_ok_def)
  have "mem.in_limits L SL Map.empty" "set (new_ids ops) \<inter> mem.ids Map.empty = {}"
    by (simp_all add: mem.in_limits_def mem.ids_def e)
  from mem.run_within [OF ok this(1) assms(1) this(2) assms(2)] show ?thesis
    by (simp add: mem.in_limits_def t_def)
qed

end

context valkey_coordinator
begin

lemma run_limits:
  assumes "distinct (new_ids ops)" "\<forall>op \<in> set ops. op_within vk_time L SL op"
  defines "t \<equiv> ledger_run (vk_grant tonumber tostring ord ns) (vk_grant_scoped tonumber tostring ord ns)
    (vk_forget ns) (vk_extend ns) ops Map.empty"
  shows "slots (vk_entries ns t p) \<le> L p \<and> (sc \<noteq> [] \<longrightarrow> slots (scoped sc (vk_entries ns t p)) \<le> SL p sc)"
proof -
  have e: "vk_entries ns Map.empty p = {#}" for p by (simp add: vk_entries_def hgetall_def)
  have ok: "vk_ok ns Map.empty" by (simp add: vk_ok_def hgetall_def hash_ok_def hm_ok_def)
  have "vk.in_limits L SL Map.empty" "set (new_ids ops) \<inter> vk.ids Map.empty = {}"
    by (simp_all add: vk.in_limits_def vk.ids_def e)
  from vk.run_within [OF ok this(1) assms(1) this(2) assms(2)] show ?thesis
    by (simp add: vk.in_limits_def t_def)
qed

end

section \<open>Examples\<close>

definition example_lease_ops :: "lease_op list" where
  "example_lease_ops =
     [LeaseScoped 0 1 ''p'' ''a'' 3 2 1 10, LeaseReserve 1 2 ''p'' 3 1 10, LeaseScoped 2 3 ''p'' ''a'' 3 2 1 10,
      LeaseScoped 3 4 ''p'' ''a'' 3 2 1 10, LeaseRenew 5 1 ''p'' 10, LeaseRelease 2 ''p'']"

lemma example_lease_ops_ok:
  "distinct (new_ids example_lease_ops)"
  "\<forall>op \<in> set example_lease_ops. op_within (\<lambda>_ _. True) (\<lambda>_. 3) (\<lambda>_ _. 2) op"
  "\<forall>op \<in> set example_lease_ops. op_within vk_time (\<lambda>_. 3) (\<lambda>_ _. 2) op"
  by (simp_all add: example_lease_ops_def slot_max_def vk_time_def)

section \<open>Properties\<close>

text \<open>
  C8.  Slots in memory: whatever the sequence of reservations, scoped reservations, releases and
  renewals, at whatever times and in whatever iteration order of the hash table, the leases a pool
  holds, expired ones included, never exceed its limit, nor those of a scope the scope's limit.
\<close>

theorem mem_slots_within_limits:
  assumes "\<forall>es. mset (ord es) = mset es" "distinct (new_ids ops)"
    and "\<forall>op \<in> set ops. op_within (\<lambda>_ _. True) L SL op"
  shows "slots (mem_entries (ledger_run (mem_grant ord) (mem_grant_scoped ord) mem_forget mem_extend ops Map.empty) p) \<le> L p \<and>
    (sc \<noteq> [] \<longrightarrow> slots (scoped sc (mem_entries
      (ledger_run (mem_grant ord) (mem_grant_scoped ord) mem_forget mem_extend ops Map.empty) p)) \<le> SL p sc)"
proof -
  have c: "mem_coordinator ord" using assms(1) by unfold_locales blast
  show ?thesis by (rule mem_coordinator.run_limits [OF c assms(2,3)])
qed

theorem mem_slots_within_limits_witness:
  "slots (mem_entries (ledger_run (mem_grant rev) (mem_grant_scoped rev) mem_forget mem_extend
       example_lease_ops Map.empty) ''p'') \<le> 3 \<and>
   slots (scoped ''a'' (mem_entries (ledger_run (mem_grant rev) (mem_grant_scoped rev) mem_forget mem_extend
       example_lease_ops Map.empty) ''p'')) \<le> 2"
  using mem_slots_within_limits [of rev example_lease_ops "\<lambda>_. 3" "\<lambda>_ _. 2" "''p''" "''a''"]
    example_lease_ops_ok by simp

text \<open>
  Slots in Valkey: the same for the two Lua scripts over any durations and times, while no key expires,
  given Lua's documented conversions of whole numbers and times below fourteen digits of milliseconds.
\<close>

theorem valkey_slots_within_limits:
  assumes "\<forall>n. tonumber (nat_to_dec n) = Some (f_of_nat n)"
    and "\<forall>n. n < 10 ^ 14 \<longrightarrow> tostring (f_of_nat n) = nat_to_dec n"
    and "\<forall>h. mset (ord h) = mset h" "distinct (new_ids ops)"
    and "\<forall>op \<in> set ops. op_within vk_time L SL op"
  shows "slots (vk_entries ns (ledger_run (vk_grant tonumber tostring ord ns)
       (vk_grant_scoped tonumber tostring ord ns) (vk_forget ns) (vk_extend ns) ops Map.empty) p) \<le> L p \<and>
    (sc \<noteq> [] \<longrightarrow> slots (scoped sc (vk_entries ns (ledger_run (vk_grant tonumber tostring ord ns)
       (vk_grant_scoped tonumber tostring ord ns) (vk_forget ns) (vk_extend ns) ops Map.empty) p)) \<le> SL p sc)"
proof -
  have c: "valkey_coordinator tonumber tostring ord" using assms(1-3) by unfold_locales auto
  show ?thesis by (rule valkey_coordinator.run_limits [OF c assms(4,5)])
qed

theorem valkey_slots_within_limits_witness:
  "slots (vk_entries ''iq'' (ledger_run (vk_grant digits_to_number number_to_digits rev ''iq'')
       (vk_grant_scoped digits_to_number number_to_digits rev ''iq'') (vk_forget ''iq'') (vk_extend ''iq'')
       example_lease_ops Map.empty) ''p'') \<le> 3"
proof -
  have "\<forall>n. digits_to_number (nat_to_dec n) = Some (f_of_nat n)" "\<forall>n. n < 10 ^ 14 \<longrightarrow> number_to_digits (f_of_nat n) = nat_to_dec n"
    using vk_digits.tonumber_dec vk_digits.tostring_dec by blast+
  from valkey_slots_within_limits [OF this _ example_lease_ops_ok(1,3), of rev "''iq''" "''p''" "''a''"]
  show ?thesis by simp
qed

text \<open>
  C10.  The two coordinators decide alike: from states that hold the same leases, a scoped reservation
  of whole units is granted by both or by neither, and leaves both with the same leases.
\<close>

theorem coordinators_agree:
  assumes "\<forall>n. tonumber (nat_to_dec n) = Some (f_of_nat n)"
    and "\<forall>n. n < 10 ^ 14 \<longrightarrow> tostring (f_of_nat n) = nat_to_dec n"
    and "\<forall>h. mset (ord h) = mset h" "\<forall>es. mset (ord' es) = mset es"
    and "mem_ok s" "vk_ok ns s'" "mem_entries s = vk_entries ns s'" "vk_time now ttl" "sc \<noteq> []"
    and "l \<le> slot_max" "sl \<le> slot_max" "k \<le> slot_max" "i \<notin># image_mset fst (mem_entries s p)"
    and "mem_grant_scoped ord' now i p sc l sl k ttl s = (b, t)"
    and "vk_grant_scoped tonumber tostring ord ns now i p sc l sl k ttl s' = (b', t')"
  shows "b = b' \<and> mem_entries t = vk_entries ns t'"
proof -
  have v: "valkey_coordinator tonumber tostring ord" using assms(1-3) by unfold_locales auto
  have m: "mem_coordinator ord'" using assms(4) by unfold_locales blast
  have i': "i \<notin># image_mset fst (vk_entries ns s' p)" using assms(7,13) by simp
  note M = mem_coordinator.mem_grant_scoped_spec [OF m assms(5) assms(9-14)]
  note V = valkey_coordinator.vk_grant_scoped_spec [OF v assms(6,8,9-12) i' assms(15)]
  from M V have "b = b'" unfolding assms(7) by blast
  then show ?thesis using M V unfolding assms(7) by simp
qed

theorem coordinators_agree_witness:
  "\<exists>b t b' t'. mem_grant_scoped rev 0 1 ''p'' ''a'' 3 2 1 10 Map.empty = (b, t) \<and>
     vk_grant_scoped digits_to_number number_to_digits rev ''iq'' 0 1 ''p'' ''a'' 3 2 1 10 Map.empty = (b', t') \<and>
     b = b' \<and> mem_entries t = vk_entries ''iq'' t'"
proof -
  obtain b t where m: "mem_grant_scoped rev 0 1 ''p'' ''a'' 3 2 1 10 Map.empty = (b, t)" by force
  obtain b' t' where v: "vk_grant_scoped digits_to_number number_to_digits rev ''iq'' 0 1 ''p'' ''a'' 3 2 1 10 Map.empty = (b', t')"
    by force
  have c: "\<forall>n. digits_to_number (nat_to_dec n) = Some (f_of_nat n)"
    "\<forall>n. n < 10 ^ 14 \<longrightarrow> number_to_digits (f_of_nat n) = nat_to_dec n"
    using vk_digits.tonumber_dec vk_digits.tostring_dec by blast+
  have e: "mem_ok Map.empty" "vk_ok ''iq'' Map.empty" "mem_entries Map.empty = vk_entries ''iq'' Map.empty"
    "1 \<notin># image_mset fst (mem_entries Map.empty ''p'')" "vk_time 0 10"
    by (simp_all add: mem_ok_def vk_ok_def mem_entries_def vk_entries_def entry_or_default_def hgetall_def
        pool_ok_def hash_ok_def hm_ok_def vk_time_def fun_eq_iff)
  have "3 \<le> slot_max" "2 \<le> slot_max" "1 \<le> slot_max" by (simp_all add: slot_max_def)
  from coordinators_agree [OF c _ _ e(1-3,5) _ this e(4) m v] m v show ?thesis by simp
qed

text \<open>
  C11.  Fractional units: when the in-memory coordinator grants a scoped lease, the exact total of the
  pool's unexpired leases, the new one included, times \<open>(1 - 2 ^ -53) ^ n\<close> for \<open>n\<close> leases, is within the
  pool's limit, and the same holds for the scope and its limit.
\<close>

theorem mem_total_within_rounding:
  assumes "\<forall>es. mset (ord es) = mset es" "amounts_ok (entry_or_default s p)" "f_ok u"
    and "i \<notin> fst ` set (entry_or_default s p)"
    and "mem_reserve_scoped ord now i p sc l sl u ttl s = (Inr (Some x), t)"
  shows "(1 - f_unit) ^ length (entry_or_default t p) * lease_total (entry_or_default t p) \<le> f_val l \<and>
    (1 - f_unit) ^ length (of_scope sc (entry_or_default t p)) * lease_total (of_scope sc (entry_or_default t p)) \<le> f_val sl"
proof -
  define es where "es = retain_live now (entry_or_default s p)"
  note g = reserve_scoped_grant [OF assms(5), folded es_def]
  have ok: "amounts_ok es" unfolding es_def using assms(2) by (rule amounts_ok_retain)
  have i: "i \<notin> fst ` set es" using assms(4) by (auto simp: es_def retain_live_def)
  have t: "entry_or_default t p = es @ [(i, u, now + ttl, Some sc)]"
    unfolding g(1) using i by (rule update_fresh)
  have s: "set (ord es) = set es" using assms(1) by (metis set_mset_mset)
  then have a: "\<forall>(_, u, _, _) \<in> set (ord es). f_ok u \<and> f_of 0 \<le> u"
    "\<forall>(_, u, _, _) \<in> set (of_scope sc (ord es)). f_ok u \<and> f_of 0 \<le> u"
    using ok by (auto simp: amounts_ok_def of_scope_def)
  have m: "mset (ord es) = mset es" "mset (of_scope sc (ord es)) = mset (of_scope sc es)"
    using assms(1) by (simp_all add: of_scope_def mset_filter)
  note P = passed_test [OF a(1) assms(3) g(5,2) g(6) [unfolded used_units_def]]
    and S = passed_test [OF a(2) assms(3) g(5,3) g(7) [unfolded scope_units_def, folded of_scope_def]]
  have "length (entry_or_default t p) = length (ord es) + 1"
    "lease_total (entry_or_default t p) = lease_total (ord es) + f_val u"
    using mset_eq_length [OF m(1)] lease_total_mset [OF m(1)] by (simp_all add: t) (simp add: lease_total_def)
  moreover have "length (of_scope sc (entry_or_default t p)) = length (of_scope sc (ord es)) + 1"
    "lease_total (of_scope sc (entry_or_default t p)) = lease_total (of_scope sc (ord es)) + f_val u"
    using mset_eq_length [OF m(2)] lease_total_mset [OF m(2)]
    by (simp_all add: t of_scope_def) (simp add: lease_total_def)
  ultimately show ?thesis using P S by (simp only: simp_thms)
qed

theorem mem_total_within_rounding_witness:
  "\<exists>x t. mem_reserve_scoped rev 0 1 ''p'' ''a'' (f_of 4) (f_of 3) (f_of (5 / 2)) 10 Map.empty = (Inr (Some x), t) \<and>
    (1 - f_unit) ^ length (entry_or_default t ''p'') * lease_total (entry_or_default t ''p'') \<le> f_val (f_of 4)"
proof -
  have "fst (granted (mem_reserve_scoped rev 0 1 ''p'' ''a'' (f_of 4) (f_of 3) (f_of (5 / 2)) 10 Map.empty))"
    by code_simp
  then obtain x t where g: "mem_reserve_scoped rev 0 1 ''p'' ''a'' (f_of 4) (f_of 3) (f_of (5 / 2)) 10 Map.empty = (Inr (Some x), t)"
    by (cases "mem_reserve_scoped rev 0 1 ''p'' ''a'' (f_of 4) (f_of 3) (f_of (5 / 2)) 10 Map.empty" rule: granted.cases) auto
  have e: "entry_or_default Map.empty ''p'' = []" by (simp add: entry_or_default_def)
  show ?thesis
    using mem_total_within_rounding [OF _ _ f_ok_of _ g] g by (simp add: e amounts_ok_def hm_ok_def)
qed

end
