(* ===== verification/Coordinator_Expiry.thy ===== *)
theory Coordinator_Expiry
  imports Coordinator_Properties
begin

text \<open>
  The life of a pool's key in Valkey.  Both scripts set it with \<^verbatim>\<open>PEXPIRE\<close>, and the server drops the whole
  hash, with every lease in it, once it ends.  The model adds the server's deadlines to the hashes and
  drops the keys that have passed theirs before each call; the server's clock and the caller's are
  separate.  What is shown: the second of slack that the scripts add covers two clocks half a second
  off, so no lease is lost while a caller would still count it.
\<close>

section \<open>The server\<close>

record valkey_server =
  server_keys :: valkey_state
  server_deadline :: "string \<rightharpoonup> nat"

definition empty_server :: valkey_server where
  "empty_server = \<lparr>server_keys = Map.empty, server_deadline = Map.empty\<rparr>"

text \<open>A key is gone from its deadline on.\<close>

definition expire_keys :: "nat \<Rightarrow> valkey_server \<Rightarrow> valkey_server" where
  "expire_keys tick s =
     (let due = (\<lambda>key. case server_deadline s key of None \<Rightarrow> False | Some d \<Rightarrow> d \<le> tick)
      in \<lparr>server_keys = (\<lambda>key. if due key then None else server_keys s key),
          server_deadline = (\<lambda>key. if due key then None else server_deadline s key)\<rparr>)"

text \<open>
  The \<^verbatim>\<open>PEXPIRE\<close> a call issues, if any: its key and its milliseconds.  A reservation issues one when it is
  granted, a renewal when it finds the lease.
\<close>

definition reserve_pexpire ::
  "(string \<Rightarrow> f64 option) \<Rightarrow> (f64 \<Rightarrow> string) \<Rightarrow> (valkey_hash \<Rightarrow> valkey_hash) \<Rightarrow> string \<Rightarrow> nat \<Rightarrow> uuid
     \<Rightarrow> string \<Rightarrow> string \<Rightarrow> f64 \<Rightarrow> f64 \<Rightarrow> f64 \<Rightarrow> nat \<Rightarrow> valkey_state \<Rightarrow> (string \<times> nat) option" where
  "reserve_pexpire tonumber tostring ord ns now new_id pool scope limit scope_limit units ttl_ms st =
     (let key = valkey_key ns pool;
          (_, _, life) = reserve_script tonumber tostring ord (f_of_nat now) limit units new_id
             (f_of_nat (saturating_add now ttl_ms)) scope scope_limit (hgetall st key)
      in map_option (\<lambda>ms. (key, nat \<lfloor>f_val ms\<rfloor>)) life)"

definition renew_pexpire :: "string \<Rightarrow> nat \<Rightarrow> uuid \<Rightarrow> string \<Rightarrow> nat \<Rightarrow> valkey_state \<Rightarrow> (string \<times> nat) option" where
  "renew_pexpire ns now f pool ttl_ms st =
     (let key = valkey_key ns pool
      in if fst (renew_script f (nat_to_dec (saturating_add now ttl_ms)) (hgetall st key)) = Some 1
         then Some (key, saturating_add ttl_ms 1000) else None)"

fun call_pexpire where
  "call_pexpire tonumber tostring ord ns (LeaseReserve now i p l k ttl) st =
     reserve_pexpire tonumber tostring ord ns now i p [] (f_of_nat l) (f_of_nat l) (f_of_nat k) ttl st"
| "call_pexpire tonumber tostring ord ns (LeaseScoped now i p sc l sl k ttl) st =
     reserve_pexpire tonumber tostring ord ns now i p sc (f_of_nat l) (f_of_nat sl) (f_of_nat k) ttl st"
| "call_pexpire tonumber tostring ord ns (LeaseRelease i p) st = None"
| "call_pexpire tonumber tostring ord ns (LeaseRenew now i p ttl) st = renew_pexpire ns now i p ttl st"

text \<open>A call that reaches the server at its time \<open>tick\<close>; the caller's time is in the call.\<close>

definition server_call where
  "server_call tonumber tostring ord ns tick op s =
     (let s' = expire_keys tick s; st = server_keys s'
      in \<lparr>server_keys = ledger_step (vk_grant tonumber tostring ord ns)
             (vk_grant_scoped tonumber tostring ord ns) (vk_forget ns) (vk_extend ns) op st,
          server_deadline =
            (case call_pexpire tonumber tostring ord ns op st of
               None \<Rightarrow> server_deadline s'
             | Some (key, ms) \<Rightarrow> (server_deadline s')(key \<mapsto> tick + ms))\<rparr>)"

definition server_run where
  "server_run tonumber tostring ord ns calls s =
     foldl (\<lambda>s (tick, op). server_call tonumber tostring ord ns tick op s) s calls"

text \<open>
  The calls of replicas that share one lease duration and whose clocks are within half a second of
  the server's.
\<close>

fun timely :: "nat \<Rightarrow> nat \<times> lease_op \<Rightarrow> bool" where
  "timely ttl (tick, LeaseReserve now _ _ _ _ d) \<longleftrightarrow> d = ttl \<and> now \<le> tick + 500 \<and> tick \<le> now + 500"
| "timely ttl (tick, LeaseScoped now _ _ _ _ _ _ d) \<longleftrightarrow> d = ttl \<and> now \<le> tick + 500 \<and> tick \<le> now + 500"
| "timely ttl (tick, LeaseRelease _ _) \<longleftrightarrow> True"
| "timely ttl (tick, LeaseRenew now _ _ d) \<longleftrightarrow> d = ttl \<and> now \<le> tick + 500 \<and> tick \<le> now + 500"

section \<open>What a key's deadline covers\<close>

text \<open>Every lease of a pool ends half a second before the pool's key does.\<close>

definition outlived :: "string \<Rightarrow> nat \<Rightarrow> nat \<Rightarrow> valkey_server \<Rightarrow> bool" where
  "outlived ns tick ttl s \<longleftrightarrow> (\<forall>p. \<forall>e \<in># vk_entries ns (server_keys s) p. entry_expiry e \<le> tick + 500 + ttl \<and>
     (\<exists>d. server_deadline s (valkey_key ns p) = Some d \<and> entry_expiry e + 500 \<le> d))"

lemma f_life:
  assumes "now + ttl + 1000 \<le> 2 ^ 53"
  shows "nat \<lfloor>f_val (f_max (f_of 1000) (f_of_nat (now + ttl) - f_of_nat now + f_of 1000))\<rfloor> = ttl + 1000"
proof -
  have d: "f_of_nat (now + ttl) - f_of_nat now = Fin False (of_nat ttl)"
  proof -
    have "f_of (of_nat ttl) = Fin False (of_nat ttl)" using assms by (intro f_of_small_nat) simp
    then show ?thesis using assms by (simp add: f_of_nat_small f_ops Let_def)
  qed
  have k: "f_of 1000 = Fin False (of_nat 1000)"
    using f_of_small_nat [of 1000] by simp
  have s: "Fin False (of_nat ttl) + Fin False (of_nat 1000) = Fin False (of_nat (ttl + 1000))"
    using f_of_small_nat [of "ttl + 1000"] assms by (simp add: f_ops Let_def)
  show ?thesis unfolding d k s by (auto simp: f_max_def f_ops)
qed

text \<open>Dropping keys keeps the hashes well formed and loses only leases that have ended.\<close>

lemma expire_keys_entries:
  "vk_entries ns (server_keys (expire_keys tick s)) p =
     (case server_deadline s (valkey_key ns p) of
        Some d \<Rightarrow> if d \<le> tick then {#} else vk_entries ns (server_keys s) p
      | None \<Rightarrow> vk_entries ns (server_keys s) p)"
  by (simp add: expire_keys_def vk_entries_def hgetall_def split: option.splits)

lemma expire_keys_sub:
  "vk_entries ns (server_keys (expire_keys tick s)) p = {#} \<or>
   vk_entries ns (server_keys (expire_keys tick s)) p = vk_entries ns (server_keys s) p"
  by (auto simp: expire_keys_entries split: option.splits)

lemma expire_keys_ok: "vk_ok ns (server_keys s) \<Longrightarrow> vk_ok ns (server_keys (expire_keys tick s))"
  by (auto simp: expire_keys_def vk_ok_def hgetall_def hash_ok_def hm_ok_def split: option.splits)

lemma expire_keys_live:
  assumes "outlived ns t ttl s" "tick \<le> now + 500"
  shows "live now (vk_entries ns (server_keys (expire_keys tick s)) p) = live now (vk_entries ns (server_keys s) p)"
proof (cases "\<exists>d. server_deadline s (valkey_key ns p) = Some d \<and> d \<le> tick")
  case True
  then have "entry_expiry e \<le> now" if "e \<in># vk_entries ns (server_keys s) p" for e
    using that assms by (fastforce simp: outlived_def)
  then have "live now (vk_entries ns (server_keys s) p) = {#}"
    by (auto simp: live_alt filter_mset_eq_conv not_less)
  with True show ?thesis by (auto simp: expire_keys_entries)
qed (auto simp: expire_keys_entries split: option.splits)

lemma expire_keys_outlived:
  assumes "outlived ns t ttl s" "t \<le> tick"
  shows "outlived ns tick ttl (expire_keys tick s)"
  using assms unfolding outlived_def expire_keys_entries
  by (fastforce simp: expire_keys_def split: option.splits if_splits)

section \<open>Calls\<close>

text \<open>A change of one pool keeps the invariant when the pool's leases stay within the key's deadline.\<close>

lemma outlived_upd:
  assumes "outlived ns tick ttl s" "vk_entries ns st = (vk_entries ns (server_keys s))(p := M)"
    and "\<And>q. q \<noteq> p \<Longrightarrow> D (valkey_key ns q) = server_deadline s (valkey_key ns q)"
    and "\<And>e. e \<in># M \<Longrightarrow> entry_expiry e \<le> tick + 500 + ttl \<and>
      (\<exists>d. D (valkey_key ns p) = Some d \<and> entry_expiry e + 500 \<le> d)"
  shows "outlived ns tick ttl \<lparr>server_keys = st, server_deadline = D\<rparr>"
  using assms unfolding outlived_def by (auto split: if_splits)

lemma grant_outlived:
  assumes "outlived ns tick ttl s" "now \<le> tick + 500"
    and "vk_entries ns st = (vk_entries ns (server_keys s))(p :=
      (if b then {#(i, k, now + ttl, sc)#} else {#}) + live now (vk_entries ns (server_keys s) p))"
  shows "outlived ns tick ttl \<lparr>server_keys = st, server_deadline =
    (case if b then Some (valkey_key ns p, ttl + 1000) else None of
       None \<Rightarrow> server_deadline s | Some (key, ms) \<Rightarrow> (server_deadline s)(key \<mapsto> tick + ms))\<rparr>"
proof (rule outlived_upd [OF assms(1,3)], goal_cases)
  case (2 e)
  consider "b" "e = (i, k, now + ttl, sc)" | "e \<in># vk_entries ns (server_keys s) p"
    using 2 by (auto simp: live_def split: if_splits)
  then show ?case using assms(1,2) by cases (fastforce simp: outlived_def)+
qed simp

lemma renew_outlived:
  assumes "outlived ns tick ttl s" "now \<le> tick + 500"
    and "vk_entries ns st = (vk_entries ns (server_keys s))(p := moved i (now + ttl) (vk_entries ns (server_keys s) p))"
  shows "outlived ns tick ttl \<lparr>server_keys = st, server_deadline =
    (case if i \<in># image_mset fst (vk_entries ns (server_keys s) p) then Some (valkey_key ns p, ttl + 1000) else None of
       None \<Rightarrow> server_deadline s | Some (key, ms) \<Rightarrow> (server_deadline s)(key \<mapsto> tick + ms))\<rparr>"
proof (rule outlived_upd [OF assms(1,3)], goal_cases)
  case (2 e)
  then obtain j k x sc where o: "(j, k, x, sc) \<in># vk_entries ns (server_keys s) p"
    "e = (j, k, if j = i then now + ttl else x, sc)" by auto
  then have x: "x \<le> tick + 500 + ttl"
    "\<exists>d. server_deadline s (valkey_key ns p) = Some d \<and> x + 500 \<le> d"
    using assms(1) by (fastforce simp: outlived_def)+
  show ?case
  proof (cases "i \<in># image_mset fst (vk_entries ns (server_keys s) p)")
    case True
    then show ?thesis using x(1) assms(2) by (simp add: o(2))
  next
    case False
    with o(1) have "j \<noteq> i" by force
    then show ?thesis using x False by (simp add: o(2))
  qed
qed simp

context valkey_coordinator
begin

lemma reserve_pexpire_fit:
  assumes "vk_ok ns st" "vk_time now ttl" "l \<le> slot_max" "sl \<le> slot_max" "k \<le> slot_max"
    and "i \<notin># image_mset fst (vk_entries ns st p)"
  shows "reserve_pexpire tonumber tostring ord ns now i p sc (f_of_nat l) (f_of_nat sl) (f_of_nat k) ttl st =
    (if slots (live now (vk_entries ns st p)) + k \<le> l \<and> slots (scoped sc (live now (vk_entries ns st p))) + k \<le> sl
     then Some (valkey_key ns p, ttl + 1000) else None)"
proof -
  let ?h = "hgetall st (valkey_key ns p)"
  note tm = vk_time_nums [OF assms(2)]
  have h: "hash_ok ?h" using assms(1) by (simp add: vk_ok_def)
  obtain r h' x where r: "reserve_script tonumber tostring ord (f_of_nat now) (f_of_nat l) (f_of_nat k) i
      (f_of_nat (now + ttl)) sc (f_of_nat sl) ?h = (r, h', x)" by (rule prod_cases3)
  note spec = reserve_script_spec [OF h tm(4,6) assms(3-5) fresh_field [OF assms(6)] r, folded vk_entries_def]
  have x: "x = (if r = Some 1 then Some (f_max (f_of 1000) (f_of_nat (now + ttl) - f_of_nat now + f_of 1000)) else None)"
    using r unfolding reserve_script_def by (auto split: sum.splits prod.splits if_splits)
  have "nat \<lfloor>f_val (f_max (f_of 1000) (f_of_nat (now + ttl) - f_of_nat now + f_of 1000))\<rfloor> = ttl + 1000"
    using tm(6) by (intro f_life) simp
  with spec x show ?thesis by (simp add: reserve_pexpire_def Let_def tm(3) r)
qed

lemma renew_pexpire_found:
  assumes "vk_ok ns st" "vk_time now ttl"
  shows "renew_pexpire ns now i p ttl st =
    (if i \<in># image_mset fst (vk_entries ns st p) then Some (valkey_key ns p, ttl + 1000) else None)"
proof -
  let ?h = "hgetall st (valkey_key ns p)"
  have "fst (renew_script i (nat_to_dec (now + ttl)) ?h) = Some 1 \<longleftrightarrow> i \<in># image_mset fst (vk_entries ns st p)"
  proof (cases "map_of ?h i")
    case None
    then have "i \<notin># image_mset fst (vk_entries ns st p)"
      by (simp add: vk_entries_def fst_val_entry image_mset.compositionality comp_def map_of_eq_None_iff)
    with None show ?thesis by (simp add: renew_script_def)
  next
    case (Some v)
    then have iv: "(i, v) \<in> set ?h" by (rule map_of_SomeD)
    have "\<forall>x \<in> set ?h. value_ok x" using assms(1) unfolding vk_ok_def hash_ok_def list_all_iff by blast
    with iv have "value_ok (i, v)" by blast
    then obtain k x sc where "v = printed k x sc" by (auto split: prod.splits)
    with Some have "fst (renew_script i (nat_to_dec (now + ttl)) ?h) = Some 1"
      by (simp add: renew_script_def lua_parts_printed)
    moreover have "i \<in># image_mset fst (vk_entries ns st p)"
      using iv by (force simp: vk_entries_def fst_val_entry image_mset.compositionality comp_def)
    ultimately show ?thesis by simp
  qed
  then show ?thesis
    using assms(2) by (simp add: renew_pexpire_def Let_def vk_time_nums(3) [OF assms(2)] saturating_add_def u64_max_def vk_time_def)
qed

lemma call_outlived:
  assumes "vk_ok ns (server_keys s)" "outlived ns tick ttl s" "timely ttl (tick, op)"
    and "op_within vk_time L SL op" "set (new_ids [op]) \<inter> vk.ids (server_keys s) = {}"
  shows "outlived ns tick ttl
    \<lparr>server_keys = ledger_step (vk_grant tonumber tostring ord ns) (vk_grant_scoped tonumber tostring ord ns)
       (vk_forget ns) (vk_extend ns) op (server_keys s),
     server_deadline = (case call_pexpire tonumber tostring ord ns op (server_keys s) of
       None \<Rightarrow> server_deadline s | Some (key, ms) \<Rightarrow> (server_deadline s)(key \<mapsto> tick + ms))\<rparr>"
proof (cases op)
  case (LeaseReserve now i p l k d)
  let ?V = "live now (vk_entries ns (server_keys s) p)"
  have o: "vk_time now ttl" "l \<le> slot_max" "k \<le> slot_max" "i \<notin># image_mset fst (vk_entries ns (server_keys s) p)"
    "now \<le> tick + 500" "d = ttl"
    using assms(3-5) by (auto simp: LeaseReserve vk.ids_def)
  note g = vk_grant_spec [OF assms(1) o(1-4) prod.collapse [symmetric]]
  have "slots (scoped [] ?V) \<le> slots ?V" unfolding scoped_def by (rule slots_filter_le)
  then have x: "call_pexpire tonumber tostring ord ns op (server_keys s) =
      (if fst (vk_grant tonumber tostring ord ns now i p l k ttl (server_keys s))
       then Some (valkey_key ns p, ttl + 1000) else None)"
    using g reserve_pexpire_fit [OF assms(1) o(1,2,2,3,4), of "[]"] by (auto simp: LeaseReserve o(6))
  show ?thesis unfolding x unfolding LeaseReserve o(6) ledger_step.simps
    using g by (intro grant_outlived [OF assms(2) o(5)]) blast
next
  case (LeaseScoped now i p sc l sl k d)
  have o: "vk_time now ttl" "sc \<noteq> []" "l \<le> slot_max" "sl \<le> slot_max" "k \<le> slot_max"
    "i \<notin># image_mset fst (vk_entries ns (server_keys s) p)" "now \<le> tick + 500" "d = ttl"
    using assms(3-5) by (auto simp: LeaseScoped vk.ids_def)
  note g = vk_grant_scoped_spec [OF assms(1) o(1-6) prod.collapse [symmetric]]
  have x: "call_pexpire tonumber tostring ord ns op (server_keys s) =
      (if fst (vk_grant_scoped tonumber tostring ord ns now i p sc l sl k ttl (server_keys s))
       then Some (valkey_key ns p, ttl + 1000) else None)"
    using g reserve_pexpire_fit [OF assms(1) o(1,3,4,5,6), of sc] by (auto simp: LeaseScoped o(8))
  show ?thesis unfolding x unfolding LeaseScoped o(8) ledger_step.simps
    using g by (intro grant_outlived [OF assms(2) o(7)]) blast
next
  case (LeaseRelease i p)
  show ?thesis unfolding LeaseRelease ledger_step.simps call_pexpire.simps option.case
    by (rule outlived_upd [OF assms(2) conjunct2 [OF vk_forget_spec [OF assms(1)]]])
      (use assms(2) in \<open>auto simp: outlived_def\<close>)
next
  case (LeaseRenew now i p d)
  have o: "vk_time now ttl" "now \<le> tick + 500" "d = ttl" using assms(3,4) by (auto simp: LeaseRenew)
  note g = vk_extend_spec [OF assms(1) o(1) prod.collapse [symmetric], of i p]
  have e: "vk_entries ns (snd (vk_extend ns now i p ttl (server_keys s))) =
      (vk_entries ns (server_keys s))(p := moved i (now + ttl) (vk_entries ns (server_keys s) p))"
    using g by blast
  show ?thesis unfolding LeaseRenew ledger_step.simps call_pexpire.simps o(3) renew_pexpire_found [OF assms(1) o(1)]
    by (rule renew_outlived [OF assms(2) o(2) e])
qed

lemma expire_keys_within:
  assumes "vk.in_limits L SL (server_keys s)"
  shows "vk.in_limits L SL (server_keys (expire_keys tick s))"
  unfolding vk.in_limits_def
proof (rule allI)
  fix p
  show "slots (vk_entries ns (server_keys (expire_keys tick s)) p) \<le> L p \<and>
    (\<forall>sc. sc \<noteq> [] \<longrightarrow> slots (scoped sc (vk_entries ns (server_keys (expire_keys tick s)) p)) \<le> SL p sc)"
    using expire_keys_sub [of ns tick s p] assms by (auto simp: vk.in_limits_def)
qed

lemma expire_keys_ids: "vk.ids (server_keys (expire_keys tick s)) \<subseteq> vk.ids (server_keys s)"
proof
  fix i assume "i \<in> vk.ids (server_keys (expire_keys tick s))"
  then obtain p where "i \<in># image_mset fst (vk_entries ns (server_keys (expire_keys tick s)) p)"
    by (auto simp: vk.ids_def)
  then show "i \<in> vk.ids (server_keys s)"
    using expire_keys_sub [of ns tick s p] unfolding vk.ids_def by force
qed

lemma server_run_inv:
  assumes "vk_ok ns (server_keys s)" "vk.in_limits L SL (server_keys s)" "outlived ns t ttl s"
    and "sorted (t # map fst calls)" "distinct (new_ids (map snd calls))"
    and "set (new_ids (map snd calls)) \<inter> vk.ids (server_keys s) = {}"
    and "\<forall>c \<in> set calls. timely ttl c \<and> op_within vk_time L SL (snd c)"
  defines "u \<equiv> server_run tonumber tostring ord ns calls s"
  shows "vk_ok ns (server_keys u) \<and> vk.in_limits L SL (server_keys u) \<and>
    outlived ns (last (t # map fst calls)) ttl u"
  using assms(1-7) unfolding u_def
proof (induction calls arbitrary: s t)
  case (Cons c calls)
  obtain tick op where c: "c = (tick, op)" by (cases c)
  let ?e = "expire_keys tick s"
  let ?u = "server_call tonumber tostring ord ns tick op s"
  have n: "new_ids (map snd (c # calls)) = new_ids [op] @ new_ids (map snd calls)"
    using new_ids_Cons [of op "map snd calls"] by (simp add: c)
  have e: "vk_ok ns (server_keys ?e)" "vk.in_limits L SL (server_keys ?e)" "outlived ns tick ttl ?e"
    using expire_keys_ok [OF Cons.prems(1)] expire_keys_within [OF Cons.prems(2)]
      expire_keys_outlived [OF Cons.prems(3)] Cons.prems(4) by (auto simp: c)
  have d: "distinct (new_ids (map snd calls))" using Cons.prems(5) unfolding n by simp
  have i: "set (new_ids [op]) \<inter> vk.ids (server_keys ?e) = {}"
    "set (new_ids (map snd calls)) \<inter> vk.ids (server_keys ?e) = {}"
    "set (new_ids [op]) \<inter> set (new_ids (map snd calls)) = {}"
    using Cons.prems(5,6) expire_keys_ids [of tick s] unfolding n distinct_append set_append by blast+
  have op: "timely ttl (tick, op)" "op_within vk_time L SL op" using Cons.prems(7) by (auto simp: c)
  have w: "vk_ok ns (server_keys ?u) \<and> vk.in_limits L SL (server_keys ?u) \<and>
      vk.ids (server_keys ?u) \<subseteq> set (new_ids [op]) \<union> vk.ids (server_keys ?e)"
    using vk.step_within [OF e(1,2) i(1) op(2)] by (simp add: server_call_def Let_def)
  have o: "outlived ns tick ttl ?u"
    using call_outlived [OF e(1,3) op i(1)] unfolding server_call_def Let_def .
  have "vk_ok ns (server_keys (server_run tonumber tostring ord ns calls ?u)) \<and>
      vk.in_limits L SL (server_keys (server_run tonumber tostring ord ns calls ?u)) \<and>
      outlived ns (last (tick # map fst calls)) ttl (server_run tonumber tostring ord ns calls ?u)"
  proof (rule Cons.IH)
    show "set (new_ids (map snd calls)) \<inter> vk.ids (server_keys ?u) = {}"
      using w i(2,3) by blast
  qed (use w o d Cons.prems(4,7) in \<open>auto simp: c\<close>)
  then show ?case by (simp add: server_run_def c)
qed (simp add: server_run_def)

lemma server_run_empty:
  assumes "sorted (map fst calls)" "distinct (new_ids (map snd calls))"
    and "\<forall>c \<in> set calls. timely ttl c \<and> op_within vk_time L SL (snd c)"
  defines "u \<equiv> server_run tonumber tostring ord ns calls empty_server"
  shows "outlived ns (last (0 # map fst calls)) ttl u \<and> slots (vk_entries ns (server_keys u) p) \<le> L p \<and>
    (sc \<noteq> [] \<longrightarrow> slots (scoped sc (vk_entries ns (server_keys u) p)) \<le> SL p sc)"
proof -
  have e: "vk_entries ns (server_keys empty_server) p = {#}" for p
    by (simp add: vk_entries_def hgetall_def empty_server_def)
  have "vk_ok ns (server_keys u) \<and> vk.in_limits L SL (server_keys u) \<and> outlived ns (last (0 # map fst calls)) ttl u"
    unfolding u_def
  proof (rule server_run_inv)
    show "vk_ok ns (server_keys empty_server)"
      by (simp add: vk_ok_def hgetall_def hash_ok_def hm_ok_def empty_server_def)
  qed (use assms(1-3) in \<open>simp_all add: vk.in_limits_def vk.ids_def outlived_def e\<close>)
  then show ?thesis by (simp add: vk.in_limits_def)
qed

end

section \<open>No live lease is lost\<close>

text \<open>
  C9.  Key expiry: from an empty server, after any calls of replicas that share one lease duration and
  whose clocks stay within half a second of the server's, dropping the keys whose \<^verbatim>\<open>PEXPIRE\<close> has run out
  takes away no lease that a caller with such a clock still counts, in any pool, at any later time;
  and every pool and scope stays within its limits.
\<close>

theorem expiry_keeps_live_leases:
  assumes "\<forall>n. tonumber (nat_to_dec n) = Some (f_of_nat n)"
    and "\<forall>n. n < 10 ^ 14 \<longrightarrow> tostring (f_of_nat n) = nat_to_dec n"
    and "\<forall>h. mset (ord h) = mset h"
    and "sorted (map fst calls)" "distinct (new_ids (map snd calls))"
    and "\<forall>c \<in> set calls. timely ttl c \<and> op_within vk_time L SL (snd c)"
    and "tick \<le> now + 500"
  shows "live now (vk_entries ns (server_keys
       (expire_keys tick (server_run tonumber tostring ord ns calls empty_server))) p) =
     live now (vk_entries ns (server_keys (server_run tonumber tostring ord ns calls empty_server)) p) \<and>
     slots (vk_entries ns (server_keys (server_run tonumber tostring ord ns calls empty_server)) p) \<le> L p \<and>
     (sc \<noteq> [] \<longrightarrow>
       slots (scoped sc (vk_entries ns (server_keys (server_run tonumber tostring ord ns calls empty_server)) p)) \<le> SL p sc)"
proof -
  have c: "valkey_coordinator tonumber tostring ord" using assms(1-3) by unfold_locales auto
  note inv = valkey_coordinator.server_run_empty [OF c assms(4-6), of ns p sc]
  with expire_keys_live [OF conjunct1 [OF inv] assms(7), of p] show ?thesis by blast
qed

definition example_calls :: "(nat \<times> lease_op) list" where
  "example_calls = [(1000, LeaseScoped 900 1 ''p'' ''a'' 3 2 1 60000), (1300, LeaseReserve 1500 2 ''p'' 3 1 60000),
     (40000, LeaseRenew 40100 1 ''p'' 60000), (40100, LeaseRelease 2 ''p'')]"

theorem expiry_keeps_live_leases_witness:
  "live 100400 (vk_entries ''iq'' (server_keys (expire_keys 100900
      (server_run digits_to_number number_to_digits rev ''iq'' example_calls empty_server))) ''p'') =
   live 100400 (vk_entries ''iq'' (server_keys
      (server_run digits_to_number number_to_digits rev ''iq'' example_calls empty_server)) ''p'')"
proof -
  have "\<forall>n. digits_to_number (nat_to_dec n) = Some (f_of_nat n)"
    "\<forall>n. n < 10 ^ 14 \<longrightarrow> number_to_digits (f_of_nat n) = nat_to_dec n"
    using vk_digits.tonumber_dec vk_digits.tostring_dec by blast+
  from expiry_keeps_live_leases [OF this, of rev example_calls 60000 "\<lambda>_. 3" "\<lambda>_ _. 2" 100900 100400 "''iq''" "''p''"]
  show ?thesis by (simp add: example_calls_def slot_max_def vk_time_def)
qed

text \<open>
  The common duration matters: a grant for one second after one for a minute cuts the key's life to
  two seconds, and the longer lease goes with it.
\<close>

lemma shorter_duration_drops_leases:
  "(let s = server_run digits_to_number number_to_digits rev ''iq''
       [(0, LeaseReserve 0 1 ''p'' 3 1 60000), (0, LeaseReserve 0 2 ''p'' 3 1 1000)] empty_server
    in (map_of (hgetall (server_keys s) (valkey_key ''iq'' ''p'')) 1,
        hgetall (server_keys (expire_keys 3000 s)) (valkey_key ''iq'' ''p''))) = (Some ''1:60000:'', [])"
  by code_simp

end
