(* ===== verification/Config.thy ===== *)
theory Config
  imports Core
begin

text \<open>
  The configuration of \<^verbatim>\<open>crates/config/src/lib.rs\<close>: its structures, the defaults of absent fields, the
  substitution of environment variables in the text, and the semantic validation.  Reading a file,
  the YAML parser, and the parsers of networks and URLs are arguments.
\<close>

section \<open>Structures\<close>

datatype mode = ModeShadow | ModeEnforce

record server_tls_config =
  cert_file :: string
  key_file :: string
  client_ca_file :: string

record server_config =
  listen :: string
  tls :: "server_tls_config option"
  max_body_bytes :: nat
  spool_threshold_bytes :: nat
  spool_directory :: string
  config_reload_interval :: duration

record admin_config =
  admin_listen :: string
  bearer_token_env :: "string option"
  expose_decisions :: bool

datatype coordinator_config = CoordMemory | CoordValkey (url_env: string) (cfg_lease_ttl: duration)

record service_class_config =
  cls_weight :: nat
  default_deadline :: duration
  max_queue :: duration
  max_queued :: nat

datatype provider_kind =
  AzureOpenai | AwsBedrock | GcpVertex | OpenaiCompatible | FakeProvider | ExternalGrpc

datatype external_adapter_config =
    AdapterUnix string
  | AdapterLoopback string
  | AdapterTls string string string "string option" "string option"

datatype auth_config = AuthNone | AuthApiKey string string | AuthBearer string | AuthAmbient

record pool_config =
  pool_provider :: provider_kind
  endpoint :: string
  pool_model :: "string option"
  deployment :: "string option"
  region :: "string option"
  external_adapter :: "external_adapter_config option"
  capacity_units :: f64
  auth :: auth_config
  allowed_hosts :: "string list"
  initial_safety_factor :: f64

record tenant_policy =
  tenant_weight :: nat
  guaranteed_share :: f64
  max_share :: f64
  tenant_concurrency :: nat

record application_policy =
  app_tenant :: string
  allowed_classes :: "string list"
  app_weight :: nat
  app_concurrency :: nat
  permitted_pools :: "string list"

record identity_mapping =
  map_principal :: string
  map_tenant :: string
  map_application :: string

record policies =
  tenants :: "(string \<times> tenant_policy) list"
  applications :: "(string \<times> application_policy) list"
  api_keys :: "(string \<times> identity_mapping) list"

record limits_config =
  total_queue_depth :: nat
  total_queue_bytes :: nat
  decision_history :: nat
  expected_replicas :: nat
  allow_unsafe_uncoordinated_ha :: bool

record oidc_config =
  issuer :: string
  audience :: string
  jwks_url :: "string option"
  principal_claim :: string
  tenant_claim :: string
  application_claim :: string
  oidc_required :: bool

record trusted_headers_config =
  hdr_principal :: string
  hdr_tenant :: string
  hdr_application :: string
  hdr_client_cert_san :: string

record identity_config =
  oidc :: "oidc_config option"
  trusted_proxy_cidrs :: "string list"
  trusted_headers :: trusted_headers_config
  mtls_san_mappings :: "(string \<times> identity_mapping) list"
  mtls_certificate_sha256_mappings :: "(string \<times> identity_mapping) list"

record config =
  api_version :: string
  kind :: string
  cfg_mode :: mode
  server :: server_config
  admin :: admin_config
  coordinator :: coordinator_config
  service_classes :: "(string \<times> service_class_config) list"
  cfg_pools :: "(string \<times> pool_config) list"
  cfg_policies :: policies
  identity :: identity_config
  limits :: limits_config

section \<open>Defaults\<close>

definition default_limits :: limits_config where
  "default_limits = \<lparr>total_queue_depth = 10000, total_queue_bytes = 256 * 1024 * 1024,
     decision_history = 2048, expected_replicas = 1, allow_unsafe_uncoordinated_ha = False\<rparr>"

definition default_trusted_headers :: trusted_headers_config where
  "default_trusted_headers = \<lparr>hdr_principal = ''x-inferqos-principal'', hdr_tenant = ''x-inferqos-tenant'',
     hdr_application = ''x-inferqos-application'', hdr_client_cert_san = ''x-forwarded-client-cert-san''\<rparr>"

text \<open>The policy of a tenant whose every field is absent.\<close>

definition default_tenant_policy :: tenant_policy where
  "default_tenant_policy = \<lparr>tenant_weight = 1, guaranteed_share = f_of 0, max_share = f_of 1,
     tenant_concurrency = 100\<rparr>"

section \<open>Validation\<close>

datatype config_error =
    ReadError
  | ParseError
  | Version
  | NoPools
  | BodyLimits
  | TlsPathEmpty string
  | MissingClass string
  | ClassZero string
  | PoolCapacity string
  | PoolSafety string
  | TenantShares string
  | UnknownTenant string string
  | UnknownClass string string
  | AdapterMismatch string
  | AdapterMtls string
  | InvalidCidr string
  | Fingerprint string
  | IssuerInvalid
  | IssuerInsecure
  | AudienceEmpty
  | UncoordinatedReplicas
  | Unclosed
  | InvalidName string
  | NotSet string

text \<open>What the validation asks of a parsed URL.\<close>

record url =
  scheme :: string
  host_str :: "string option"

definition is_ascii_hexdigit :: "char \<Rightarrow> bool" where
  "is_ascii_hexdigit c \<longleftrightarrow> c \<in> set ''0123456789abcdefABCDEF''"

definition in_range :: "f64 \<Rightarrow> f64 \<Rightarrow> f64 \<Rightarrow> bool" where
  "in_range lo hi x \<longleftrightarrow> lo \<le> x \<and> x \<le> hi"

definition validate_tls :: "server_tls_config option \<Rightarrow> config_error + unit" where
  "validate_tls t =
     (case t of
        None \<Rightarrow> Inr ()
      | Some t \<Rightarrow> try_all (map (\<lambda>(label, path). require (path \<noteq> []) (TlsPathEmpty label))
          [(''server TLS certificate'', cert_file t), (''server TLS private key'', key_file t),
           (''mTLS client CA'', client_ca_file t)]))"

definition validate_pool_units :: "string \<times> pool_config \<Rightarrow> config_error + unit" where
  "validate_pool_units = (\<lambda>(name, pool).
     try_all [require (is_finite (capacity_units pool) \<and> \<not> capacity_units pool \<le> f_of 0) (PoolCapacity name),
              require (in_range (f_of 1) (f_of 4) (initial_safety_factor pool)) (PoolSafety name)])"

definition validate_tenant :: "string \<times> tenant_policy \<Rightarrow> config_error + unit" where
  "validate_tenant = (\<lambda>(name, tenant).
     require (in_range (f_of 0) (f_of 1) (guaranteed_share tenant) \<and>
              in_range (guaranteed_share tenant) (f_of 1) (max_share tenant)) (TenantShares name))"

definition validate_application :: "config \<Rightarrow> string \<times> application_policy \<Rightarrow> config_error + unit" where
  "validate_application c = (\<lambda>(name, app).
     try_all (require (map_of (tenants (cfg_policies c)) (app_tenant app) \<noteq> None) (UnknownTenant name (app_tenant app))
       # map (\<lambda>class. require (map_of (service_classes c) class \<noteq> None) (UnknownClass name class))
           (allowed_classes app)))"

definition validate_adapter :: "string \<times> pool_config \<Rightarrow> config_error + unit" where
  "validate_adapter = (\<lambda>(name, pool).
     try_all [require ((pool_provider pool = ExternalGrpc) = (external_adapter pool \<noteq> None)) (AdapterMismatch name),
              require (case external_adapter pool of
                         Some (AdapterTls _ _ _ cert key) \<Rightarrow> (cert \<noteq> None) = (key \<noteq> None)
                       | _ \<Rightarrow> True) (AdapterMtls name)])"

definition validate_oidc :: "(string \<Rightarrow> url option) \<Rightarrow> oidc_config option \<Rightarrow> config_error + unit" where
  "validate_oidc parse_url oidc_opt =
     (case oidc_opt of
        None \<Rightarrow> Inr ()
      | Some oc \<Rightarrow>
          (case parse_url (issuer oc) of
             None \<Rightarrow> Inl IssuerInvalid
           | Some u \<Rightarrow>
               try_all [require (scheme u = ''https'' \<or> host_str u = Some ''localhost'') IssuerInsecure,
                        require (audience oc \<noteq> []) AudienceEmpty]))"

definition validate ::
  "(string \<Rightarrow> 'net option) \<Rightarrow> (string \<Rightarrow> url option) \<Rightarrow> config \<Rightarrow> config_error + unit" where
  "validate parse_net parse_url c =
     try_all [
       require (api_version c = ''inferqos.io/v1alpha1'' \<and> kind c = ''InferQoSConfig'') Version,
       require (cfg_pools c \<noteq> []) NoPools,
       require (max_body_bytes (server c) \<noteq> 0 \<and>
                \<not> max_body_bytes (server c) < spool_threshold_bytes (server c)) BodyLimits,
       validate_tls (tls (server c)),
       try_all (map (\<lambda>r. require (map_of (service_classes c) (class_to_string r) \<noteq> None)
                                 (MissingClass (class_to_string r)))
         [Realtime, Interactive, Standard, Workflow, Batch]),
       try_all (map (\<lambda>(name, class). require (cls_weight class \<noteq> 0 \<and> max_queued class \<noteq> 0) (ClassZero name))
         (service_classes c)),
       try_all (map validate_pool_units (cfg_pools c)),
       try_all (map validate_tenant (tenants (cfg_policies c))),
       try_all (map (validate_application c) (applications (cfg_policies c))),
       try_all (map validate_adapter (cfg_pools c)),
       try_all (map (\<lambda>cidr. require (parse_net cidr \<noteq> None) (InvalidCidr cidr)) (trusted_proxy_cidrs (identity c))),
       try_all (map (\<lambda>(fingerprint, _). require (length fingerprint = 64 \<and> list_all is_ascii_hexdigit fingerprint)
                                                (Fingerprint fingerprint))
         (mtls_certificate_sha256_mappings (identity c))),
       validate_oidc parse_url (oidc (identity c)),
       require (\<not> (1 < expected_replicas (limits c) \<and> coordinator c = CoordMemory \<and>
                   \<not> allow_unsafe_uncoordinated_ha (limits c))) UncoordinatedReplicas]"

section \<open>Environment substitution\<close>

text \<open>\<^verbatim>\<open>rest.find("${")\<close>: the text before and after the first occurrence.\<close>

fun split_dollar :: "string \<Rightarrow> (string \<times> string) option" where
  "split_dollar (a # b # cs) =
     (if a = CHR ''$'' \<and> b = CHR ''{'' then Some ([], cs)
      else map_option (\<lambda>(x, y). (a # x, y)) (split_dollar (b # cs)))"
| "split_dollar _ = None"

text \<open>\<^verbatim>\<open>after.find('}')\<close>\<close>

fun split_brace :: "string \<Rightarrow> (string \<times> string) option" where
  "split_brace [] = None"
| "split_brace (c # cs) =
     (if c = CHR ''}'' then Some ([], cs) else map_option (\<lambda>(x, y). (c # x, y)) (split_brace cs))"

definition is_name_char :: "char \<Rightarrow> bool" where
  "is_name_char c \<longleftrightarrow>
     c \<in> set ''0123456789abcdefghijklmnopqrstuvwxyzABCDEFGHIJKLMNOPQRSTUVWXYZ_''"

lemma split_dollar_length: "split_dollar s = Some (a, b) \<Longrightarrow> length b + 2 \<le> length s"
  by (induction s arbitrary: a b rule: split_dollar.induct) (fastforce split: if_splits)+

lemma split_brace_length: "split_brace s = Some (a, b) \<Longrightarrow> length b < length s"
  by (induction s arbitrary: a b) (fastforce split: if_splits)+

function expand_env :: "(string \<Rightarrow> string option) \<Rightarrow> string \<Rightarrow> config_error + string" where
  "expand_env env rest =
     (case split_dollar rest of
        None \<Rightarrow> Inr rest
      | Some (before, after) \<Rightarrow>
          (case split_brace after of
             None \<Rightarrow> Inl Unclosed
           | Some (key, rest') \<Rightarrow>
               if key = [] \<or> \<not> list_all is_name_char key then Inl (InvalidName key)
               else (case env key of
                       None \<Rightarrow> Inl (NotSet key)
                     | Some v \<Rightarrow> map_sum id (\<lambda>out. before @ v @ out) (expand_env env rest'))))"
  by pat_completeness auto
termination
  by (relation "measure (length \<circ> snd)") (auto dest!: split_dollar_length split_brace_length)

declare expand_env.simps [simp del]

text \<open>
  \<^verbatim>\<open>Config::from_path\<close>.  A file that does not exist is replaced by the variable \<^verbatim>\<open>INFERQOS_CONFIG_YAML\<close>.
\<close>

datatype io_result = FileText string | FileMissing | FileError

definition from_path ::
  "(string \<Rightarrow> string option) \<Rightarrow> (string \<Rightarrow> config option) \<Rightarrow> (string \<Rightarrow> 'net option) \<Rightarrow> (string \<Rightarrow> url option)
     \<Rightarrow> io_result \<Rightarrow> config_error + config" where
  "from_path env parse_yaml parse_net parse_url file =
     (case (case file of
              FileText raw \<Rightarrow> Inr raw
            | FileMissing \<Rightarrow> (case env ''INFERQOS_CONFIG_YAML'' of None \<Rightarrow> Inl ReadError | Some raw \<Rightarrow> Inr raw)
            | FileError \<Rightarrow> Inl ReadError) of
        Inl e \<Rightarrow> Inl e
      | Inr raw \<Rightarrow>
          (case expand_env env raw of
             Inl e \<Rightarrow> Inl e
           | Inr expanded \<Rightarrow>
               (case parse_yaml expanded of
                  None \<Rightarrow> Inl ParseError
                | Some c \<Rightarrow> (case validate parse_net parse_url c of Inl e \<Rightarrow> Inl e | Inr _ \<Rightarrow> Inr c))))"

section \<open>What a valid configuration is\<close>

definition pool_valid :: "pool_config \<Rightarrow> bool" where
  "pool_valid p \<longleftrightarrow> is_finite (capacity_units p) \<and> f_of 0 < capacity_units p \<and>
     f_of 1 \<le> initial_safety_factor p \<and> initial_safety_factor p \<le> f_of 4 \<and>
     (pool_provider p = ExternalGrpc \<longleftrightarrow> (\<exists>a. external_adapter p = Some a)) \<and>
     (\<forall>u d ca cert key. external_adapter p = Some (AdapterTls u d ca cert key) \<longrightarrow> (cert = None \<longleftrightarrow> key = None))"

definition tenant_valid :: "tenant_policy \<Rightarrow> bool" where
  "tenant_valid t \<longleftrightarrow> f_of 0 \<le> guaranteed_share t \<and> guaranteed_share t \<le> max_share t \<and> max_share t \<le> f_of 1"

definition config_valid :: "(string \<Rightarrow> 'net option) \<Rightarrow> (string \<Rightarrow> url option) \<Rightarrow> config \<Rightarrow> bool" where
  "config_valid parse_net parse_url c \<longleftrightarrow>
     api_version c = ''inferqos.io/v1alpha1'' \<and> kind c = ''InferQoSConfig'' \<and> cfg_pools c \<noteq> [] \<and>
     0 < max_body_bytes (server c) \<and> spool_threshold_bytes (server c) \<le> max_body_bytes (server c) \<and>
     (\<forall>t. tls (server c) = Some t \<longrightarrow> cert_file t \<noteq> [] \<and> key_file t \<noteq> [] \<and> client_ca_file t \<noteq> []) \<and>
     (\<forall>r. \<exists>class. map_of (service_classes c) (class_to_string r) = Some class) \<and>
     (\<forall>(_, class) \<in> set (service_classes c). 0 < cls_weight class \<and> 0 < max_queued class) \<and>
     (\<forall>(_, pool) \<in> set (cfg_pools c). pool_valid pool) \<and>
     (\<forall>(_, tenant) \<in> set (tenants (cfg_policies c)). tenant_valid tenant) \<and>
     (\<forall>(_, app) \<in> set (applications (cfg_policies c)).
        (\<exists>t. map_of (tenants (cfg_policies c)) (app_tenant app) = Some t) \<and>
        (\<forall>class \<in> set (allowed_classes app). \<exists>k. map_of (service_classes c) class = Some k)) \<and>
     (\<forall>cidr \<in> set (trusted_proxy_cidrs (identity c)). \<exists>n. parse_net cidr = Some n) \<and>
     (\<forall>(f, _) \<in> set (mtls_certificate_sha256_mappings (identity c)).
        length f = 64 \<and> (\<forall>x \<in> set f. is_ascii_hexdigit x)) \<and>
     (\<forall>oc. oidc (identity c) = Some oc \<longrightarrow> audience oc \<noteq> [] \<and>
        (\<exists>u. parse_url (issuer oc) = Some u \<and> (scheme u = ''https'' \<or> host_str u = Some ''localhost''))) \<and>
     (1 < expected_replicas (limits c) \<longrightarrow> coordinator c = CoordMemory \<longrightarrow> allow_unsafe_uncoordinated_ha (limits c))"

lemma pool_checks:
  "validate_pool_units (n, p) = Inr () \<and> validate_adapter (n, p) = Inr () \<longleftrightarrow> pool_valid p"
proof -
  have "is_finite (capacity_units p) \<and> \<not> capacity_units p \<le> f_of 0 \<longleftrightarrow>
      is_finite (capacity_units p) \<and> f_of 0 < capacity_units p"
    by (cases "capacity_units p") (auto simp: f_ops)
  moreover have "(case external_adapter p of Some (AdapterTls _ _ _ cert key) \<Rightarrow> (cert \<noteq> None) = (key \<noteq> None) | _ \<Rightarrow> True) \<longleftrightarrow>
      (\<forall>u d ca cert key. external_adapter p = Some (AdapterTls u d ca cert key) \<longrightarrow> (cert = None \<longleftrightarrow> key = None))"
    by (auto split: option.splits external_adapter_config.splits)
  moreover have "validate_pool_units (n, p) = Inr () \<longleftrightarrow>
      (is_finite (capacity_units p) \<and> \<not> capacity_units p \<le> f_of 0) \<and>
      f_of 1 \<le> initial_safety_factor p \<and> initial_safety_factor p \<le> f_of 4"
    unfolding validate_pool_units_def in_range_def
    by (simp only: try_all_Inr prod.case set_simps ball_simps require_Inr simp_thms)
  moreover have "validate_adapter (n, p) = Inr () \<longleftrightarrow>
      ((pool_provider p = ExternalGrpc) = (external_adapter p \<noteq> None)) \<and>
      (case external_adapter p of Some (AdapterTls _ _ _ cert key) \<Rightarrow> (cert \<noteq> None) = (key \<noteq> None) | _ \<Rightarrow> True)"
    unfolding validate_adapter_def
    by (simp only: try_all_Inr prod.case set_simps ball_simps require_Inr simp_thms)
  ultimately show ?thesis unfolding pool_valid_def not_None_eq by blast
qed

lemma tenant_checks: "validate_tenant (n, t) = Inr () \<longleftrightarrow> tenant_valid t"
  using f_le_trans by (auto simp: validate_tenant_def tenant_valid_def in_range_def simp del: f_of_0 f_of_1)

lemma class_checks:
  "(\<forall>r \<in> set [Realtime, Interactive, Standard, Workflow, Batch]. P r) \<longleftrightarrow> (\<forall>r. P r)"
  by (metis (full_types) list.set_intros service_class.exhaust)

lemma validate_iff: "validate parse_net parse_url c = Inr () \<longleftrightarrow> config_valid parse_net parse_url c"
proof -
  have pools: "try_all (map validate_pool_units ps) = Inr () \<and> try_all (map validate_adapter ps) = Inr () \<longleftrightarrow>
      (\<forall>(_, p) \<in> set ps. pool_valid p)" for ps
    using pool_checks by (fastforce simp: try_all_Inr)
  have tens: "try_all (map validate_tenant ts) = Inr () \<longleftrightarrow> (\<forall>(_, t) \<in> set ts. tenant_valid t)" for ts
    using tenant_checks by (fastforce simp: try_all_Inr)
  have oid: "validate_oidc parse_url oi = Inr () \<longleftrightarrow> (\<forall>oc. oi = Some oc \<longrightarrow> audience oc \<noteq> [] \<and>
      (\<exists>u. parse_url (issuer oc) = Some u \<and> (scheme u = ''https'' \<or> host_str u = Some ''localhost'')))" for oi
    by (auto simp: validate_oidc_def try_all_Inr split: option.splits)
  have tl: "validate_tls t = Inr () \<longleftrightarrow> (\<forall>t'. t = Some t' \<longrightarrow> cert_file t' \<noteq> [] \<and> key_file t' \<noteq> [] \<and> client_ca_file t' \<noteq> [])" for t
    by (auto simp: validate_tls_def try_all_Inr split: option.splits)
  have cls: "try_all (map (\<lambda>r. require (map_of (service_classes c) (class_to_string r) \<noteq> None)
      (MissingClass (class_to_string r))) [Realtime, Interactive, Standard, Workflow, Batch]) = Inr () \<longleftrightarrow>
      (\<forall>r. \<exists>class. map_of (service_classes c) (class_to_string r) = Some class)"
    using class_checks [of "\<lambda>r. map_of (service_classes c) (class_to_string r) \<noteq> None"] by (simp add: try_all_Inr)
  have apps: "try_all (map (validate_application c) as) = Inr () \<longleftrightarrow> (\<forall>(_, app) \<in> set as.
      (\<exists>t. map_of (tenants (cfg_policies c)) (app_tenant app) = Some t) \<and>
      (\<forall>class \<in> set (allowed_classes app). \<exists>k. map_of (service_classes c) class = Some k))" for as
    by (auto simp: validate_application_def try_all_Inr)
  have fps: "try_all (map (\<lambda>(fingerprint, _). require (length fingerprint = 64 \<and> list_all is_ascii_hexdigit fingerprint)
      (Fingerprint fingerprint)) ms) = Inr () \<longleftrightarrow>
      (\<forall>(f, _) \<in> set ms. length f = 64 \<and> (\<forall>x \<in> set f. is_ascii_hexdigit x))"
    for ms :: "(string \<times> identity_mapping) list"
    by (auto simp: try_all_Inr list_all_iff)
  have wts: "try_all (map (\<lambda>(name, class). require (cls_weight class \<noteq> 0 \<and> max_queued class \<noteq> 0) (ClassZero name)) ws) = Inr () \<longleftrightarrow>
      (\<forall>(_, class) \<in> set ws. 0 < cls_weight class \<and> 0 < max_queued class)" for ws
    by (auto simp: try_all_Inr)
  have nets: "try_all (map (\<lambda>cidr. require (parse_net cidr \<noteq> None) (InvalidCidr cidr)) cs) = Inr () \<longleftrightarrow>
      (\<forall>cidr \<in> set cs. \<exists>n. parse_net cidr = Some n)" for cs
    by (auto simp: try_all_Inr)
  show ?thesis
    unfolding validate_def config_valid_def pools [symmetric] tens [symmetric] oid [symmetric] tl [symmetric]
      cls [symmetric] apps [symmetric] fps [symmetric] wts [symmetric] nets [symmetric]
      try_all_Inr [of "[_, _, _, _, _, _, _, _, _, _, _, _, _, _]"]
    by (simp only: set_simps ball_simps require_Inr simp_thms not_less neq0_conv) blast
qed

end
