(* ===== verification/Config_Properties.thy ===== *)
theory Config_Properties
  imports Config
begin

text \<open>
  What loading a configuration guarantees: the validation accepts exactly the valid configurations,
  and the substitution of environment variables is the one a reader of the text expects.
\<close>

section \<open>Substitution\<close>

text \<open>A text as literal pieces and references; a literal holds no \<^verbatim>\<open>${\<close> and does not end with \<^verbatim>\<open>$\<close>.\<close>

datatype segment = Lit string | Var string

fun render :: "segment list \<Rightarrow> string" where
  "render [] = []"
| "render (Lit l # ss) = l @ render ss"
| "render (Var k # ss) = ''${'' @ k @ ''}'' @ render ss"

fun seg_ok :: "segment \<Rightarrow> bool" where
  "seg_ok (Lit l) \<longleftrightarrow> split_dollar l = None \<and> (l = [] \<or> last l \<noteq> CHR ''$'')"
| "seg_ok (Var k) \<longleftrightarrow> k \<noteq> [] \<and> list_all is_name_char k"

text \<open>The value of every reference as it stands in the environment, not expanded again.\<close>

fun subst_env :: "(string \<Rightarrow> string option) \<Rightarrow> segment list \<Rightarrow> config_error + string" where
  "subst_env env [] = Inr []"
| "subst_env env (Lit l # ss) = map_sum id ((@) l) (subst_env env ss)"
| "subst_env env (Var k # ss) =
     (case env k of None \<Rightarrow> Inl (NotSet k) | Some v \<Rightarrow> map_sum id ((@) v) (subst_env env ss))"

lemma map_sum_append: "map_sum id ((@) a) (map_sum id ((@) b) x) = map_sum id ((@) (a @ b)) x"
  by (cases x) auto

lemma split_dollar_lit:
  "seg_ok (Lit l) \<Longrightarrow> split_dollar (l @ r) = map_option (\<lambda>(x, y). (l @ x, y)) (split_dollar r)"
proof (induction l rule: split_dollar.induct, goal_cases)
  case (1 a b cs)
  then have n: "\<not> (a = CHR ''$'' \<and> b = CHR ''{'')" "split_dollar (b # cs) = None" by (auto split: if_splits)
  with 1 have "split_dollar (b # cs @ r) = map_option (\<lambda>(x, y). (b # cs @ x, y)) (split_dollar r)" by simp
  with n show ?case by (auto simp: option.map_comp comp_def case_prod_unfold)
next
  case (3 v)
  then show ?case by (cases r) (auto simp: option.map_comp comp_def case_prod_unfold)
qed (simp add: option.map_id)

lemma expand_lit: "seg_ok (Lit l) \<Longrightarrow> expand_env env (l @ r) = map_sum id ((@) l) (expand_env env r)"
proof -
  assume l: "seg_ok (Lit l)"
  show ?thesis
  proof (cases "split_dollar r")
    case None
    then show ?thesis using split_dollar_lit [OF l, of r] by (simp add: expand_env.simps)
  next
    case (Some p)
    obtain x y where p: "p = (x, y)" by force
    have "split_dollar (l @ r) = Some (l @ x, y)" using split_dollar_lit [OF l, of r] Some p by simp
    then show ?thesis
      using Some p by (subst (1 2) expand_env.simps)
        (auto simp: sum.map_comp comp_def id_def split: option.splits prod.splits)
  qed
qed

lemma name_no_brace: "list_all is_name_char k \<Longrightarrow> split_brace (k @ ''}'' @ r) = Some (k, r)"
  by (induction k) (auto simp: is_name_char_def)

lemma expand_var:
  assumes "seg_ok (Var k)"
  shows "expand_env env (''${'' @ k @ ''}'' @ r) =
    (case env k of None \<Rightarrow> Inl (NotSet k) | Some v \<Rightarrow> map_sum id ((@) v) (expand_env env r))"
proof -
  have "split_dollar (''${'' @ k @ ''}'' @ r) = Some ([], k @ ''}'' @ r)" by simp
  with assms name_no_brace [of k r] show ?thesis
    by (subst expand_env.simps) (auto split: option.splits)
qed

section \<open>An example\<close>

definition example_class :: "nat \<Rightarrow> service_class_config" where
  "example_class w = \<lparr>cls_weight = w, default_deadline = 3000000000, max_queue = 1000000000, max_queued = 100\<rparr>"

definition example_pool :: pool_config where
  "example_pool = \<lparr>pool_provider = FakeProvider, endpoint = ''http://127.0.0.1:9000'', pool_model = None,
     deployment = None, region = None, external_adapter = None, capacity_units = f_of 100, auth = AuthNone,
     allowed_hosts = [''127.0.0.1''], initial_safety_factor = f_of 1\<rparr>"

definition example_tenant :: tenant_policy where
  "example_tenant = \<lparr>tenant_weight = 2, guaranteed_share = f_of (1 / 4), max_share = f_of (1 / 2),
     tenant_concurrency = 3\<rparr>"

definition example_app :: application_policy where
  "example_app = \<lparr>app_tenant = ''acme'', allowed_classes = [''batch'', ''standard''], app_weight = 1,
     app_concurrency = 2, permitted_pools = []\<rparr>"

definition example_config :: config where
  "example_config = \<lparr>api_version = ''inferqos.io/v1alpha1'', kind = ''InferQoSConfig'', cfg_mode = ModeEnforce,
     server = \<lparr>listen = ''127.0.0.1:8080'', tls = None, max_body_bytes = 1000, spool_threshold_bytes = 100,
       spool_directory = ''/tmp'', config_reload_interval = 2000000000\<rparr>,
     admin = \<lparr>admin_listen = ''127.0.0.1:9090'', bearer_token_env = None, expose_decisions = False\<rparr>,
     coordinator = CoordMemory,
     service_classes = [(''batch'', example_class 1), (''interactive'', example_class 8),
       (''realtime'', example_class 16), (''standard'', example_class 4), (''workflow'', example_class 2)],
     cfg_pools = [(''main'', example_pool)],
     cfg_policies = \<lparr>tenants = [(''acme'', example_tenant)], applications = [(''etl'', example_app)], api_keys = []\<rparr>,
     identity = \<lparr>oidc = None, trusted_proxy_cidrs = [''10.0.0.0/8''], trusted_headers = default_trusted_headers,
       mtls_san_mappings = [], mtls_certificate_sha256_mappings = []\<rparr>,
     limits = default_limits\<rparr>"

definition any_net :: "string \<Rightarrow> unit option" where
  "any_net s = Some ()"

definition any_url :: "string \<Rightarrow> url option" where
  "any_url s = Some \<lparr>scheme = ''https'', host_str = Some s\<rparr>"

lemma quarter_half: "f_of 0 \<le> f_of (1 / 4)" "f_of (1 / 4) \<le> f_of (1 / 2)" "f_of (1 / 2) \<le> f_of 1"
  by (rule f_of_mono, simp)+

lemma example_config_valid: "config_valid any_net any_url example_config"
proof -
  have "pool_valid example_pool" by (simp add: pool_valid_def example_pool_def f_ops)
  moreover have "tenant_valid example_tenant"
    using quarter_half by (simp add: tenant_valid_def example_tenant_def)
  moreover have "\<exists>class. map_of (service_classes example_config) (class_to_string r) = Some class" for r
    by (cases r) (simp_all add: example_config_def)
  ultimately show ?thesis
    unfolding config_valid_def
    by (simp add: example_config_def example_class_def example_app_def any_net_def default_limits_def)
qed

section \<open>Properties\<close>


text \<open>
  Whatever the file, the environment and the parsers, a configuration that loading returns is valid;
  a missing file is replaced by the variable \<^verbatim>\<open>INFERQOS_CONFIG_YAML\<close>, any other failure to read is an error.
\<close>

theorem loaded_config_valid:
  assumes "from_path env parse_yaml parse_net parse_url file = Inr c"
  shows "config_valid parse_net parse_url c \<and>
    (\<exists>raw text. (file = FileText raw \<or> file = FileMissing \<and> env ''INFERQOS_CONFIG_YAML'' = Some raw) \<and>
       expand_env env raw = Inr text \<and> parse_yaml text = Some c)"
  using assms by (auto simp: from_path_def validate_iff [symmetric] split: io_result.splits option.splits sum.splits)

theorem loaded_config_valid_witness:
  "from_path (\<lambda>_. None) (\<lambda>_. Some example_config) any_net any_url (FileText ''x: 1'') = Inr example_config \<and>
   config_valid any_net any_url example_config"
proof -
  have "expand_env (\<lambda>_. None) ''x: 1'' = Inr ''x: 1''" by (simp add: expand_env.simps)
  then have l: "from_path (\<lambda>_. None) (\<lambda>_. Some example_config) any_net any_url (FileText ''x: 1'') = Inr example_config"
    using example_config_valid by (simp add: from_path_def validate_iff [symmetric])
  from loaded_config_valid [OF l] l show ?thesis by blast
qed

text \<open>
  C13.  The substitution replaces each reference by the variable's value, does not expand the value again,
  keeps everything else, and reports the first variable that is not set.
\<close>

theorem expand_env_template:
  assumes "\<forall>s \<in> set ss. seg_ok s"
  shows "expand_env env (render ss) = subst_env env ss"
  using assms
proof (induction ss)
  case Nil
  then show ?case by (simp add: expand_env.simps)
next
  case (Cons s ss)
  then show ?case
  proof (cases s)
    case (Lit l)
    with Cons show ?thesis using expand_lit [of l env "render ss"] by simp
  next
    case (Var k)
    with Cons show ?thesis using expand_var [of k env "render ss"] by (simp split: option.splits)
  qed
qed

theorem expand_env_template_witness:
  "expand_env (\<lambda>k. if k = ''URL'' then Some ''${X}'' else None) ''url: ${URL}/v1 $5'' = Inr ''url: ${X}/v1 $5''"
proof -
  let ?env = "\<lambda>k. if k = ''URL'' then Some ''${X}'' else None"
  have "expand_env ?env (render [Lit ''url: '', Var ''URL'', Lit ''/v1 $5'']) =
      subst_env ?env [Lit ''url: '', Var ''URL'', Lit ''/v1 $5'']"
    by (rule expand_env_template) (simp add: is_name_char_def)
  then show ?thesis by simp
qed

end
