(* ===== verification/Identity.thy ===== *)
theory Identity
  imports Config
begin

text \<open>
  Identity resolution, \<^verbatim>\<open>crates/identity/src/lib.rs\<close>: verified client certificates, trusted proxies, OIDC
  bearer tokens and API keys, in that order.  The request's headers are a function from a name to
  its text, absent when it is not a string; parsing and network membership, JWT decoding, key parsing
  and the replies of the identity provider are arguments, which give the text of their own errors.
\<close>

section \<open>State\<close>

datatype identity_error =
    IdConfiguration string | Jwks string | AuthRequired | InvalidToken | MissingClaim string

text \<open>The algorithms the code names; every other one of the JWT library is \<open>OtherAlgorithm\<close>.\<close>

datatype algorithm = RS256 | RS384 | RS512 | ES256 | ES384 | OtherAlgorithm string

type_synonym 'key key_cache = "(string \<times> 'key) list"

record ('net, 'key) identity_resolver =
  id_config :: config
  trusted_proxies :: "'net list"
  oidc_keys :: "(oidc_config \<times> 'key key_cache) option"

type_synonym headers = "string \<Rightarrow> string option"

section \<open>Helpers\<close>

definition mapped :: "identity_mapping \<Rightarrow> identity_context" where
  "mapped m = \<lparr>principal = map_principal m, tenant = map_tenant m, application = map_application m, trusted = True\<rparr>"

definition header :: "headers \<Rightarrow> string \<Rightarrow> string option" where
  "header hs name = (case hs name of None \<Rightarrow> None | Some v \<Rightarrow> if v = [] then None else Some v)"

fun parse_cidrs :: "(string \<Rightarrow> string + 'net) \<Rightarrow> string list \<Rightarrow> identity_error + 'net list" where
  "parse_cidrs parse_net [] = Inr []"
| "parse_cidrs parse_net (cidr # cs) =
     (case parse_net cidr of
        Inl e \<Rightarrow> Inl (IdConfiguration (''invalid trusted proxy CIDR '' @ cidr @ '': '' @ e))
      | Inr n \<Rightarrow> map_sum id (Cons n) (parse_cidrs parse_net cs))"

definition parse_proxies :: "(string \<Rightarrow> string + 'net) \<Rightarrow> config \<Rightarrow> identity_error + 'net list" where
  "parse_proxies parse_net c = parse_cidrs parse_net (trusted_proxy_cidrs (identity c))"

definition secure_url :: "(string \<Rightarrow> string + url) \<Rightarrow> string \<Rightarrow> string \<Rightarrow> identity_error + url" where
  "secure_url parse_url value label =
     (case parse_url value of
        Inl e \<Rightarrow> Inl (IdConfiguration (''invalid '' @ label @ '' URL: '' @ e))
      | Inr u \<Rightarrow>
          if scheme u \<noteq> ''https'' \<and> host_str u \<noteq> Some ''localhost''
          then Inl (IdConfiguration (label @ '' URL must use HTTPS except localhost tests''))
          else Inr u)"

section \<open>OIDC tokens\<close>

record 'raw jwk =
  key_id :: "string option"
  jwk_raw :: 'raw

datatype 'raw jwks_reply =
    NoReply string
  | JwksReply (content_length: "nat option") (status_error: "string option") (jwks_body: "string + 'raw jwk list")

fun keyed :: "('raw \<Rightarrow> string + 'key) \<Rightarrow> 'raw jwk list \<Rightarrow> 'key key_cache \<Rightarrow> identity_error + 'key key_cache" where
  "keyed from_jwk [] keys = Inr keys"
| "keyed from_jwk (j # js) keys =
     (case key_id j of
        None \<Rightarrow> keyed from_jwk js keys
      | Some kid \<Rightarrow>
          (case from_jwk (jwk_raw j) of
             Inl e \<Rightarrow> Inl (Jwks e)
           | Inr key \<Rightarrow> keyed from_jwk js (AList.update kid key keys)))"

text \<open>\<^verbatim>\<open>OidcVerifier::refresh\<close>: the cache is replaced only by a complete non-empty key set.\<close>

definition refresh ::
  "('raw \<Rightarrow> string + 'key) \<Rightarrow> 'raw jwks_reply \<Rightarrow> 'key key_cache \<Rightarrow> (identity_error + unit) \<times> 'key key_cache" where
  "refresh from_jwk reply keys =
     (case reply of
        NoReply e \<Rightarrow> (Inl (Jwks e), keys)
      | JwksReply len status body \<Rightarrow>
          if (case len of None \<Rightarrow> False | Some n \<Rightarrow> 1024 * 1024 < n)
          then (Inl (Jwks ''JWKS document exceeds 1 MiB''), keys)
          else (case status of
             Some e \<Rightarrow> (Inl (Jwks e), keys)
           | None \<Rightarrow>
          (case body of
             Inl e \<Rightarrow> (Inl (Jwks e), keys)
           | Inr js \<Rightarrow>
               (case keyed from_jwk js [] of
                  Inl e \<Rightarrow> (Inl e, keys)
                | Inr new \<Rightarrow>
                    if new = [] then (Inl (Jwks ''JWKS has no keyed signing keys''), keys)
                    else (Inr (), new)))))"

record jwt_header =
  alg :: algorithm
  kid :: "string option"

record validation =
  v_algorithms :: "algorithm list"
  v_audience :: "string list"
  v_issuer :: "string list"
  validate_exp :: bool
  validate_nbf :: bool

definition accepted_algorithms :: "algorithm list" where
  "accepted_algorithms = [RS256, RS384, RS512, ES256, ES384]"

definition token_validation :: "oidc_config \<Rightarrow> validation" where
  "token_validation oc = \<lparr>v_algorithms = accepted_algorithms, v_audience = [audience oc],
     v_issuer = [issuer oc], validate_exp = True, validate_nbf = True\<rparr>"

text \<open>A string claim that is not empty; a claim of another JSON type counts as absent.\<close>

definition claim :: "(string \<Rightarrow> string option) \<Rightarrow> string \<Rightarrow> identity_error + string" where
  "claim claims name =
     (case claims name of
        None \<Rightarrow> Inl (MissingClaim name)
      | Some v \<Rightarrow> if v = [] then Inl (MissingClaim name) else Inr v)"

definition claims_identity :: "oidc_config \<Rightarrow> (string \<Rightarrow> string option) \<Rightarrow> identity_error + identity_context" where
  "claims_identity oc claims =
     (case claim claims (principal_claim oc) of
        Inl e \<Rightarrow> Inl e
      | Inr p \<Rightarrow>
          (case claim claims (tenant_claim oc) of
             Inl e \<Rightarrow> Inl e
           | Inr t \<Rightarrow>
               (case claim claims (application_claim oc) of
                  Inl e \<Rightarrow> Inl e
                | Inr a \<Rightarrow> Inr \<lparr>principal = p, tenant = t, application = a, trusted = True\<rparr>)))"

text \<open>\<^verbatim>\<open>OidcVerifier::verify\<close>; the reply is the one a refresh would get.\<close>

definition verify ::
  "(string \<Rightarrow> jwt_header option) \<Rightarrow> (string \<Rightarrow> 'key \<Rightarrow> validation \<Rightarrow> (string \<Rightarrow> string option) option)
     \<Rightarrow> ('raw \<Rightarrow> string + 'key) \<Rightarrow> 'raw jwks_reply \<Rightarrow> oidc_config \<Rightarrow> string \<Rightarrow> 'key key_cache
     \<Rightarrow> (identity_error + identity_context) \<times> 'key key_cache" where
  "verify decode_header decode from_jwk reply oc token keys =
     (case decode_header token of
        None \<Rightarrow> (Inl InvalidToken, keys)
      | Some h \<Rightarrow>
          if alg h \<notin> set accepted_algorithms then (Inl InvalidToken, keys)
          else (case kid h of
                  None \<Rightarrow> (Inl InvalidToken, keys)
                | Some k \<Rightarrow>
                    let (found, keys') =
                          (case map_of keys k of
                             Some key \<Rightarrow> (Inr key, keys)
                           | None \<Rightarrow>
                               (case refresh from_jwk reply keys of
                                  (Inl e, ks) \<Rightarrow> (Inl e, ks)
                                | (Inr _, ks) \<Rightarrow>
                                    ((case map_of ks k of None \<Rightarrow> Inl InvalidToken | Some key \<Rightarrow> Inr key), ks)))
                    in (case found of
                          Inl e \<Rightarrow> (Inl e, keys')
                        | Inr key \<Rightarrow>
                            (case decode token key (token_validation oc) of
                               None \<Rightarrow> (Inl InvalidToken, keys')
                             | Some claims \<Rightarrow> (claims_identity oc claims, keys')))))"

section \<open>Resolution\<close>

definition strip_bearer :: "string \<Rightarrow> string option" where
  "strip_bearer v = (if take 7 v = ''Bearer '' then Some (drop 7 v) else None)"

lemma strip_bearer_iff: "Option.bind h strip_bearer = Some t \<longleftrightarrow> h = Some (''Bearer '' @ t)"
proof
  assume "Option.bind h strip_bearer = Some t"
  then obtain v where "h = Some v" "take 7 v = ''Bearer ''" "drop 7 v = t"
    by (cases h) (auto simp: strip_bearer_def split: if_splits)
  then show "h = Some (''Bearer '' @ t)" by (metis append_take_drop_id)
qed (simp add: strip_bearer_def)

definition dots :: "string \<Rightarrow> nat" where
  "dots token = length (filter (\<lambda>c. c = CHR ''.'') token)"

fun first_mapping :: "string list \<Rightarrow> (string \<times> identity_mapping) list \<Rightarrow> identity_mapping option" where
  "first_mapping [] ms = None"
| "first_mapping (f # fs) ms = (case map_of ms f of Some m \<Rightarrow> Some m | None \<Rightarrow> first_mapping fs ms)"

fun match_api_key ::
  "(string \<Rightarrow> string option) \<Rightarrow> string \<Rightarrow> (string \<times> identity_mapping) list \<Rightarrow> identity_mapping option" where
  "match_api_key env token [] = None"
| "match_api_key env token ((e, m) # ms) = (if env e = Some token then Some m else match_api_key env token ms)"

definition proxy_identity :: "config \<Rightarrow> headers \<Rightarrow> identity_context option" where
  "proxy_identity c hs =
     (let names = trusted_headers (identity c)
      in case (case header hs (hdr_client_cert_san names) of
                 None \<Rightarrow> None
               | Some san \<Rightarrow> map_of (mtls_san_mappings (identity c)) san) of
           Some m \<Rightarrow> Some (mapped m)
         | None \<Rightarrow>
             (case (header hs (hdr_principal names), header hs (hdr_tenant names), header hs (hdr_application names)) of
                (Some p, Some t, Some a) \<Rightarrow> Some \<lparr>principal = p, tenant = t, application = a, trusted = True\<rparr>
              | _ \<Rightarrow> None))"

definition anonymous :: identity_context where
  "anonymous = \<lparr>principal = ''anonymous'', tenant = ''default'', application = ''default'', trusted = False\<rparr>"

text \<open>The end of \<^verbatim>\<open>resolve\<close>: refuse or fall back to the anonymous identity.\<close>

definition fallback :: "config \<Rightarrow> identity_error + identity_context" where
  "fallback c =
     (if (case oidc (identity c) of None \<Rightarrow> False | Some oc \<Rightarrow> oidc_required oc) then Inl AuthRequired
      else Inr anonymous)"

definition resolve ::
  "('net \<Rightarrow> 'ip \<Rightarrow> bool) \<Rightarrow> (string \<Rightarrow> string option)
     \<Rightarrow> (string \<Rightarrow> jwt_header option) \<Rightarrow> (string \<Rightarrow> 'key \<Rightarrow> validation \<Rightarrow> (string \<Rightarrow> string option) option)
     \<Rightarrow> ('raw \<Rightarrow> string + 'key) \<Rightarrow> 'raw jwks_reply
     \<Rightarrow> headers \<Rightarrow> 'ip option \<Rightarrow> string list \<Rightarrow> ('net, 'key) identity_resolver
     \<Rightarrow> (identity_error + identity_context) \<times> ('net, 'key) identity_resolver" where
  "resolve contains env decode_header decode from_jwk reply hs remote_ip fingerprints r =
     (let c = id_config r;
          from_proxy = (case remote_ip of
                          None \<Rightarrow> False
                        | Some ip \<Rightarrow> list_ex (\<lambda>n. contains n ip) (trusted_proxies r))
      in case first_mapping fingerprints (mtls_certificate_sha256_mappings (identity c)) of
           Some m \<Rightarrow> (Inr (mapped m), r)
         | None \<Rightarrow>
     (case (if from_proxy then proxy_identity c hs else None) of
        Some i \<Rightarrow> (Inr i, r)
      | None \<Rightarrow>
     (case Option.bind (hs ''authorization'') strip_bearer of
        None \<Rightarrow> (fallback c, r)
      | Some token \<Rightarrow>
          (case (if dots token = 2 then oidc_keys r else None) of
             Some (oc, keys) \<Rightarrow>
               (let (res, keys') = verify decode_header decode from_jwk reply oc token keys
                in (res, r\<lparr>oidc_keys := Some (oc, keys')\<rparr>))
           | None \<Rightarrow>
               (case match_api_key env token (api_keys (cfg_policies c)) of
                  Some m \<Rightarrow> (Inr (mapped m), r)
                | None \<Rightarrow> (fallback c, r))))))"

text \<open>\<^verbatim>\<open>OidcVerifier::new\<close>: the JWKS address is explicit, or discovered at the issuer; \<^verbatim>\<open>client\<close> is the error of building the HTTP
  client, if any.\<close>

definition jwks_address ::
  "(string \<Rightarrow> string + url) \<Rightarrow> (url \<Rightarrow> identity_error + string) \<Rightarrow> oidc_config \<Rightarrow> identity_error + url" where
  "jwks_address parse_url discover oc =
     (case jwks_url oc of
        Some explicit \<Rightarrow> secure_url parse_url explicit ''JWKS''
      | None \<Rightarrow>
          (case secure_url parse_url (issuer oc) ''OIDC issuer'' of
             Inl e \<Rightarrow> Inl e
           | Inr iss \<Rightarrow>
               (case discover iss of
                  Inl e \<Rightarrow> Inl e
                | Inr uri \<Rightarrow> secure_url parse_url uri ''discovered JWKS'')))"

definition verifier_new ::
  "string option \<Rightarrow> (string \<Rightarrow> string + url) \<Rightarrow> (url \<Rightarrow> identity_error + string) \<Rightarrow> ('raw \<Rightarrow> string + 'key)
     \<Rightarrow> (url \<Rightarrow> 'raw jwks_reply) \<Rightarrow> oidc_config \<Rightarrow> identity_error + (oidc_config \<times> 'key key_cache)" where
  "verifier_new client parse_url discover from_jwk fetch oc =
     (case client of
        Some e \<Rightarrow> Inl (IdConfiguration e)
      | None \<Rightarrow>
     (case jwks_address parse_url discover oc of
        Inl e \<Rightarrow> Inl e
      | Inr u \<Rightarrow>
          (case refresh from_jwk (fetch u) [] of
             (Inl e, _) \<Rightarrow> Inl e
           | (Inr _, keys) \<Rightarrow> Inr (oc, keys))))"

definition resolver_new ::
  "string option \<Rightarrow> (string \<Rightarrow> string + 'net) \<Rightarrow> (string \<Rightarrow> string + url) \<Rightarrow> (url \<Rightarrow> identity_error + string) \<Rightarrow> ('raw \<Rightarrow> string + 'key)
     \<Rightarrow> (url \<Rightarrow> 'raw jwks_reply) \<Rightarrow> config \<Rightarrow> identity_error + ('net, 'key) identity_resolver" where
  "resolver_new client parse_net parse_url discover from_jwk fetch c =
     (case parse_proxies parse_net c of
        Inl e \<Rightarrow> Inl e
      | Inr nets \<Rightarrow>
          (case oidc (identity c) of
             None \<Rightarrow> Inr \<lparr>id_config = c, trusted_proxies = nets, oidc_keys = None\<rparr>
           | Some oc \<Rightarrow>
               map_sum id (\<lambda>v. \<lparr>id_config = c, trusted_proxies = nets, oidc_keys = Some v\<rparr>)
                 (verifier_new client parse_url discover from_jwk fetch oc)))"

definition replace_config ::
  "(string \<Rightarrow> string + 'net) \<Rightarrow> config \<Rightarrow> ('net, 'key) identity_resolver
     \<Rightarrow> (identity_error + unit) \<times> ('net, 'key) identity_resolver" where
  "replace_config parse_net c r =
     (case parse_proxies parse_net c of
        Inl e \<Rightarrow> (Inl e, r)
      | Inr nets \<Rightarrow> (Inr (), r\<lparr>trusted_proxies := nets, id_config := c\<rparr>))"

end
