(* ===== verification/Identity_Properties.thy ===== *)
theory Identity_Properties
  imports Identity Config_Properties
begin

text \<open>
  What identity resolution guarantees: where a trusted identity can come from, that forwarded headers
  count only from a trusted proxy, what a verified token has passed, and when the key cache changes.
\<close>

section \<open>Lemmas\<close>

definition via_proxy :: "('net \<Rightarrow> 'ip \<Rightarrow> bool) \<Rightarrow> 'ip option \<Rightarrow> ('net, 'key) identity_resolver \<Rightarrow> bool" where
  "via_proxy contains remote r \<longleftrightarrow> (\<exists>ip. remote = Some ip \<and> (\<exists>n \<in> set (trusted_proxies r). contains n ip))"

lemma via_proxy_code:
  "(case remote of None \<Rightarrow> False | Some ip \<Rightarrow> list_ex (\<lambda>n. contains n ip) (trusted_proxies r))
     = via_proxy contains remote r"
  by (auto simp: via_proxy_def list_ex_iff split: option.splits)

lemma first_mapping_Some:
  "first_mapping fs ms = Some m \<Longrightarrow> \<exists>f \<in> set fs. map_of ms f = Some m"
  by (induction fs) (auto split: option.splits)

lemma match_api_key_Some:
  "match_api_key env token ms = Some m \<Longrightarrow> \<exists>e. (e, m) \<in> set ms \<and> env e = Some token"
  by (induction ms) (auto split: if_splits)

lemma claim_Inr: "claim claims n = Inr v \<longleftrightarrow> claims n = Some v \<and> v \<noteq> []"
  by (auto simp: claim_def split: option.splits)

lemma claims_identity_Inr:
  "claims_identity oc claims = Inr i \<longleftrightarrow>
     claims (principal_claim oc) = Some (principal i) \<and> principal i \<noteq> [] \<and>
     claims (tenant_claim oc) = Some (tenant i) \<and> tenant i \<noteq> [] \<and>
     claims (application_claim oc) = Some (application i) \<and> application i \<noteq> [] \<and> trusted i"
  by (cases i) (auto simp: claims_identity_def claim_def split: sum.splits option.splits if_splits)

lemma fallback_Inr:
  "fallback c = Inr i \<Longrightarrow>
     i = anonymous \<and> \<not> trusted i \<and> (\<forall>oc. oidc (identity c) = Some oc \<longrightarrow> \<not> oidc_required oc)"
  by (auto simp: fallback_def anonymous_def split: if_splits)

text \<open>The keys a set publishes under an id, in the order of the document.\<close>

fun published :: "('raw \<Rightarrow> string + 'key) \<Rightarrow> 'raw jwk list \<Rightarrow> (string \<times> 'key) list" where
  "published from_jwk [] = []"
| "published from_jwk (j # js) =
     (case (key_id j, from_jwk (jwk_raw j)) of
        (Some k, Inr key) \<Rightarrow> (k, key) # published from_jwk js
      | _ \<Rightarrow> published from_jwk js)"

lemma keyed_Inr:
  "keyed from_jwk js keys = Inr new \<Longrightarrow>
     map_of new = map_of keys ++ map_of (rev (published from_jwk js)) \<and>
     (new = [] \<longleftrightarrow> keys = [] \<and> published from_jwk js = [])"
proof (induction js arbitrary: keys)
  case (Cons j js)
  show ?case
  proof (cases "key_id j")
    case None
    with Cons show ?thesis by simp
  next
    case (Some k)
    with Cons.prems obtain key where key: "from_jwk (jwk_raw j) = Inr key"
      and rest: "keyed from_jwk js (AList.update k key keys) = Inr new"
      by (auto split: sum.splits)
    have "AList.update k key keys \<noteq> []" by (cases keys) auto
    with Cons.IH [OF rest] Some key show ?thesis by (auto simp: update_conv' map_add_def fun_eq_iff split: option.splits)
  qed
qed simp

lemma keyed_fails:
  "keyed from_jwk js keys = Inl e \<Longrightarrow> \<exists>j \<in> set js. key_id j \<noteq> None \<and> (\<exists>t. from_jwk (jwk_raw j) = Inl t \<and> e = Jwks t)"
  by (induction js arbitrary: keys) (fastforce split: option.splits sum.splits)+

lemma keyed_all:
  "keyed from_jwk js keys = Inr new \<Longrightarrow> list_all (\<lambda>j. key_id j = None \<or> \<not> isl (from_jwk (jwk_raw j))) js"
  by (induction js arbitrary: keys) (auto split: option.splits sum.splits)

lemma refresh_cases:
  "refresh from_jwk reply keys = (res, keys') \<Longrightarrow>
     (\<exists>e. res = Inl e \<and> keys' = keys) \<or>
     (res = Inr () \<and> (\<exists>len js. reply = JwksReply len None (Inr js) \<and> keyed from_jwk js [] = Inr keys' \<and> keys' \<noteq> [] \<and>
        (\<forall>n. len = Some n \<longrightarrow> n \<le> 1024 * 1024)))"
  by (auto simp: refresh_def split: jwks_reply.splits if_splits option.splits sum.splits)

section \<open>Properties\<close>

text \<open>
  C15.  Forwarded identity is believed only from a trusted proxy: for any other peer the outcome depends on
  the headers through \<^verbatim>\<open>authorization\<close> alone, so no forwarded principal, tenant, application or
  certificate name changes it.
\<close>

theorem untrusted_headers_ignored:
  assumes "\<not> via_proxy contains remote r" "hs ''authorization'' = hs' ''authorization''"
  shows "resolve contains env dh dec fj reply hs remote fps r = resolve contains env dh dec fj reply hs' remote fps r"
  using assms by (cases "first_mapping fps (mtls_certificate_sha256_mappings (identity (id_config r)))")
    (simp_all add: resolve_def via_proxy_code Let_def)

text \<open>
  C14.  Where an identity comes from: it is the anonymous one, untrusted and only when OIDC is not required;
  or that of a verified certificate; or a trusted proxy's; or a verified token's; or that of the API key
  whose secret was presented.
\<close>

theorem resolve_provenance:
  assumes "resolve contains env dh dec fj reply hs remote fps r = (Inr i, r')"
  shows "(i = anonymous \<and> \<not> trusted i \<and> (\<forall>oc. oidc (identity (id_config r)) = Some oc \<longrightarrow> \<not> oidc_required oc)) \<or>
    (\<exists>f \<in> set fps. \<exists>m. map_of (mtls_certificate_sha256_mappings (identity (id_config r))) f = Some m \<and> i = mapped m) \<or>
    (via_proxy contains remote r \<and> proxy_identity (id_config r) hs = Some i) \<or>
    (\<exists>token oc keys. hs ''authorization'' = Some (''Bearer '' @ token) \<and> oidc_keys r = Some (oc, keys) \<and>
       fst (verify dh dec fj reply oc token keys) = Inr i) \<or>
    (\<exists>token e m. hs ''authorization'' = Some (''Bearer '' @ token) \<and> (e, m) \<in> set (api_keys (cfg_policies (id_config r))) \<and>
       env e = Some token \<and> i = mapped m)"
proof -
  let ?c = "id_config r"
  let ?ms = "mtls_certificate_sha256_mappings (identity ?c)"
  let ?px = "if via_proxy contains remote r then proxy_identity ?c hs else None"
  let ?b = "Option.bind (hs ''authorization'') strip_bearer"
  note res = assms [unfolded resolve_def Let_def via_proxy_code]
  show ?thesis
  proof (cases "first_mapping fps ?ms")
    case (Some m)
    with res have "i = mapped m" by simp
    with first_mapping_Some [OF Some] show ?thesis by blast
  next
    case no_cert: None
    show ?thesis
    proof (cases ?px)
      case (Some j)
      with res no_cert have "j = i" by simp
      with Some show ?thesis by (auto split: if_splits)
    next
      case no_proxy: None
      note res' = res [unfolded no_cert no_proxy option.case]
      show ?thesis
      proof (cases ?b)
        case None
        with res' have "fallback ?c = Inr i" by auto
        then show ?thesis using fallback_Inr by blast
      next
        case (Some token)
        then have h: "hs ''authorization'' = Some (''Bearer '' @ token)" by (simp only: strip_bearer_iff)
        from res' Some have "fallback ?c = Inr i \<or>
          (\<exists>oc keys. oidc_keys r = Some (oc, keys) \<and> fst (verify dh dec fj reply oc token keys) = Inr i) \<or>
          (\<exists>m. match_api_key env token (api_keys (cfg_policies ?c)) = Some m \<and> i = mapped m)"
          by (auto split: option.splits if_splits prod.splits)
        then show ?thesis using h fallback_Inr match_api_key_Some by blast
      qed
    qed
  qed
qed

text \<open>
  C16.  What a verified token has passed: it names an asymmetric algorithm of the accepted list and a key
  id, the key is in the cache the call leaves, decoding with that key checks audience, issuer, expiry
  and not-before, and the three identity claims are non-empty strings.
\<close>

theorem verify_sound:
  assumes "verify dh dec fj reply oc token keys = (Inr i, keys')"
  shows "\<exists>h k key claims. dh token = Some h \<and> alg h \<in> {RS256, RS384, RS512, ES256, ES384} \<and> kid h = Some k \<and>
    map_of keys' k = Some key \<and>
    dec token key \<lparr>v_algorithms = [RS256, RS384, RS512, ES256, ES384], v_audience = [audience oc],
      v_issuer = [issuer oc], validate_exp = True, validate_nbf = True\<rparr> = Some claims \<and>
    claims (principal_claim oc) = Some (principal i) \<and> principal i \<noteq> [] \<and>
    claims (tenant_claim oc) = Some (tenant i) \<and> tenant i \<noteq> [] \<and>
    claims (application_claim oc) = Some (application i) \<and> application i \<noteq> [] \<and> trusted i"
proof -
  from assms obtain h k key claims where "dh token = Some h" "alg h \<in> set accepted_algorithms" "kid h = Some k"
    "map_of keys' k = Some key" "dec token key (token_validation oc) = Some claims" "claims_identity oc claims = Inr i"
    by (auto simp: verify_def Let_def split: option.splits if_splits sum.splits prod.splits)
  then show ?thesis
    by (auto simp: claims_identity_Inr token_validation_def accepted_algorithms_def)
qed

text \<open>
  The key cache changes all at once or not at all: a refresh that fails keeps the cache; one that
  succeeds leaves exactly the keys of a document of at most 1 MiB by its declared length, the last key
  of an id winning, and never an empty cache.
\<close>

theorem refresh_all_or_nothing:
  assumes "refresh fj reply keys = (res, keys')"
  shows "(case res of
      Inl e \<Rightarrow> keys' = keys
    | Inr _ \<Rightarrow> keys' \<noteq> [] \<and> (\<exists>len js. reply = JwksReply len None (Inr js) \<and>
        (len = None \<or> the len \<le> 1024 * 1024) \<and> map_of keys' = map_of (rev (published fj js)) \<and>
        list_all (\<lambda>j. key_id j = None \<or> \<not> isl (fj (jwk_raw j))) js))"
  using refresh_cases [OF assms]
proof (elim disjE exE conjE)
  fix len js
  assume a: "res = Inr ()" "reply = JwksReply len None (Inr js)" "keyed fj js [] = Inr keys'" "keys' \<noteq> []"
    "\<forall>n. len = Some n \<longrightarrow> n \<le> 1024 * 1024"
  have "len = None \<or> the len \<le> 1024 * 1024" using a(5) by (cases len) auto
  with a keyed_Inr [OF a(3)] keyed_all [OF a(3)] show ?thesis by auto
qed simp

section \<open>An example\<close>

definition example_oidc :: oidc_config where
  "example_oidc = \<lparr>issuer = ''https://id.example'', audience = ''inferqos'', jwks_url = None,
     principal_claim = ''sub'', tenant_claim = ''tenant'', application_claim = ''app'', oidc_required = True\<rparr>"

definition example_claims :: "string \<Rightarrow> string option" where
  "example_claims = [''sub'' \<mapsto> ''ana'', ''tenant'' \<mapsto> ''acme'', ''app'' \<mapsto> ''chat'']"

definition example_header :: "string \<Rightarrow> jwt_header option" where
  "example_header token = (if token = ''a.b.c'' then Some \<lparr>alg = ES256, kid = Some ''k1''\<rparr> else None)"

definition example_decode :: "string \<Rightarrow> nat \<Rightarrow> validation \<Rightarrow> (string \<Rightarrow> string option) option" where
  "example_decode token key v = (if key = 7 \<and> v_audience v = [''inferqos''] then Some example_claims else None)"

definition example_jwks :: "nat jwks_reply" where
  "example_jwks = JwksReply (Some 512) None (Inr [\<lparr>key_id = Some ''k1'', jwk_raw = 7\<rparr>])"

definition example_identity :: identity_context where
  "example_identity = \<lparr>principal = ''ana'', tenant = ''acme'', application = ''chat'', trusted = True\<rparr>"

lemma example_verified:
  "verify example_header example_decode Inr example_jwks example_oidc ''a.b.c'' []
     = (Inr example_identity, [(''k1'', 7)])"
  by (simp add: verify_def refresh_def example_header_def example_decode_def example_jwks_def example_oidc_def
      example_claims_def example_identity_def claims_identity_def claim_def token_validation_def accepted_algorithms_def)

theorem verify_sound_witness:
  "\<exists>h k key. example_header ''a.b.c'' = Some h \<and> kid h = Some k \<and> map_of [(''k1'', 7 :: nat)] k = Some key \<and>
     example_claims ''tenant'' = Some (tenant example_identity)"
  using verify_sound [OF example_verified] by (auto simp: example_oidc_def example_claims_def example_identity_def split: if_splits)

theorem refresh_all_or_nothing_witness:
  "refresh Inr example_jwks [] = (Inr (), [(''k1'', 7)]) \<and>
   map_of [(''k1'', 7 :: nat)] = map_of (rev (published Inr [\<lparr>key_id = Some ''k1'', jwk_raw = 7 :: nat\<rparr>]))"
proof -
  have r: "refresh Inr example_jwks [] = (Inr (), [(''k1'', 7 :: nat)])" by (simp add: refresh_def example_jwks_def)
  from refresh_all_or_nothing [OF r] r show ?thesis by (auto simp: example_jwks_def)
qed

definition example_resolver :: "config \<Rightarrow> (nat, nat) identity_resolver" where
  "example_resolver c = \<lparr>id_config = c, trusted_proxies = [10], oidc_keys = Some (example_oidc, [])\<rparr>"

definition forged_headers :: headers where
  "forged_headers = [''authorization'' \<mapsto> ''Bearer a.b.c'', ''x-inferqos-tenant'' \<mapsto> ''other'']"

definition plain_headers :: headers where
  "plain_headers = [''authorization'' \<mapsto> ''Bearer a.b.c'']"

lemma example_resolved:
  "resolve (=) (\<lambda>_. None) example_header example_decode Inr example_jwks plain_headers (Some 11) []
     (example_resolver example_config)
     = (Inr example_identity, (example_resolver example_config)\<lparr>oidc_keys := Some (example_oidc, [(''k1'', 7)])\<rparr>)"
  by (simp add: resolve_def example_resolver_def plain_headers_def strip_bearer_def dots_def example_verified)

theorem untrusted_headers_ignored_witness:
  "\<not> via_proxy (=) (Some 11) (example_resolver example_config) \<and>
   fst (resolve (=) (\<lambda>_. None) example_header example_decode Inr example_jwks forged_headers (Some 11) []
     (example_resolver example_config)) = Inr example_identity"
proof -
  have n: "\<not> via_proxy (=) (Some 11) (example_resolver example_config)"
    by (simp add: via_proxy_def example_resolver_def)
  have h: "forged_headers ''authorization'' = plain_headers ''authorization''"
    by (simp add: forged_headers_def plain_headers_def)
  show ?thesis using n by (simp add: untrusted_headers_ignored [where hs = forged_headers and hs' = plain_headers, OF n h]
      example_resolved)
qed

theorem resolve_provenance_witness:
  "\<exists>token oc keys. plain_headers ''authorization'' = Some (''Bearer '' @ token) \<and>
     oidc_keys (example_resolver example_config) = Some (oc, keys) \<and>
     fst (verify example_header example_decode Inr example_jwks oc token keys) = Inr example_identity"
  using resolve_provenance [OF example_resolved]
  by (auto simp: anonymous_def example_identity_def via_proxy_def example_resolver_def)

end
