(* ===== verification/Admission.thy ===== *)
theory Admission
  imports Capacity Coordinator Config
begin

text \<open>
  The admission layer of \<^verbatim>\<open>crates/proxy/src/lib.rs\<close>: concurrency accounting, the share of a tenant, the
  leases of one admission, the class a request is given, the decision history, and the answers the
  proxy makes itself.  The coordinator is the record of its trait's operations.
\<close>

section \<open>The coordinator trait\<close>

record 's coordinator_ops =
  op_reserve :: "string \<Rightarrow> f64 \<Rightarrow> f64 \<Rightarrow> duration \<Rightarrow> 's \<Rightarrow> (coordinator_error + lease option) \<times> 's"
  op_reserve_scoped ::
    "string \<Rightarrow> string \<Rightarrow> f64 \<Rightarrow> f64 \<Rightarrow> f64 \<Rightarrow> duration \<Rightarrow> 's \<Rightarrow> (coordinator_error + lease option) \<times> 's"
  op_release :: "lease \<Rightarrow> 's \<Rightarrow> (coordinator_error + unit) \<times> 's"
  op_renew :: "lease \<Rightarrow> duration \<Rightarrow> 's \<Rightarrow> (coordinator_error + bool) \<times> 's"
  op_healthy :: "'s \<Rightarrow> coordinator_error + unit"

section \<open>Concurrency\<close>

record concurrency_state =
  act_tenants :: "string \<rightharpoonup> nat"
  act_applications :: "string \<rightharpoonup> nat"

definition active_count :: "(string \<rightharpoonup> nat) \<Rightarrow> string \<Rightarrow> nat" where
  "active_count values key = (case values key of None \<Rightarrow> 0 | Some n \<Rightarrow> n)"

text \<open>\<^verbatim>\<open>*values.entry(key).or_default() += 1\<close>\<close>

definition increment :: "string \<Rightarrow> (string \<rightharpoonup> nat) \<Rightarrow> (string \<rightharpoonup> nat)" where
  "increment key values = values(key \<mapsto> wrapping_add (active_count values key) 1)"

definition decrement :: "string \<Rightarrow> (string \<rightharpoonup> nat) \<Rightarrow> (string \<rightharpoonup> nat)" where
  "decrement key values =
     (case values key of
        None \<Rightarrow> values
      | Some n \<Rightarrow> let v = saturating_sub n 1 in if v = 0 then values(key := None) else values(key \<mapsto> v))"

definition tenant_max_concurrency :: "config \<Rightarrow> string \<Rightarrow> nat" where
  "tenant_max_concurrency c t =
     (case map_of (tenants (cfg_policies c)) t of None \<Rightarrow> 1 | Some p \<Rightarrow> tenant_concurrency p)"

definition application_max_concurrency :: "config \<Rightarrow> string \<Rightarrow> nat" where
  "application_max_concurrency c a =
     (case map_of (applications (cfg_policies c)) a of None \<Rightarrow> 1 | Some p \<Rightarrow> app_concurrency p)"

definition force_enter :: "identity_context \<Rightarrow> concurrency_state \<Rightarrow> concurrency_state" where
  "force_enter ident act =
     act\<lparr>act_tenants := increment (tenant ident) (act_tenants act),
         act_applications := increment (application ident) (act_applications act)\<rparr>"

definition try_enter :: "identity_context \<Rightarrow> config \<Rightarrow> concurrency_state \<Rightarrow> bool \<times> concurrency_state" where
  "try_enter ident c act =
     (if tenant_max_concurrency c (tenant ident) \<le> active_count (act_tenants act) (tenant ident) \<or>
         application_max_concurrency c (application ident) \<le> active_count (act_applications act) (application ident)
      then (False, act)
      else (True, act\<lparr>act_tenants := increment (tenant ident) (act_tenants act),
                     act_applications := increment (application ident) (act_applications act)\<rparr>))"

definition leave :: "identity_context \<Rightarrow> concurrency_state \<Rightarrow> concurrency_state" where
  "leave ident act =
     act\<lparr>act_tenants := decrement (tenant ident) (act_tenants act),
         act_applications := decrement (application ident) (act_applications act)\<rparr>"

section \<open>A tenant's share of a pool\<close>

record admission_leases =
  capacity_lease :: lease
  tenant_slot :: lease
  application_slot :: lease

text \<open>A waiting request; the sender is the number of its channel.\<close>

record pending =
  sender :: nat
  pend_request :: admission_request
  pend_body_bytes :: nat
  class_weight :: nat
  pend_tenant_weight :: nat
  pend_app_weight :: nat
  queued_at :: instant

type_synonym pending_map = "(uuid \<times> pending) list"

definition guarantee_of :: "config \<Rightarrow> string \<Rightarrow> f64" where
  "guarantee_of c t =
     (case map_of (tenants (cfg_policies c)) t of None \<Rightarrow> f_of 0 | Some p \<Rightarrow> guaranteed_share p)"

definition max_share_of :: "config \<Rightarrow> string \<Rightarrow> f64" where
  "max_share_of c t =
     (case map_of (tenants (cfg_policies c)) t of None \<Rightarrow> f_of 1 | Some p \<Rightarrow> max_share p)"

text \<open>The set of other tenants with waiting requests, in the order \<^verbatim>\<open>ord\<close> its hash set yields them.\<close>

definition competing :: "(string list \<Rightarrow> string list) \<Rightarrow> string \<Rightarrow> pending_map \<Rightarrow> string list" where
  "competing ord t pend =
     ord (remdups (filter (\<lambda>n. n \<noteq> t) (map (\<lambda>(_, p). tenant (req_identity (pend_request p))) pend)))"

definition tenant_capacity_limit ::
  "(string list \<Rightarrow> string list) \<Rightarrow> config \<Rightarrow> string \<Rightarrow> f64 \<Rightarrow> pending_map \<Rightarrow> f64" where
  "tenant_capacity_limit ord c t pool_limit pend =
     (let others = competing ord t pend
      in if others = [] then pool_limit * max_share_of c t
         else let competing_guarantees = f_sum (map (guarantee_of c) others);
                  reclaimable = f_max (f_of 1 - f_min competing_guarantees (f_of 1)) (guarantee_of c t)
              in pool_limit * f_min (max_share_of c t) reclaimable)"

section \<open>The leases of one admission\<close>

definition tenant_key :: "string \<Rightarrow> string \<Rightarrow> string" where
  "tenant_key pool t = ''__concurrency__:'' @ pool @ '':tenant:'' @ t"

definition application_key :: "string \<Rightarrow> string \<Rightarrow> string" where
  "application_key pool a = ''__concurrency__:'' @ pool @ '':application:'' @ a"

text \<open>A call that may fail, with the state it leaves: the operator \<^verbatim>\<open>?\<close> after an awaited call.\<close>

definition and_then :: "('e + 'a) \<times> 's \<Rightarrow> ('a \<Rightarrow> 's \<Rightarrow> ('e + 'b) \<times> 's) \<Rightarrow> ('e + 'b) \<times> 's" where
  "and_then r k = (case r of (Inl e, s) \<Rightarrow> (Inl e, s) | (Inr a, s) \<Rightarrow> k a s)"

definition reserve_distributed ::
  "'s coordinator_ops \<Rightarrow> (string list \<Rightarrow> string list) \<Rightarrow> duration \<Rightarrow> pending_map \<Rightarrow> admission_request \<Rightarrow> config
     \<Rightarrow> f64 \<Rightarrow> f64 \<Rightarrow> 's \<Rightarrow> (coordinator_error + admission_leases option) \<times> 's" where
  "reserve_distributed ops ord ttl pend request c pool_limit charged s =
     (let t = tenant (req_identity request);
          a = application (req_identity request);
          pool = req_pool request
      in and_then (op_reserve ops (tenant_key pool t) (f_of_nat (tenant_max_concurrency c t)) (f_of 1) ttl s)
     (\<lambda>ts s. case ts of None \<Rightarrow> (Inr None, s) | Some ts \<Rightarrow>
         and_then (op_reserve ops (application_key pool a) (f_of_nat (application_max_concurrency c a)) (f_of 1) ttl s)
     (\<lambda>as s. case as of
         None \<Rightarrow> and_then (op_release ops ts s) (\<lambda>_ s. (Inr None, s))
       | Some as \<Rightarrow>
         and_then (op_reserve_scoped ops pool t pool_limit (tenant_capacity_limit ord c t pool_limit pend) charged ttl s)
     (\<lambda>cap s. case cap of
         None \<Rightarrow> and_then (op_release ops as s) (\<lambda>_ s. and_then (op_release ops ts s) (\<lambda>_ s. (Inr None, s)))
       | Some cap \<Rightarrow>
           (Inr (Some \<lparr>capacity_lease = cap, tenant_slot = ts, application_slot = as\<rparr>), s)))))"

text \<open>Errors of a release are logged only.\<close>

definition release_distributed :: "'s coordinator_ops \<Rightarrow> admission_leases \<Rightarrow> 's \<Rightarrow> 's" where
  "release_distributed ops ls s =
     fold (\<lambda>l s. snd (op_release ops l s)) [capacity_lease ls, application_slot ls, tenant_slot ls] s"

text \<open>One tick of the renewal of an admission that is streaming.\<close>

definition renew_distributed :: "'s coordinator_ops \<Rightarrow> duration \<Rightarrow> admission_leases \<Rightarrow> 's \<Rightarrow> 's" where
  "renew_distributed ops ttl ls s =
     fold (\<lambda>l s. snd (op_renew ops l ttl s)) [capacity_lease ls, tenant_slot ls, application_slot ls] s"

section \<open>Classes, decisions and answers\<close>

definition effective_class_of ::
  "config \<Rightarrow> identity_context \<Rightarrow> service_class \<Rightarrow> service_class \<times> application_policy option" where
  "effective_class_of c ident requested =
     (let app = map_of (applications (cfg_policies c)) (application ident);
          allowed = (case app of
                       None \<Rightarrow> False
                     | Some p \<Rightarrow> app_tenant p = tenant ident \<and> class_to_string requested \<in> set (allowed_classes p))
      in if trusted ident \<and> allowed then (requested, app) else (Standard, app))"

record decision_record =
  dec_request_id :: uuid
  dec_class :: string
  dec_tenant :: string
  dec_application :: string
  dec_pool :: string
  estimated_work_units :: f64
  outcome :: string
  queue_age_ms :: nat

text \<open>\<^verbatim>\<open>while d.len() >= max { d.pop_front(); }\<close>\<close>

fun trim_front :: "nat \<Rightarrow> 'a list \<Rightarrow> 'a list" where
  "trim_front m [] = []"
| "trim_front m (x # xs) = (if m \<le> length (x # xs) then trim_front m xs else x # xs)"

definition record_decision :: "decision_record \<Rightarrow> nat \<Rightarrow> decision_record list \<Rightarrow> decision_record list" where
  "record_decision r m ds = (if m = 0 then ds else trim_front m ds @ [r])"

text \<open>An answer of the proxy itself: status, code, message and the seconds of \<^verbatim>\<open>retry-after\<close>.\<close>

record problem =
  status :: nat
  code :: string
  detail :: string
  retry_after :: "nat option"

definition response_header_safe :: "string \<Rightarrow> bool" where
  "response_header_safe name \<longleftrightarrow>
     name \<notin> set [''connection'', ''keep-alive'', ''proxy-authenticate'', ''proxy-authorization'', ''te'', ''trailer'',
       ''transfer-encoding'', ''upgrade'', ''set-cookie'']"

text \<open>The listener, coordinator, pools and OIDC settings of a running instance stay.\<close>

definition ensure_reload_compatible :: "config \<Rightarrow> config \<Rightarrow> string + unit" where
  "ensure_reload_compatible cur new =
     (if (listen (server cur), tls (server cur), admin_listen (admin cur), coordinator cur, cfg_pools cur,
          oidc (identity cur))
         = (listen (server new), tls (server new), admin_listen (admin new), coordinator new, cfg_pools new,
          oidc (identity new))
      then Inr ()
      else Inl ''listener, coordinator, capacity pool, and OIDC issuer changes require a rolling restart'')"

section \<open>Counters\<close>

text \<open>Concurrency limits that fit their type.\<close>

definition limits_u64 :: "config \<Rightarrow> bool" where
  "limits_u64 c \<longleftrightarrow> (\<forall>t. tenant_max_concurrency c t \<le> u64_max) \<and> (\<forall>a. application_max_concurrency c a \<le> u64_max)"

lemma active_count_increment:
  "active_count v k < u64_max \<Longrightarrow> active_count (increment k v) j = active_count v j + (if j = k then 1 else 0)"
  by (auto simp: increment_def active_count_def wrapping_add_exact)

lemma active_count_decrement:
  "active_count (decrement k v) j = active_count v j - (if j = k then 1 else 0)"
  by (auto simp: decrement_def active_count_def saturating_sub_def Let_def split: option.splits)

end
