(* ===== verification/Admission_Leases.thy ===== *)
theory Admission_Leases
  imports Admission Coordinator_Valkey
begin

text \<open>
  The contract admission has with a coordinator, as a locale over the trait's operations; the lemma that
  one admission holds all its leases or none; and the two coordinators as instances, each call reading
  the clock and drawing an id once.
\<close>

section \<open>The contract\<close>

text \<open>\<open>held\<close> is the set of leases a coordinator keeps, by pool and id, expired ones included.\<close>

locale lease_service =
  fixes ops :: "'s coordinator_ops"
    and held :: "'s \<Rightarrow> (string \<times> uuid) set"
  assumes reserve_some: "op_reserve ops k pl u ttl s = (Inr (Some l), s') \<Longrightarrow>
      lease_pool l = k \<and> (k, lease_id l) \<in> held s' \<and> held s' \<subseteq> insert (k, lease_id l) (held s)"
    and reserve_none: "op_reserve ops k pl u ttl s = (Inr None, s') \<Longrightarrow> held s' \<subseteq> held s"
    and reserve_error: "op_reserve ops k pl u ttl s = (Inl e, s') \<Longrightarrow> \<exists>i. held s' \<subseteq> insert (k, i) (held s)"
    and reserve_other: "op_reserve ops k pl u ttl s = (r, s') \<Longrightarrow> (k', i) \<in> held s \<Longrightarrow> k' \<noteq> k \<Longrightarrow> (k', i) \<in> held s'"
    and scoped_some: "op_reserve_scoped ops k sc pl sl u ttl s = (Inr (Some l), s') \<Longrightarrow>
      lease_pool l = k \<and> (k, lease_id l) \<in> held s' \<and> held s' \<subseteq> insert (k, lease_id l) (held s)"
    and scoped_none: "op_reserve_scoped ops k sc pl sl u ttl s = (Inr None, s') \<Longrightarrow> held s' \<subseteq> held s"
    and scoped_error: "op_reserve_scoped ops k sc pl sl u ttl s = (Inl e, s') \<Longrightarrow> \<exists>i. held s' \<subseteq> insert (k, i) (held s)"
    and scoped_other: "op_reserve_scoped ops k sc pl sl u ttl s = (r, s') \<Longrightarrow> (k', i) \<in> held s \<Longrightarrow> k' \<noteq> k \<Longrightarrow>
      (k', i) \<in> held s'"
    and release_ok: "op_release ops l s = (Inr v, s') \<Longrightarrow> held s' = held s - {(lease_pool l, lease_id l)}"
    and release_error: "op_release ops l s = (Inl e, s') \<Longrightarrow> held s' \<subseteq> held s"

definition lease_ref_of :: "lease \<Rightarrow> string \<times> uuid" where
  "lease_ref_of l = (lease_pool l, lease_id l)"

definition leases_of :: "admission_leases \<Rightarrow> (string \<times> uuid) set" where
  "leases_of ls = {lease_ref_of (capacity_lease ls), lease_ref_of (tenant_slot ls), lease_ref_of (application_slot ls)}"

lemma keys_distinct:
  "tenant_key p t \<noteq> application_key p a" "tenant_key p t \<noteq> p" "application_key p a \<noteq> p"
proof -
  have "length (tenant_key p t) > length p" "length (application_key p a) > length p"
    by (simp_all add: tenant_key_def application_key_def)
  then show "tenant_key p t \<noteq> p" "application_key p a \<noteq> p" by (metis less_irrefl)+
qed (simp add: tenant_key_def application_key_def)

lemma and_then_Inr:
  "and_then r k = (Inr b, s') \<longleftrightarrow> (\<exists>a s. r = (Inr a, s) \<and> k a s = (Inr b, s'))"
  by (auto simp: and_then_def split: prod.splits sum.splits)

context lease_service
begin

lemma distributed_none:
  assumes "reserve_distributed ops ord ttl pend q c pl ch s = (Inr None, s')"
  shows "held s' \<subseteq> held s"
proof -
  let ?p = "req_pool q" and ?t = "tenant (req_identity q)" and ?a = "application (req_identity q)"
  define R1 where "R1 = op_reserve ops (tenant_key ?p ?t) (f_of_nat (tenant_max_concurrency c ?t)) (f_of 1) ttl s"
  define R2 where "R2 = op_reserve ops (application_key ?p ?a) (f_of_nat (application_max_concurrency c ?a)) (f_of 1) ttl"
  define R3 where "R3 = op_reserve_scoped ops ?p ?t pl (tenant_capacity_limit ord c ?t pl pend) ch ttl"
  note body = assms [unfolded reserve_distributed_def Let_def, folded R1_def R2_def R3_def]
  obtain r1 s1 where r1: "R1 = (Inr r1, s1)" using body by (auto simp: and_then_Inr)
  show ?thesis
  proof (cases r1)
    case None
    with body r1 reserve_none [of _ _ _ _ s s1] show ?thesis by (auto simp: and_then_Inr R1_def)
  next
    case (Some ts)
    note k1 = reserve_some [OF r1 [unfolded R1_def Some]]
    obtain r2 s2 where r2: "R2 s1 = (Inr r2, s2)" using body r1 Some by (auto simp: and_then_Inr)
    show ?thesis
    proof (cases r2)
      case None
      with body r1 Some r2 obtain v where "op_release ops ts s2 = (Inr v, s')" by (auto simp: and_then_Inr)
      from release_ok [OF this] reserve_none [OF r2 [unfolded R2_def None]] k1 show ?thesis by auto
    next
      case r2s: (Some as)
      note k2 = reserve_some [OF r2 [unfolded R2_def r2s]]
      obtain s3 s4 v w where r3: "R3 s2 = (Inr None, s3)" "op_release ops as s3 = (Inr v, s4)"
        "op_release ops ts s4 = (Inr w, s')"
        using body r1 Some r2 r2s by (auto simp: and_then_Inr split: option.splits)
      from release_ok [OF r3(2)] release_ok [OF r3(3)] scoped_none [OF r3(1) [unfolded R3_def]] k1 k2 show ?thesis by auto
    qed
  qed
qed

lemma distributed_some:
  assumes "reserve_distributed ops ord ttl pend q c pl ch s = (Inr (Some ls), s')"
  shows "leases_of ls \<subseteq> held s' \<and> held s' \<subseteq> leases_of ls \<union> held s \<and>
    lease_pool (capacity_lease ls) = req_pool q \<and>
    lease_pool (tenant_slot ls) = tenant_key (req_pool q) (tenant (req_identity q)) \<and>
    lease_pool (application_slot ls) = application_key (req_pool q) (application (req_identity q))"
proof -
  let ?p = "req_pool q" and ?t = "tenant (req_identity q)" and ?a = "application (req_identity q)"
  define R1 where "R1 = op_reserve ops (tenant_key ?p ?t) (f_of_nat (tenant_max_concurrency c ?t)) (f_of 1) ttl s"
  define R2 where "R2 = op_reserve ops (application_key ?p ?a) (f_of_nat (application_max_concurrency c ?a)) (f_of 1) ttl"
  define R3 where "R3 = op_reserve_scoped ops ?p ?t pl (tenant_capacity_limit ord c ?t pl pend) ch ttl"
  from assms [unfolded reserve_distributed_def Let_def, folded R1_def R2_def R3_def]
  obtain ts s1 as s2 cap where r: "R1 = (Inr (Some ts), s1)" "R2 s1 = (Inr (Some as), s2)" "R3 s2 = (Inr (Some cap), s')"
    and ls: "ls = \<lparr>capacity_lease = cap, tenant_slot = ts, application_slot = as\<rparr>"
    by (auto simp: and_then_Inr split: option.splits)
  note r1 = r(1) [unfolded R1_def] and r2 = r(2) [unfolded R2_def] and r3 = r(3) [unfolded R3_def]
  note k = reserve_some [OF r1] reserve_some [OF r2] scoped_some [OF r3]
  have "lease_ref_of ts \<in> held s2" using reserve_other [OF r2] k keys_distinct(1) by (auto simp: lease_ref_of_def)
  then have "lease_ref_of ts \<in> held s'" using scoped_other [OF r3] k keys_distinct(2) by (auto simp: lease_ref_of_def)
  moreover have "lease_ref_of as \<in> held s'" using scoped_other [OF r3] k keys_distinct(3) by (auto simp: lease_ref_of_def)
  ultimately show ?thesis using k by (auto simp: ls leases_of_def lease_ref_of_def)
qed

lemma release_subset: "held (snd (op_release ops l s)) \<subseteq> held s"
  by (cases "op_release ops l s"; cases "fst (op_release ops l s)") (auto dest: release_ok release_error)

lemma distributed_released: "held (release_distributed ops ls s) \<subseteq> held s"
  unfolding release_distributed_def by (simp, intro subset_trans [OF release_subset] release_subset)

end

text \<open>A coordinator whose release never fails.\<close>

locale reliable_lease_service = lease_service +
  assumes release_succeeds: "\<exists>v s'. op_release ops l s = (Inr v, s')"
begin

lemma release_removes: "held (snd (op_release ops l s)) = held s - {lease_ref_of l}"
proof -
  obtain v s' where "op_release ops l s = (Inr v, s')" using release_succeeds by blast
  then show ?thesis using release_ok by (simp add: lease_ref_of_def)
qed

lemma release_all: "held (release_distributed ops ls s) = held s - leases_of ls"
  unfolding release_distributed_def by (auto simp: release_removes leases_of_def)

lemma admission_round_trip:
  assumes "reserve_distributed ops ord ttl pend q c pl ch s = (Inr (Some ls), s')"
  shows "held (release_distributed ops ls s') \<subseteq> held s"
  using distributed_some [OF assms] by (auto simp: release_all)

end

section \<open>The two coordinators\<close>

text \<open>The table, the clock and the ids a sequence of calls reads, and what becomes of each exchange.\<close>

record 't backend =
  be_clock :: "nat \<Rightarrow> instant"
  be_ids :: "nat \<Rightarrow> uuid"
  be_links :: "nat \<Rightarrow> link"
  be_calls :: nat
  be_table :: 't

definition served_by :: "(instant \<Rightarrow> uuid \<Rightarrow> link \<Rightarrow> 't \<Rightarrow> 'r \<times> 't) \<Rightarrow> 't backend \<Rightarrow> 'r \<times> 't backend" where
  "served_by f b =
     (let n = be_calls b; (r, t) = f (be_clock b n) (be_ids b n) (be_links b n) (be_table b)
      in (r, b\<lparr>be_calls := Suc n, be_table := t\<rparr>))"

definition mem_ops :: "(pool_leases \<Rightarrow> pool_leases) \<Rightarrow> lease_state backend coordinator_ops" where
  "mem_ops ord = \<lparr>
     op_reserve = (\<lambda>k pl u ttl. served_by (\<lambda>now i _. mem_reserve ord now i k pl u ttl)),
     op_reserve_scoped = (\<lambda>k sc pl sl u ttl. served_by (\<lambda>now i _. mem_reserve_scoped ord now i k sc pl sl u ttl)),
     op_release = (\<lambda>l. served_by (\<lambda>_ _ _ t. (Inr (), mem_release l t))),
     op_renew = (\<lambda>l ttl. served_by (\<lambda>now _ _ t. map_prod Inr id (mem_renew now l ttl t))),
     op_healthy = (\<lambda>_. Inr ())\<rparr>"

definition valkey_ops ::
  "(string \<Rightarrow> f64 option) \<Rightarrow> (f64 \<Rightarrow> string) \<Rightarrow> (valkey_hash \<Rightarrow> valkey_hash) \<Rightarrow> string \<Rightarrow> string option
     \<Rightarrow> valkey_state backend coordinator_ops" where
  "valkey_ops tonumber tostring ord ns pong = \<lparr>
     op_reserve = (\<lambda>k pl u ttl. served_by (\<lambda>now i net.
       valkey_reserve tonumber tostring ord ns net (Some now) now i k pl u ttl)),
     op_reserve_scoped = (\<lambda>k sc pl sl u ttl. served_by (\<lambda>now i net.
       valkey_reserve_scoped tonumber tostring ord ns net (Some now) now i k sc pl sl u ttl)),
     op_release = (\<lambda>l. served_by (\<lambda>_ _ net. valkey_release ns net l)),
     op_renew = (\<lambda>l ttl. served_by (\<lambda>now _ net. valkey_renew ns net (Some now) l ttl)),
     op_healthy = (\<lambda>_. valkey_healthy pong)\<rparr>"

text \<open>The ids a table holds under a pool, and what a reservation under id \<open>i\<close> does to them.\<close>

definition held_by :: "('t \<Rightarrow> string \<Rightarrow> uuid set) \<Rightarrow> 't backend \<Rightarrow> (string \<times> uuid) set" where
  "held_by ids b = {(k, i). i \<in> ids (be_table b) k}"

definition mem_ids :: "lease_state \<Rightarrow> string \<Rightarrow> uuid set" where
  "mem_ids t k = fst ` set (entry_or_default t k)"

definition vk_ids :: "string \<Rightarrow> valkey_state \<Rightarrow> string \<Rightarrow> uuid set" where
  "vk_ids ns t k = fst ` set (hgetall t (valkey_key ns k))"

definition reserve_effect ::
  "('t \<Rightarrow> string \<Rightarrow> uuid set) \<Rightarrow> uuid \<Rightarrow> string \<Rightarrow> (coordinator_error + lease option) \<Rightarrow> 't \<Rightarrow> 't \<Rightarrow> bool" where
  "reserve_effect ids i k r t t' \<longleftrightarrow> (\<forall>j. j \<noteq> k \<longrightarrow> ids t' j = ids t j) \<and>
     (case r of
        Inl _ \<Rightarrow> ids t' k \<subseteq> insert i (ids t k)
      | Inr None \<Rightarrow> ids t' k \<subseteq> ids t k
      | Inr (Some l) \<Rightarrow> lease_pool l = k \<and> lease_id l = i \<and> i \<in> ids t' k \<and> ids t' k \<subseteq> insert i (ids t k))"

definition release_effect ::
  "('t \<Rightarrow> string \<Rightarrow> uuid set) \<Rightarrow> lease \<Rightarrow> (coordinator_error + unit) \<Rightarrow> 't \<Rightarrow> 't \<Rightarrow> bool" where
  "release_effect ids l r t t' \<longleftrightarrow> (\<forall>j. j \<noteq> lease_pool l \<longrightarrow> ids t' j = ids t j) \<and>
     (case r of
        Inl _ \<Rightarrow> ids t' (lease_pool l) \<subseteq> ids t (lease_pool l)
      | Inr _ \<Rightarrow> ids t' (lease_pool l) = ids t (lease_pool l) - {lease_id l})"

lemma served_by_iff:
  "served_by f b = (r, b') \<longleftrightarrow>
     (\<exists>t. f (be_clock b (be_calls b)) (be_ids b (be_calls b)) (be_links b (be_calls b)) (be_table b) = (r, t) \<and>
       b' = b\<lparr>be_calls := Suc (be_calls b), be_table := t\<rparr>)"
  by (auto simp: served_by_def Let_def split: prod.splits)

lemma mem_ids_upd: "mem_ids (t(k \<mapsto> l)) j = (if j = k then fst ` set l else mem_ids t j)"
  by (simp add: mem_ids_def entry_or_default_def)

lemma retain_ids: "(i, e) \<in> set (retain_live now (entry_or_default t k)) \<Longrightarrow> i \<in> mem_ids t k"
  by (force simp: mem_ids_def retain_live_def)

lemma mem_reserve_effect:
  "mem_reserve ord now i k pl u ttl t = (r, t') \<Longrightarrow> reserve_effect mem_ids i k r t t'"
  by (auto simp: mem_reserve_def reserve_effect_def mem_ids_upd dom_update Let_def
      split: if_splits dest!: retain_ids)

lemma mem_scoped_effect:
  "mem_reserve_scoped ord now i k sc pl sl u ttl t = (r, t') \<Longrightarrow> reserve_effect mem_ids i k r t t'"
  by (auto simp: mem_reserve_scoped_def reserve_effect_def mem_ids_upd dom_update Let_def
      split: if_splits sum.splits dest!: retain_ids)

lemma mem_release_effect: "release_effect mem_ids l (Inr ()) t (mem_release l t)"
  by (auto simp: mem_release_def release_effect_def mem_ids_def entry_or_default_def AList.delete_eq image_iff
      split: option.splits)

lemma held_by_iff: "(k, i) \<in> held_by ids b \<longleftrightarrow> i \<in> ids (be_table b) k"
  by (simp add: held_by_def)

lemma held_subset:
  assumes "\<forall>j. j \<noteq> k \<longrightarrow> ids (be_table s') j = ids (be_table s) j" "ids (be_table s') k \<subseteq> ids (be_table s) k \<union> X"
  shows "held_by ids s' \<subseteq> Pair k ` X \<union> held_by ids s"
proof (rule subrelI)
  fix j i assume "(j, i) \<in> held_by ids s'"
  then show "(j, i) \<in> Pair k ` X \<union> held_by ids s" using assms by (cases "j = k") (auto simp: held_by_iff)
qed

lemma effect_some:
  assumes "reserve_effect ids i k (Inr (Some l)) (be_table s) (be_table s')"
  shows "lease_pool l = k \<and> (k, lease_id l) \<in> held_by ids s' \<and> held_by ids s' \<subseteq> insert (k, lease_id l) (held_by ids s)"
  using assms held_subset [of k ids s' s "{i}"] by (simp add: reserve_effect_def held_by_iff)

lemma effect_none:
  assumes "reserve_effect ids i k (Inr None) (be_table s) (be_table s')"
  shows "held_by ids s' \<subseteq> held_by ids s"
  using assms held_subset [of k ids s' s "{}"] by (simp add: reserve_effect_def)

lemma effect_error:
  assumes "reserve_effect ids i k (Inl e) (be_table s) (be_table s')"
  shows "\<exists>i. held_by ids s' \<subseteq> insert (k, i) (held_by ids s)"
  using assms held_subset [of k ids s' s "{i}"] by (intro exI [of _ i]) (simp add: reserve_effect_def)

lemma effect_other:
  "reserve_effect ids i k r (be_table s) (be_table s') \<Longrightarrow> (k', j) \<in> held_by ids s \<Longrightarrow> k' \<noteq> k \<Longrightarrow> (k', j) \<in> held_by ids s'"
  by (simp add: reserve_effect_def held_by_iff)

lemma effect_release_error:
  assumes "release_effect ids l (Inl e) (be_table s) (be_table s')"
  shows "held_by ids s' \<subseteq> held_by ids s"
  using assms held_subset [of "lease_pool l" ids s' s "{}"] by (simp add: release_effect_def)

lemma effect_release_ok:
  assumes "release_effect ids l (Inr v) (be_table s) (be_table s')"
  shows "held_by ids s' = held_by ids s - {(lease_pool l, lease_id l)}"
proof (rule set_eqI)
  fix x :: "string \<times> uuid"
  obtain j i where x: "x = (j, i)" by (cases x)
  show "x \<in> held_by ids s' \<longleftrightarrow> x \<in> held_by ids s - {(lease_pool l, lease_id l)}"
    using assms by (cases "j = lease_pool l") (auto simp: x release_effect_def held_by_iff)
qed

lemma lease_service_by:
  assumes r: "\<And>k pl u ttl s res s'. op_reserve ops k pl u ttl s = (res, s') \<Longrightarrow>
      reserve_effect ids (be_ids s (be_calls s)) k res (be_table s) (be_table s')"
    and sc: "\<And>k sc pl sl u ttl s res s'. op_reserve_scoped ops k sc pl sl u ttl s = (res, s') \<Longrightarrow>
      reserve_effect ids (be_ids s (be_calls s)) k res (be_table s) (be_table s')"
    and rel: "\<And>l s res s'. op_release ops l s = (res, s') \<Longrightarrow> release_effect ids l res (be_table s) (be_table s')"
  shows "lease_service ops (held_by ids)"
  by unfold_locales
    (erule r [THEN effect_some] r [THEN effect_none] r [THEN effect_error] sc [THEN effect_some] sc [THEN effect_none]
      sc [THEN effect_error] rel [THEN effect_release_ok] rel [THEN effect_release_error]
     | (rule r [THEN effect_other]; assumption) | (rule sc [THEN effect_other]; assumption))+

lemma mem_lease_service: "lease_service (mem_ops ord) (held_by mem_ids)"
  by (rule lease_service_by)
    (auto simp: mem_ops_def served_by_iff intro: mem_reserve_effect mem_scoped_effect mem_release_effect)

interpretation mem_service: reliable_lease_service "mem_ops ord" "held_by mem_ids" for ord
  by (intro reliable_lease_service.intro mem_lease_service reliable_lease_service_axioms.intro)
    (simp add: mem_ops_def served_by_iff)

lemma vk_ids_upd: "vk_ids ns (t(valkey_key ns k \<mapsto> h)) j = (if j = k then fst ` set h else vk_ids ns t j)"
  by (simp add: vk_ids_def hgetall_upd)

lemma hdel_ids: "fst ` set (hdel ds h) \<subseteq> fst ` set h" "fst ` set (hdel ds h) = fst ` set h - set ds"
  by (force simp: hdel_def)+

lemma reserve_script_ids:
  "reserve_script tonumber tostring ord now pl u i expiry sc sl h = (reply, h', ex) \<Longrightarrow>
     fst ` set h' \<subseteq> insert i (fst ` set h) \<and> (reply = Some 1 \<longrightarrow> i \<in> fst ` set h') \<and>
     (reply = Some 0 \<longrightarrow> fst ` set h' \<subseteq> fst ` set h) \<and> (reply = None \<or> reply = Some 0 \<or> reply = Some 1)"
proof -
  assume "reserve_script tonumber tostring ord now pl u i expiry sc sl h = (reply, h', ex)"
  then have "\<exists>ds v. h' = hdel ds h \<and> (reply = None \<or> reply = Some 0) \<or> h' = AList.update i v (hdel ds h) \<and> reply = Some 1"
    unfolding reserve_script_def
    by (simp split: sum.splits prod.splits if_splits del: f_of_0 f_of_numeral) (elim disjE exE conjE; blast)+
  then obtain ds v where
    "h' = hdel ds h \<and> (reply = None \<or> reply = Some 0) \<or> h' = AList.update i v (hdel ds h) \<and> reply = Some 1" by blast
  moreover have "fst ` set (AList.update i v (hdel ds h)) = insert i (fst ` set h - set ds)"
    by (simp add: dom_update hdel_ids(2))
  ultimately show ?thesis using hdel_ids(1) [of ds h] by (elim disjE conjE) (simp_all, blast+)
qed

lemma vk_scoped_effect:
  assumes "valkey_reserve_scoped tonumber tostring ord ns net unix inst i k sc pl sl u ttl t = (r, t')"
  shows "reserve_effect (vk_ids ns) i k r t t'"
proof (cases "(\<exists>e. validate_limits pl sl u = Inl e) \<or> unix = None")
  case True
  with assms have "t' = t" "\<exists>e. r = Inl e" by (auto simp: valkey_reserve_scoped_def split: sum.splits)
  then show ?thesis by (auto simp: reserve_effect_def)
next
  case False
  then obtain d where d: "unix = Some d" "validate_limits pl sl u = Inr ()"
    by (cases "validate_limits pl sl u") auto
  obtain reply h ex where s: "reserve_script tonumber tostring ord (f_of_nat ((d div 1000000) mod 2 ^ 64)) pl u i
      (f_of_nat (saturating_add ((d div 1000000) mod 2 ^ 64) (millis_u64 ttl))) sc sl (hgetall t (valkey_key ns k))
      = (reply, h, ex)" by (metis prod_cases3)
  have "t' = t \<and> (\<exists>e. r = Inl e) \<or> t' = t(valkey_key ns k \<mapsto> h) \<and>
      ((\<exists>e. r = Inl e) \<or> reply = Some 1 \<and> (\<exists>l. r = Inr (Some l) \<and> lease_pool l = k \<and> lease_id l = i) \<or>
       (\<exists>n. reply = Some n \<and> n \<noteq> 1 \<and> r = Inr None))"
    using assms d s by (auto simp: valkey_reserve_scoped_def Let_def split: link.splits option.splits if_splits)
  moreover note e = reserve_script_ids [OF s, folded vk_ids_def]
  ultimately show ?thesis
    by (elim disjE conjE exE) (simp_all add: reserve_effect_def vk_ids_upd subset_insertI2)
qed

lemma vk_reserve_effect:
  "valkey_reserve tonumber tostring ord ns net unix inst i k pl u ttl t = (r, t') \<Longrightarrow> reserve_effect (vk_ids ns) i k r t t'"
  by (auto simp: valkey_reserve_def split: if_splits intro: vk_scoped_effect) (auto simp: reserve_effect_def)

lemma vk_release_effect:
  "valkey_release ns net l t = (r, t') \<Longrightarrow> release_effect (vk_ids ns) l r t t'"
  by (cases net) (auto simp: valkey_release_def release_effect_def vk_ids_upd hdel_ids(2) Let_def vk_ids_def [symmetric])

interpretation vk_service: lease_service "valkey_ops tonumber tostring ord ns pong" "held_by (vk_ids ns)"
  for tonumber tostring ord ns pong
  by (rule lease_service_by)
    (auto simp: valkey_ops_def served_by_iff intro: vk_reserve_effect vk_scoped_effect vk_release_effect)

end
