(* ===== verification/Admission_Properties.thy ===== *)
theory Admission_Properties
  imports Admission_Leases Config_Properties
begin

text \<open>
  What admission guarantees: concurrency counters that count exactly the requests inside, a tenant's
  share between its guarantee and its maximum, leases held all or none, and a bounded history.
\<close>

section \<open>Concurrency counters\<close>

text \<open>The counters and the requests inside, over the calls of one instance in enforcing mode.\<close>

datatype conc_op = TryEnter identity_context | LeaveOne identity_context

fun conc_step ::
  "config \<Rightarrow> conc_op \<Rightarrow> concurrency_state \<times> identity_context list \<Rightarrow> concurrency_state \<times> identity_context list" where
  "conc_step c (TryEnter i) (act, inside) =
     (case try_enter i c act of (ok, act') \<Rightarrow> (act', if ok then i # inside else inside))"
| "conc_step c (LeaveOne i) (act, inside) =
     (if i \<in> set inside then (leave i act, remove1 i inside) else (act, inside))"

definition conc_run :: "config \<Rightarrow> conc_op list \<Rightarrow> concurrency_state \<times> identity_context list" where
  "conc_run c ops = fold (conc_step c) ops (\<lparr>act_tenants = Map.empty, act_applications = Map.empty\<rparr>, [])"

definition inside_tenant :: "string \<Rightarrow> identity_context list \<Rightarrow> nat" where
  "inside_tenant t is = length (filter (\<lambda>i. tenant i = t) is)"

definition inside_application :: "string \<Rightarrow> identity_context list \<Rightarrow> nat" where
  "inside_application a is = length (filter (\<lambda>i. application i = a) is)"

definition conc_ok :: "config \<Rightarrow> concurrency_state \<times> identity_context list \<Rightarrow> bool" where
  "conc_ok c = (\<lambda>(act, inside).
     (\<forall>t. active_count (act_tenants act) t = inside_tenant t inside \<and> inside_tenant t inside \<le> tenant_max_concurrency c t) \<and>
     (\<forall>a. active_count (act_applications act) a = inside_application a inside \<and>
        inside_application a inside \<le> application_max_concurrency c a))"

lemma filter_remove1_length:
  "i \<in> set xs \<Longrightarrow> length (filter P (remove1 i xs)) = length (filter P xs) - (if P i then 1 else 0)"
  by (simp add: filter_remove1 length_remove1)

lemma conc_step_ok:
  assumes "conc_ok c st" "limits_u64 c"
  shows "conc_ok c (conc_step c op st)"
proof -
  obtain act inside where st: "st = (act, inside)" by (cases st)
  show ?thesis
  proof (cases op)
    case (TryEnter i)
    show ?thesis
    proof (cases "fst (try_enter i c act)")
      case True
      then have lt: "active_count (act_tenants act) (tenant i) < tenant_max_concurrency c (tenant i)"
        "active_count (act_applications act) (application i) < application_max_concurrency c (application i)"
        by (auto simp: try_enter_def split: if_splits)
      with assms(2) have "active_count (act_tenants act) (tenant i) < u64_max"
        "active_count (act_applications act) (application i) < u64_max"
        by (auto simp: limits_u64_def intro: less_le_trans)
      with True lt assms(1) show ?thesis
        by (auto simp: TryEnter st conc_ok_def try_enter_def inside_tenant_def inside_application_def
            active_count_increment Suc_le_eq)
    next
      case False
      with assms(1) show ?thesis by (auto simp: TryEnter st try_enter_def split: if_splits)
    qed
  next
    case (LeaveOne i)
    with assms(1) show ?thesis
      by (auto simp: st conc_ok_def leave_def inside_tenant_def inside_application_def active_count_decrement
          filter_remove1_length intro: le_trans [OF diff_le_self])
  qed
qed

lemma conc_run_ok: "limits_u64 c \<Longrightarrow> conc_ok c (conc_run c ops)"
proof -
  assume l: "limits_u64 c"
  have "conc_ok c (fold (conc_step c) ops st)" if "conc_ok c st" for st
    using that
  proof (induction ops arbitrary: st)
    case (Cons op ops)
    show ?case using Cons.IH [OF conc_step_ok [OF Cons.prems l]] by simp
  qed simp
  then show ?thesis
    by (simp add: conc_run_def conc_ok_def active_count_def inside_tenant_def inside_application_def)
qed

section \<open>Shares\<close>

lemma f_min_cases: "x \<noteq> NaN \<Longrightarrow> y \<noteq> NaN \<Longrightarrow> f_min x y = x \<and> x \<le> y \<or> f_min x y = y \<and> y \<le> x"
  using f_not_less [of y x] f_less_imp_le [of y x] by (auto simp: f_min_def)

lemma f_max_cases: "x \<noteq> NaN \<Longrightarrow> y \<noteq> NaN \<Longrightarrow> f_max x y = x \<and> y \<le> x \<or> f_max x y = y \<and> x \<le> y"
  using f_not_less [of x y] f_less_imp_le [of x y] by (auto simp: f_max_def)

definition shares_valid :: "config \<Rightarrow> bool" where
  "shares_valid c \<longleftrightarrow> (\<forall>(_, p) \<in> set (tenants (cfg_policies c)). tenant_valid p)"

lemma config_valid_shares: "config_valid pn pu c \<Longrightarrow> shares_valid c"
  by (simp add: config_valid_def shares_valid_def)

lemma share_bounds:
  assumes "shares_valid c"
  shows "f_of 0 \<le> guarantee_of c t" "guarantee_of c t \<le> max_share_of c t" "max_share_of c t \<le> f_of 1"
  using assms by (fastforce simp: shares_valid_def tenant_valid_def guarantee_of_def max_share_of_def f_ops
      split: option.splits dest: map_of_SomeD)+

lemma share_nonan:
  assumes "shares_valid c"
  shows "guarantee_of c t \<noteq> NaN" "max_share_of c t \<noteq> NaN"
  using f_le_nonan [OF share_bounds(2) [OF assms]] by auto

lemma f_one_minus_nonan: "f_of 0 \<le> x \<Longrightarrow> f_of 1 - f_min x (f_of 1) \<noteq> NaN"
  by (elim f_nonnegE) (auto simp: f_ops f_min_def f_mk_nonan split: if_splits)

lemma limit_share:
  assumes "shares_valid c" "\<forall>xs. mset (ord xs) = mset xs"
  obtains sh where "tenant_capacity_limit ord c t pool_limit pend = pool_limit * sh"
    "guarantee_of c t \<le> sh" "sh \<le> max_share_of c t"
proof (cases "competing ord t pend = []")
  case True
  with that [of "max_share_of c t"] share_bounds [OF assms(1)] share_nonan [OF assms(1)] f_le_refl show ?thesis
    by (simp add: tenant_capacity_limit_def)
next
  case False
  define g where "g = f_sum (map (guarantee_of c) (competing ord t pend))"
  define r where "r = f_max (f_of 1 - f_min g (f_of 1)) (guarantee_of c t)"
  have "f_of 0 \<le> g" unfolding g_def by (rule f_sum_nonneg) (auto simp: share_bounds [OF assms(1)] simp del: f_of_0)
  then have "f_of 1 - f_min g (f_of 1) \<noteq> NaN" by (rule f_one_minus_nonan)
  then have r: "guarantee_of c t \<le> r" "r \<noteq> NaN"
    unfolding r_def using share_nonan [OF assms(1), of t] f_max_ge f_max_nonan by auto
  show ?thesis
  proof (rule that [of "f_min (max_share_of c t) r"])
    show "tenant_capacity_limit ord c t pool_limit pend = pool_limit * f_min (max_share_of c t) r"
      using False by (simp add: tenant_capacity_limit_def Let_def g_def r_def del: f_of_0 f_of_1)
    show "guarantee_of c t \<le> f_min (max_share_of c t) r" "f_min (max_share_of c t) r \<le> max_share_of c t"
      using f_min_cases [OF share_nonan(2) [OF assms(1), of t] r(2)] share_bounds(2) [OF assms(1), of t] r(1)
        f_le_refl [OF share_nonan(2) [OF assms(1), of t]] by auto
  qed
qed

lemma f_mul_right_mono:
  assumes "f_of 0 \<le> x" "x \<le> y" "f_of 0 < p" "is_finite p"
  shows "p * x \<le> p * y"
  using f_mul_mono [OF assms(2,1,3,4)] by (simp add: f_mul_commute [of p])

section \<open>The history\<close>

lemma trim_front_drop: "0 < m \<Longrightarrow> trim_front m xs = drop (length xs - (m - 1)) xs"
  by (induction xs) (auto simp: Suc_diff_le le_Suc_eq not_le)

lemma record_all: "0 < m \<Longrightarrow> fold (\<lambda>r. record_decision r m) rs [] = drop (length rs - m) rs"
proof (induction rs rule: rev_induct)
  case (snoc r rs)
  then show ?case by (cases "length rs < m") (auto simp: record_decision_def trim_front_drop Suc_diff_le)
qed simp

section \<open>Properties\<close>

text \<open>
  C20.  Local concurrency: whatever the calls of \<^verbatim>\<open>try_enter\<close> and \<^verbatim>\<open>leave\<close>, the counters of a tenant and of an
  application are the numbers of its requests inside, and neither exceeds its configured maximum.
\<close>

theorem concurrency_within_limits:
  assumes "limits_u64 c" "conc_run c ops = (act, inside)"
  shows "active_count (act_tenants act) t = inside_tenant t inside \<and> inside_tenant t inside \<le> tenant_max_concurrency c t \<and>
    active_count (act_applications act) a = inside_application a inside \<and>
    inside_application a inside \<le> application_max_concurrency c a"
  using conc_run_ok [OF assms(1), of ops] by (simp add: assms(2) conc_ok_def)

text \<open>
  C19.  A tenant's share: under a valid configuration the limit given to a tenant is at least its guaranteed
  share of the pool, at most its maximum share, and so at most the pool, whoever else is waiting and in
  whatever order they are summed.
\<close>

theorem tenant_limit_within_share:
  assumes "shares_valid c" "\<forall>xs. mset (ord xs) = mset xs" "f_of 0 < pl" "is_finite pl"
  shows "pl * guarantee_of c t \<le> tenant_capacity_limit ord c t pl pend \<and>
    tenant_capacity_limit ord c t pl pend \<le> pl * max_share_of c t \<and>
    tenant_capacity_limit ord c t pl pend \<le> pl * f_of 1"
proof -
  obtain sh where sh: "tenant_capacity_limit ord c t pl pend = pl * sh" "guarantee_of c t \<le> sh" "sh \<le> max_share_of c t"
    using limit_share [OF assms(1,2)] by blast
  note b = share_bounds [OF assms(1), of t]
  have n: "f_of 0 \<le> sh" using b(1) sh(2) by (rule f_le_trans)
  have "sh \<le> f_of 1" using sh(3) b(3) by (rule f_le_trans)
  then show ?thesis
    unfolding sh(1) using f_mul_right_mono assms(3,4) b(1) n sh(2,3) by blast
qed


text \<open>
  C18.  The same over Valkey for an admission that reports no error: a refusal adds no lease and a grant adds
  exactly the three; a later release, delivered or not, never adds one.
\<close>

theorem valkey_admission_all_or_none:
  assumes "reserve_distributed (valkey_ops tonumber tostring ord ns pong) sord ttl pend q c pl ch s = (Inr r, s')"
  shows "case r of
      None \<Rightarrow> held_by (vk_ids ns) s' \<subseteq> held_by (vk_ids ns) s
    | Some ls \<Rightarrow> leases_of ls \<subseteq> held_by (vk_ids ns) s' \<and> held_by (vk_ids ns) s' \<subseteq> leases_of ls \<union> held_by (vk_ids ns) s \<and>
        held_by (vk_ids ns) (release_distributed (valkey_ops tonumber tostring ord ns pong) ls s') \<subseteq> held_by (vk_ids ns) s'"
proof (cases r)
  case None
  with vk_service.distributed_none assms show ?thesis by simp
next
  case (Some ls)
  with vk_service.distributed_some [OF assms [unfolded Some]] vk_service.distributed_released show ?thesis by simp
qed

text \<open>
  The history holds the last decisions: recording any sequence of decisions keeps exactly the last
  \<open>m\<close> of them, in order, so never more than the configured number.
\<close>

theorem history_keeps_last:
  assumes "0 < m"
  shows "fold (\<lambda>r. record_decision r m) rs [] = drop (length rs - m) rs \<and>
    length (fold (\<lambda>r. record_decision r m) rs []) = min m (length rs)"
  using record_all [OF assms, of rs] by simp

text \<open>
  A class other than standard is given only to a trusted identity whose application belongs to its
  tenant and lists the class; the class given is always the requested one or standard.
\<close>

theorem class_needs_policy:
  assumes "effective_class_of c i requested = (given, app)"
  shows "(given = requested \<or> given = Standard) \<and>
    (given = Standard \<or> trusted i \<and> (\<exists>p. app = Some p \<and> map_of (applications (cfg_policies c)) (application i) = Some p \<and>
       app_tenant p = tenant i \<and> class_to_string given \<in> set (allowed_classes p)))"
  using assms by (auto simp: effective_class_of_def Let_def split: if_splits option.splits)

text \<open>
  C21.  An error in the middle of an admission keeps what was reserved before it: when the tenant's slot was
  granted by Valkey and reserving the application's slot fails, the admission fails and the tenant's slot
  is still held, so it is given back only when its lease expires.
\<close>

theorem error_keeps_tenant_slot:
  assumes "op_reserve (valkey_ops tonumber tostring ord ns pong) (tenant_key (req_pool q) (tenant (req_identity q)))
      (f_of_nat (tenant_max_concurrency c (tenant (req_identity q)))) (f_of 1) ttl s = (Inr (Some ts), s1)"
    and "op_reserve (valkey_ops tonumber tostring ord ns pong) (application_key (req_pool q) (application (req_identity q)))
      (f_of_nat (application_max_concurrency c (application (req_identity q)))) (f_of 1) ttl s1 = (Inl e, s2)"
  shows "reserve_distributed (valkey_ops tonumber tostring ord ns pong) sord ttl pend q c pl ch s = (Inl e, s2) \<and>
    lease_ref_of ts \<in> held_by (vk_ids ns) s2"
proof -
  have "lease_ref_of ts \<in> held_by (vk_ids ns) s2"
    using vk_service.reserve_some [OF assms(1)] vk_service.reserve_other [OF assms(2)] keys_distinct(1)
    by (auto simp: lease_ref_of_def)
  then show ?thesis using assms by (simp add: reserve_distributed_def and_then_def Let_def del: f_of_1)
qed

section \<open>Witnesses\<close>

definition acme :: identity_context where
  "acme = \<lparr>principal = ''ana'', tenant = ''acme'', application = ''etl'', trusted = True\<rparr>"

definition acme_request :: admission_request where
  "acme_request = \<lparr>req_id = 9, req_identity = acme, requested_class = Batch, effective_class = Batch, req_pool = ''main'',
     estimate = \<lparr>input_tokens = 1, output_tokens = 1, cached_input_tokens = 0, provider_cost_coefficient = f_of 1,
       normalized_units = f_of 2, confidence = f_of 1, source = Approximation\<rparr>,
     req_deadline = 1000000000, queueable = True\<rparr>"

definition fresh_backend :: "(nat \<Rightarrow> link) \<Rightarrow> (string \<rightharpoonup> 'h) backend" where
  "fresh_backend links = \<lparr>be_clock = (\<lambda>n. 1000000 * n), be_ids = id, be_links = links, be_calls = 0, be_table = Map.empty\<rparr>"

lemma example_limits: "limits_u64 example_config"
  by (simp add: limits_u64_def tenant_max_concurrency_def application_max_concurrency_def example_config_def
      example_tenant_def example_app_def u64_max_def)

theorem concurrency_within_limits_witness:
  "inside_tenant ''acme'' (snd (conc_run example_config [TryEnter acme, TryEnter acme, TryEnter acme, LeaveOne acme])) = 1 \<and>
   active_count (act_tenants (fst (conc_run example_config [TryEnter acme, TryEnter acme, TryEnter acme, LeaveOne acme]))) ''acme'' = 1"
proof -
  let ?ops = "[TryEnter acme, TryEnter acme, TryEnter acme, LeaveOne acme]"
  have "inside_tenant ''acme'' (snd (conc_run example_config ?ops)) = 1"
    by (simp add: conc_run_def try_enter_def tenant_max_concurrency_def application_max_concurrency_def example_config_def
        example_tenant_def example_app_def acme_def active_count_def increment_def wrapping_add_def inside_tenant_def)
  with concurrency_within_limits [OF example_limits prod.collapse [symmetric], of ?ops "''acme''" "''etl''"] show ?thesis by simp
qed

theorem tenant_limit_within_share_witness:
  "f_of 100 * guarantee_of example_config ''acme'' \<le>
     tenant_capacity_limit id example_config ''acme'' (f_of 100)
       [(9, \<lparr>sender = 0, pend_request = acme_request\<lparr>req_identity := acme\<lparr>tenant := ''zeta''\<rparr>\<rparr>, pend_body_bytes = 1,
          class_weight = 1, pend_tenant_weight = 1, pend_app_weight = 1, queued_at = 0\<rparr>)]"
proof -
  have p: "f_of 0 < f_of 100" "is_finite (f_of 100)" by (simp_all add: f_ops)
  have od: "\<forall>xs :: string list. mset (id xs) = mset xs" by simp
  from tenant_limit_within_share [OF config_valid_shares [OF example_config_valid] od p] show ?thesis by blast
qed

definition example_vk_ops :: "valkey_state backend coordinator_ops" where
  "example_vk_ops = valkey_ops digits_to_number number_to_digits id ''iq'' None"

definition granted_all :: "(coordinator_error + admission_leases option) \<times> 's \<Rightarrow> bool" where
  "granted_all r = (case fst r of Inr (Some _) \<Rightarrow> True | _ \<Rightarrow> False)"

lemma granted_allD: "granted_all r \<Longrightarrow> \<exists>ls s'. r = (Inr (Some ls), s')"
  by (cases r) (auto simp: granted_all_def split: sum.splits option.splits)

lemma mem_granted:
  "granted_all (reserve_distributed (mem_ops id) id 300000000000 [] acme_request example_config (f_of 100) (f_of 2)
     (fresh_backend (\<lambda>_. Delivered)))"
  by code_simp


lemma vk_granted:
  "granted_all (reserve_distributed example_vk_ops id 300000000000 [] acme_request example_config (f_of 100) (f_of 2)
     (fresh_backend (\<lambda>_. Delivered)))"
  by code_simp

theorem valkey_admission_all_or_none_witness:
  "\<exists>ls s'. reserve_distributed (valkey_ops digits_to_number number_to_digits id ''iq'' None) id 300000000000 []
       acme_request example_config (f_of 100) (f_of 2) (fresh_backend (\<lambda>_. Delivered)) = (Inr (Some ls), s') \<and>
     leases_of ls \<subseteq> held_by (vk_ids ''iq'') s'"
proof -
  obtain ls s' where e: "reserve_distributed (valkey_ops digits_to_number number_to_digits id ''iq'' None) id 300000000000 []
      acme_request example_config (f_of 100) (f_of 2) (fresh_backend (\<lambda>_. Delivered)) = (Inr (Some ls), s')"
    using granted_allD [OF vk_granted [unfolded example_vk_ops_def]] by blast
  with valkey_admission_all_or_none [OF e] show ?thesis by auto
qed

text \<open>The second exchange does not reach the server.\<close>

definition second_lost :: "nat \<Rightarrow> link" where
  "second_lost n = (if n = 1 then Unreachable else Delivered)"

definition slot_then_error :: "(coordinator_error + lease option) \<times> valkey_state backend \<Rightarrow> bool" where
  "slot_then_error r = (case r of
       (Inr (Some _), s) \<Rightarrow> fst (op_reserve example_vk_ops (application_key ''main'' ''etl'')
          (f_of_nat (application_max_concurrency example_config ''etl'')) (f_of 1) 300000000000 s) = Inl RedisError
     | _ \<Rightarrow> False)"

lemma second_exchange_fails:
  "slot_then_error (op_reserve example_vk_ops (tenant_key ''main'' ''acme'')
     (f_of_nat (tenant_max_concurrency example_config ''acme'')) (f_of 1) 300000000000 (fresh_backend second_lost))"
  by code_simp

theorem error_keeps_tenant_slot_witness:
  "\<exists>ts s2. reserve_distributed (valkey_ops digits_to_number number_to_digits id ''iq'' None) id 300000000000 []
       acme_request example_config (f_of 100) (f_of 2) (fresh_backend second_lost) = (Inl RedisError, s2) \<and>
     lease_ref_of ts \<in> held_by (vk_ids ''iq'') s2"
proof -
  let ?ops = "valkey_ops digits_to_number number_to_digits id ''iq'' None"
  have f: "req_pool acme_request = ''main''" "tenant (req_identity acme_request) = ''acme''"
    "application (req_identity acme_request) = ''etl''" by (simp_all add: acme_request_def acme_def)
  obtain ts s1 where a: "op_reserve ?ops (tenant_key ''main'' ''acme'')
      (f_of_nat (tenant_max_concurrency example_config ''acme'')) (f_of 1) 300000000000 (fresh_backend second_lost)
      = (Inr (Some ts), s1)"
    and b: "fst (op_reserve ?ops (application_key ''main'' ''etl'')
      (f_of_nat (application_max_concurrency example_config ''etl'')) (f_of 1) 300000000000 s1) = Inl RedisError"
    using second_exchange_fails [unfolded slot_then_error_def example_vk_ops_def]
    by (auto simp del: f_of_1 split: prod.splits sum.splits option.splits)
  from b obtain s2 where c: "op_reserve ?ops (application_key ''main'' ''etl'')
      (f_of_nat (application_max_concurrency example_config ''etl'')) (f_of 1) 300000000000 s1 = (Inl RedisError, s2)"
    by (metis prod.collapse)
  from error_keeps_tenant_slot [of digits_to_number number_to_digits id "''iq''" None acme_request example_config, unfolded f, OF a c]
  show ?thesis by blast
qed

definition example_decision :: "nat \<Rightarrow> decision_record" where
  "example_decision n = \<lparr>dec_request_id = n, dec_class = ''batch'', dec_tenant = ''acme'', dec_application = ''etl'',
     dec_pool = ''main'', estimated_work_units = f_of 2, outcome = ''admitted'', queue_age_ms = 0\<rparr>"

theorem history_keeps_last_witness:
  "(0 :: nat) < 2 \<and> fold (\<lambda>r. record_decision r 2) (map example_decision [1, 2, 3]) [] = map example_decision [2, 3]"
  using history_keeps_last [of 2 "map example_decision [1, 2, 3]"] by simp

theorem class_needs_policy_witness:
  "effective_class_of example_config acme Batch = (Batch, Some example_app) \<and> app_tenant example_app = ''acme''"
proof -
  have e: "effective_class_of example_config acme Batch = (Batch, Some example_app)"
    by (simp add: effective_class_of_def acme_def example_config_def example_app_def)
  with class_needs_policy [OF e] show ?thesis by (auto simp: acme_def)
qed

end
