(* ===== verification/Proxy.thy ===== *)
theory Proxy
  imports Admission Scheduler Identity
begin

text \<open>
  The request path of \<^verbatim>\<open>crates/proxy/src/lib.rs\<close>.  The handler is the sequence of the steps it takes between
  the points where it waits for another task: preparing a request, trying to admit it, queueing it,
  registering it as pending, waiting, and dispatching.  The dispatcher's tick, the guard that gives an
  admission back, the reload tick and the management checks are functions of the same state.  What the
  identity resolver, the provider and the file system answered are arguments; telemetry is left out.
\<close>

section \<open>State\<close>

record metrics =
  m_requests :: nat
  m_admitted :: nat
  m_queued :: nat
  m_rejected :: nat
  m_shadow_would_queue :: nat
  m_provider_throttles :: nat
  m_active :: nat

record pool_runtime =
  rt_model :: capacity_model
  rt_capacity :: capacity_state
  rt_limit :: f64

text \<open>\<^verbatim>\<open>Inner\<close>; \<open>mailbox\<close> is what the one-shot channels carry and \<open>listening\<close> the channels still received on.\<close>

record 's app_state =
  app_config :: config
  app_pools :: "(string \<times> pool_runtime) list"
  app_sched :: inner
  app_pending :: pending_map
  app_decisions :: "decision_record list"
  draining :: bool
  app_metrics :: metrics
  app_coordinator :: 's
  app_inside :: concurrency_state
  mailbox :: "nat \<rightharpoonup> admission_leases"
  listening :: "nat set"

text \<open>What stays fixed after \<^verbatim>\<open>build\<close>, and the order in which a hash set of tenants is summed.\<close>

record 's proxy_env =
  coord :: "'s coordinator_ops"
  sched_cfg :: scheduler_config
  lease_ttl :: duration
  tenant_ord :: "string list \<Rightarrow> string list"
  coordinator_text :: "coordinator_error \<Rightarrow> string"

datatype 'a step = Panic | Answer problem | Go 'a

definition problem_of :: "nat \<Rightarrow> string \<Rightarrow> string \<Rightarrow> nat option \<Rightarrow> problem" where
  "problem_of st c d r = \<lparr>status = st, code = c, detail = d, retry_after = r\<rparr>"

section \<open>Bodies\<close>

datatype stored_body = InMemory string | Spool (spool_path: string) (spool_len: nat)

text \<open>\<open>spool\<close> writes a private file and gives its path, or the error of any of the steps.\<close>

definition store :: "(string \<Rightarrow> string + string) \<Rightarrow> nat \<Rightarrow> string \<Rightarrow> string + stored_body" where
  "store spool threshold body =
     (if length body \<le> threshold then Inr (InMemory body)
      else map_sum id (\<lambda>path. Spool path (length body)) (spool body))"

fun stored_len :: "stored_body \<Rightarrow> nat" where
  "stored_len (InMemory body) = length body"
| "stored_len (Spool _ n) = n"

fun load :: "(string \<Rightarrow> string + string) \<Rightarrow> stored_body \<Rightarrow> string + string" where
  "load read_file (InMemory body) = Inr body"
| "load read_file (Spool path n) =
     (case read_file path of
        Inl e \<Rightarrow> Inl e
      | Inr body \<Rightarrow> if length body \<noteq> n then Inl ''spooled body length changed'' else Inr body)"

section \<open>Headers\<close>

text \<open>\<^verbatim>\<open>str::parse::<u64>\<close>: an optional plus sign and at least one digit, within 64 bits.\<close>

definition parse_u64 :: "string \<Rightarrow> nat option" where
  "parse_u64 s =
     (let ds = (case s of c # cs \<Rightarrow> if c = CHR ''+'' then cs else s | [] \<Rightarrow> [])
      in if ds \<noteq> [] \<and> list_all is_digit ds \<and> dec_value ds \<le> u64_max then Some (dec_value ds) else None)"

definition ascii_lower :: "char \<Rightarrow> char" where
  "ascii_lower c = (if 65 \<le> (of_char c :: nat) \<and> (of_char c :: nat) \<le> 90 then char_of ((of_char c :: nat) + 32) else c)"

definition eq_ignore_ascii_case :: "string \<Rightarrow> string \<Rightarrow> bool" where
  "eq_ignore_ascii_case a b \<longleftrightarrow> map ascii_lower a = map ascii_lower b"

definition requested_class_of :: "headers \<Rightarrow> service_class" where
  "requested_class_of hs =
     (case hs HEADER_CLASS of
        None \<Rightarrow> Standard
      | Some v \<Rightarrow> (case class_from_str v of Inl _ \<Rightarrow> Standard | Inr k \<Rightarrow> k))"

definition deadline_of :: "headers \<Rightarrow> service_class_config \<Rightarrow> duration" where
  "deadline_of hs k =
     min (case Option.bind (hs HEADER_DEADLINE_MS) parse_u64 of
            None \<Rightarrow> default_deadline k
          | Some ms \<Rightarrow> ms * 1000000) (max_queue k)"

definition queueable_of :: "headers \<Rightarrow> service_class \<Rightarrow> bool" where
  "queueable_of hs effective =
     (case hs HEADER_QUEUEABLE of None \<Rightarrow> effective \<noteq> Realtime | Some v \<Rightarrow> eq_ignore_ascii_case v ''true'')"

section \<open>The handler\<close>

text \<open>
  What the handler is given: the headers, the body if it is within the limit, the id it takes when the
  header has none, what the resolver and the provider of a pool answered, and the spool.
\<close>

record arrival =
  arr_headers :: headers
  arr_body :: "nat \<Rightarrow> string option"
  arr_request_id :: uuid
  arr_identity :: "string + identity_context"
  arr_estimate :: "string \<Rightarrow> string + work_estimate"
  arr_spool :: "string \<Rightarrow> string + string"

record prepared =
  prep_admission :: admission_request
  prep_body :: stored_body
  prep_class :: service_class_config
  prep_app :: "application_policy option"

definition first_pool :: "config \<Rightarrow> application_policy option \<Rightarrow> string option" where
  "first_pool c app =
     (case Option.bind app (\<lambda>p. case permitted_pools p of [] \<Rightarrow> None | n # _ \<Rightarrow> Some n) of
        Some n \<Rightarrow> Some n
      | None \<Rightarrow> (case cfg_pools c of [] \<Rightarrow> None | (n, _) # _ \<Rightarrow> Some n))"

text \<open>Lines up to the admission request; the counter of requests has been raised by \<open>receive\<close>.\<close>

definition prepare :: "arrival \<Rightarrow> 's app_state \<Rightarrow> prepared step" where
  "prepare arr st =
     (let c = app_config st in
      case arr_body arr (max_body_bytes (server c)) of
        None \<Rightarrow> Answer (problem_of 413 ''body_too_large''
          (''request body exceeds configured limit of '' @ nat_to_dec (max_body_bytes (server c)) @ '' bytes'') None)
      | Some body \<Rightarrow>
     (case arr_identity arr of
        Inl e \<Rightarrow> Answer (problem_of 401 ''authentication_failed'' e None)
      | Inr ident \<Rightarrow>
     (let requested = requested_class_of (arr_headers arr);
          (effective, app) = effective_class_of c ident requested
      in case first_pool c app of
        None \<Rightarrow> Panic
      | Some pool_name \<Rightarrow>
     (case map_of (app_pools st) pool_name of
        None \<Rightarrow> Answer (problem_of 503 ''pool_unavailable'' ''configured pool is unavailable'' (Some 1))
      | Some _ \<Rightarrow>
     (case arr_estimate arr pool_name of
        Inl e \<Rightarrow> Answer (problem_of 400 ''estimate_failed'' e None)
      | Inr est \<Rightarrow>
     (case store (arr_spool arr) (spool_threshold_bytes (server c)) body of
        Inl e \<Rightarrow> Answer (problem_of 507 ''spool_failed''
          (''cannot securely spool bounded request body: '' @ e) None)
      | Inr stored \<Rightarrow>
     (case map_of (service_classes c) (class_to_string effective) of
        None \<Rightarrow> Panic
      | Some k \<Rightarrow>
          Go \<lparr>prep_admission = \<lparr>req_id = arr_request_id arr, req_identity = ident, requested_class = requested,
                effective_class = effective, req_pool = pool_name, estimate = est,
                req_deadline = deadline_of (arr_headers arr) k,
                queueable = queueable_of (arr_headers arr) effective\<rparr>,
              prep_body = stored, prep_class = k, prep_app = app\<rparr>)))))))"

definition bump :: "(nat \<Rightarrow> nat) \<Rightarrow> ((nat \<Rightarrow> nat) \<Rightarrow> metrics \<Rightarrow> metrics) \<Rightarrow> 's app_state \<Rightarrow> 's app_state" where
  "bump f upd st = st\<lparr>app_metrics := upd f (app_metrics st)\<rparr>"

abbreviation plus_one :: "nat \<Rightarrow> nat" where
  "plus_one n \<equiv> wrapping_add n 1"

definition receive :: "arrival \<Rightarrow> 's app_state \<Rightarrow> prepared step \<times> 's app_state" where
  "receive arr st =
     (if draining st
      then (Answer (problem_of 503 ''draining'' ''InferQoS is draining and is not accepting new work'' (Some 1)), st)
      else let st = bump plus_one m_requests_update st in (prepare arr st, st))"

definition set_pool_capacity :: "string \<Rightarrow> (capacity_state \<Rightarrow> capacity_state) \<Rightarrow> 's app_state \<Rightarrow> 's app_state" where
  "set_pool_capacity name f st =
     st\<lparr>app_pools := map (\<lambda>(n, rt). (n, if n = name then rt\<lparr>rt_capacity := f (rt_capacity rt)\<rparr> else rt)) (app_pools st)\<rparr>"

text \<open>The immediate attempt: the leases, if any; whether the request is inside is whether there are.\<close>

definition try_admit ::
  "'s proxy_env \<Rightarrow> admission_request \<Rightarrow> pool_runtime \<Rightarrow> 's app_state \<Rightarrow> admission_leases option step \<times> 's app_state" where
  "try_admit env q rt st =
     (let charged = charged_units (normalized_units (estimate q)) (rt_capacity rt);
          (entered, conc) = try_enter (req_identity q) (app_config st) (app_inside st);
          st = st\<lparr>app_inside := conc\<rparr>
      in if \<not> entered then (Go None, st)
         else (case reserve_distributed (coord env) (tenant_ord env) (lease_ttl env) (app_pending st) q (app_config st)
                      (rt_limit rt) charged (app_coordinator st) of
                 (Inl e, s) \<Rightarrow>
                   (Answer (problem_of 503 ''coordinator_unavailable''
                      (''capacity coordinator failed closed: '' @ coordinator_text env e) (Some 1)),
                    st\<lparr>app_coordinator := s, app_inside := leave (req_identity q) (app_inside st)\<rparr>)
               | (Inr None, s) \<Rightarrow>
                   (Go None, st\<lparr>app_coordinator := s, app_inside := leave (req_identity q) (app_inside st)\<rparr>)
               | (Inr (Some ls), s) \<Rightarrow>
                   (Go (Some ls),
                    set_pool_capacity (req_pool q) (track_distributed (lease_id (capacity_lease ls)) charged)
                      (st\<lparr>app_coordinator := s\<rparr>))))"

definition decision :: "admission_request \<Rightarrow> string \<Rightarrow> nat \<Rightarrow> decision_record" where
  "decision q out age = \<lparr>dec_request_id = req_id q, dec_class = class_to_string (effective_class q),
     dec_tenant = tenant (req_identity q), dec_application = application (req_identity q), dec_pool = req_pool q,
     estimated_work_units = normalized_units (estimate q), outcome = out, queue_age_ms = age\<rparr>"

definition reject_and_record :: "config \<Rightarrow> admission_request \<Rightarrow> string \<Rightarrow> 's app_state \<Rightarrow> problem \<times> 's app_state" where
  "reject_and_record c q reason st =
     (problem_of 429 ''qos_rejected'' reason (Some (max (req_deadline q div 1000000000) 1)),
      (bump plus_one m_rejected_update st)\<lparr>app_decisions :=
         record_decision (decision q (''rejected: '' @ reason) 0) (decision_history (limits c)) (app_decisions st)\<rparr>)"

fun scheduler_text :: "(uuid \<Rightarrow> string) \<Rightarrow> scheduler_error \<Rightarrow> string" where
  "scheduler_text show_id DepthLimit = ''queue depth limit reached''"
| "scheduler_text show_id ByteLimit = ''queue byte limit reached''"
| "scheduler_text show_id (Duplicate i) = ''request '' @ show_id i @ '' is already queued''"

text \<open>
  What follows when there are no leases: shadow mode lets the request in, a request that cannot wait is
  rejected, any other is handed to the scheduler.
\<close>

datatype next_step = EnterShadow | RejectNow problem | Wait

definition queue_or_reject ::
  "'s proxy_env \<Rightarrow> (uuid \<Rightarrow> string) \<Rightarrow> nat \<Rightarrow> config \<Rightarrow> prepared \<Rightarrow> 's app_state \<Rightarrow> next_step \<times> 's app_state" where
  "queue_or_reject env show_id now_ns c p st =
     (let q = prep_admission p in
      if cfg_mode c = ModeShadow then
        (EnterShadow, (bump plus_one m_shadow_would_queue_update st)
           \<lparr>app_inside := force_enter (req_identity q) (app_inside st)\<rparr>)
      else if \<not> queueable q then
        map_prod RejectNow id (reject_and_record c q ''capacity unavailable and request is not queueable'' st)
      else
        (case enqueue (sched_cfg env) now_ns q (stored_len (prep_body p)) (cls_weight (prep_class p))
                (case map_of (tenants (cfg_policies c)) (tenant (req_identity q)) of None \<Rightarrow> 1 | Some t \<Rightarrow> tenant_weight t)
                (case prep_app p of None \<Rightarrow> 1 | Some a \<Rightarrow> app_weight a) (app_sched st) of
           (Inl e, s) \<Rightarrow> map_prod RejectNow id (reject_and_record c q (scheduler_text show_id e) (st\<lparr>app_sched := s\<rparr>))
         | (Inr _, s) \<Rightarrow> (Wait, bump plus_one m_queued_update (st\<lparr>app_sched := s\<rparr>))))"

text \<open>\<^verbatim>\<open>HashMap::insert\<close> of the pending entry; a sender it replaces is dropped.\<close>

definition insert_pending :: "uuid \<Rightarrow> pending \<Rightarrow> pending_map \<Rightarrow> pending_map" where
  "insert_pending i p pend = AList.update i p pend"

definition register ::
  "nat \<Rightarrow> instant \<Rightarrow> config \<Rightarrow> prepared \<Rightarrow> 's app_state \<Rightarrow> 's app_state" where
  "register chan now c p st =
     (let q = prep_admission p in
      st\<lparr>app_pending := insert_pending (req_id q)
            \<lparr>sender = chan, pend_request = q, pend_body_bytes = stored_len (prep_body p),
             class_weight = cls_weight (prep_class p),
             pend_tenant_weight = (case map_of (tenants (cfg_policies c)) (tenant (req_identity q)) of
                None \<Rightarrow> 1 | Some t \<Rightarrow> tenant_weight t),
             pend_app_weight = (case prep_app p of None \<Rightarrow> 1 | Some a \<Rightarrow> app_weight a),
             queued_at = now\<rparr> (app_pending st),
         listening := insert chan (listening st)\<rparr>)"

text \<open>The wait ends with what the channel carries, or without: its sender was dropped or time ran out.\<close>

definition wait_end ::
  "nat \<Rightarrow> config \<Rightarrow> admission_request \<Rightarrow> 's app_state \<Rightarrow> admission_leases step \<times> 's app_state" where
  "wait_end chan c q st =
     (case mailbox st chan of
        Some ls \<Rightarrow> (Go ls, st\<lparr>mailbox := (mailbox st)(chan := None), listening := listening st - {chan}\<rparr>)
      | None \<Rightarrow>
          let st = st\<lparr>listening := listening st - {chan}, app_sched := snd (cancel (req_id q) (app_sched st)),
                     app_pending := AList.delete (req_id q) (app_pending st)\<rparr>;
              (pr, st) = reject_and_record c q ''queue deadline expired'' st
          in (Answer pr, st))"

section \<open>The admission guard\<close>

record guard =
  g_pool :: string
  g_leases :: "admission_leases option"
  g_identity :: identity_context
  g_estimate :: work_estimate
  g_class :: string
  concurrency_entered :: bool
  counted_active :: bool

definition admitted ::
  "config \<Rightarrow> admission_request \<Rightarrow> admission_leases option \<Rightarrow> bool \<Rightarrow> string \<Rightarrow> nat \<Rightarrow> 's app_state \<Rightarrow> guard \<times> 's app_state" where
  "admitted c q ls entered out age st =
     (\<lparr>g_pool = req_pool q, g_leases = ls, g_identity = req_identity q, g_estimate = estimate q,
       g_class = class_to_string (effective_class q), concurrency_entered = entered, counted_active = True\<rparr>,
      (bump plus_one m_active_update (bump plus_one m_admitted_update st))
        \<lparr>app_decisions := record_decision (decision q out age) (decision_history (limits c)) (app_decisions st)\<rparr>)"

definition release_local :: "guard \<Rightarrow> 's app_state \<Rightarrow> guard \<times> 's app_state" where
  "release_local g st =
     (let st = (if concurrency_entered g then st\<lparr>app_inside := leave (g_identity g) (app_inside st)\<rparr> else st);
          st = (if counted_active g then bump (\<lambda>n. wrapping_sub n 1) m_active_update st else st)
      in (g\<lparr>concurrency_entered := False, counted_active := False\<rparr>, st))"

definition capacity_give_back ::
  "guard \<Rightarrow> admission_leases \<Rightarrow> f64 option \<Rightarrow> bool \<Rightarrow> 's app_state \<Rightarrow> 's app_state" where
  "capacity_give_back g ls actual throttled st =
     (case map_of (app_pools st) (g_pool g) of
        None \<Rightarrow> st
      | Some rt \<Rightarrow> set_pool_capacity (g_pool g)
          (\<lambda>s. snd (capacity_release (rt_model rt) (lease_id (capacity_lease ls)) (normalized_units (g_estimate g))
             actual throttled s)) st)"

text \<open>\<^verbatim>\<open>Drop\<close>; the leases it returns are released by the task it spawns.\<close>

definition guard_drop :: "guard \<Rightarrow> 's app_state \<Rightarrow> guard \<times> admission_leases option \<times> 's app_state" where
  "guard_drop g st =
     (let st = (case g_leases g of None \<Rightarrow> st | Some ls \<Rightarrow> capacity_give_back g ls None False st);
          (g', st) = release_local (g\<lparr>g_leases := None\<rparr>) st
      in (g', g_leases g, st))"

definition settle :: "'s proxy_env \<Rightarrow> admission_leases \<Rightarrow> 's app_state \<Rightarrow> 's app_state" where
  "settle env ls st = st\<lparr>app_coordinator := release_distributed (coord env) ls (app_coordinator st)\<rparr>"

text \<open>\<^verbatim>\<open>complete\<close>, without the drop of the emptied guard at its end.\<close>

definition guard_complete ::
  "'s proxy_env \<Rightarrow> work_estimate option \<Rightarrow> bool \<Rightarrow> guard \<Rightarrow> 's app_state \<Rightarrow> guard \<times> 's app_state" where
  "guard_complete env actual throttled g st =
     (let st = (case g_leases g of
                  None \<Rightarrow> st
                | Some ls \<Rightarrow> capacity_give_back g ls (map_option normalized_units actual) throttled (settle env ls st))
      in release_local (g\<lparr>g_leases := None\<rparr>) st)"

section \<open>Dispatch\<close>

text \<open>
  After admission: the body is read back, the provider is called, and either an error is answered, which
  drops the guard, or the response is streamed under the guard.
\<close>

text \<open>
  The headers as the header map yields them when drained: the name comes with the first of its values and
  is absent for the others.
\<close>

record provider_reply =
  reply_status :: nat
  reply_headers :: "(string option \<times> string) list"

definition dispatch_request ::
  "(string \<Rightarrow> string + string) \<Rightarrow> (string \<Rightarrow> string + provider_reply) \<Rightarrow> stored_body \<Rightarrow> 's app_state
     \<Rightarrow> (provider_reply \<times> bool) step \<times> 's app_state" where
  "dispatch_request read_file provider body st =
     (case load read_file body of
        Inl e \<Rightarrow> (Answer (problem_of 500 ''spool_read_failed''
          (''queued request body could not be read safely: '' @ e) None), st)
      | Inr content \<Rightarrow>
     (case provider content of
        Inl e \<Rightarrow> (Answer (problem_of 502 ''upstream_error'' e None), st)
      | Inr r \<Rightarrow>
          (let throttled = (reply_status r = 429)
           in (Go (r, throttled), if throttled then bump plus_one m_provider_throttles_update st else st))))"

definition response_headers :: "string \<Rightarrow> provider_reply \<Rightarrow> (string \<times> string) list" where
  "response_headers request_id r =
     filter (\<lambda>(n, _). n \<noteq> HEADER_REQUEST_ID)
       (List.map_filter (\<lambda>(name, v). case name of
            None \<Rightarrow> None
          | Some n \<Rightarrow> if response_header_safe n then Some (n, v) else None) (reply_headers r))
     @ [(HEADER_REQUEST_ID, request_id)]"

text \<open>A tick of the renewal while the response streams.\<close>

definition renew_tick :: "'s proxy_env \<Rightarrow> guard \<Rightarrow> 's app_state \<Rightarrow> 's app_state" where
  "renew_tick env g st =
     (case g_leases g of
        None \<Rightarrow> st
      | Some ls \<Rightarrow> st\<lparr>app_coordinator := renew_distributed (coord env) (lease_ttl env) ls (app_coordinator st)\<rparr>)"

section \<open>The dispatcher\<close>

text \<open>\<^verbatim>\<open>pending.sender.send(leases)\<close>: fails when the receiver is gone.\<close>

definition requeue :: "'s proxy_env \<Rightarrow> nat \<Rightarrow> uuid \<Rightarrow> pending \<Rightarrow> 's app_state \<Rightarrow> 's app_state" where
  "requeue env now_ns i p st =
     st\<lparr>app_sched := snd (enqueue (sched_cfg env) now_ns (pend_request p) (pend_body_bytes p) (class_weight p)
            (pend_tenant_weight p) (pend_app_weight p) (app_sched st)),
        app_pending := insert_pending i p (app_pending st)\<rparr>"

text \<open>Rejected when its time is over, queued again otherwise.\<close>

definition expire_or_requeue ::
  "'s proxy_env \<Rightarrow> nat \<Rightarrow> instant \<Rightarrow> uuid \<Rightarrow> pending \<Rightarrow> 's app_state \<Rightarrow> 's app_state" where
  "expire_or_requeue env now_ns now i p st =
     (if req_deadline (pend_request p) \<le> now - queued_at p then bump plus_one m_rejected_update st
      else requeue env now_ns i p st)"

definition deliver ::
  "'s proxy_env \<Rightarrow> admission_request \<Rightarrow> pool_runtime \<Rightarrow> f64 \<Rightarrow> pending \<Rightarrow> admission_leases \<Rightarrow> 's app_state \<Rightarrow> 's app_state" where
  "deliver env q rt charged p ls st =
     (let st = set_pool_capacity (req_pool q) (track_distributed (lease_id (capacity_lease ls)) charged) st
      in if sender p \<in> listening st then st\<lparr>mailbox := (mailbox st)(sender p \<mapsto> ls)\<rparr>
         else
           let st = settle env ls st;
               st = set_pool_capacity (req_pool q) (\<lambda>s. snd (capacity_release (rt_model rt)
                      (lease_id (capacity_lease ls)) (normalized_units (estimate q)) None False s)) st
           in st\<lparr>app_inside := leave (req_identity q) (app_inside st)\<rparr>)"

text \<open>One tick of the loop; the outer option is a panic of the scheduler, the flag whether the loop goes on.\<close>

definition dispatcher_tick ::
  "'s proxy_env \<Rightarrow> nat \<Rightarrow> instant \<Rightarrow> 's app_state \<Rightarrow> (bool \<times> 's app_state) option" where
  "dispatcher_tick env now_ns now st =
     (if draining st \<and> app_pending st = [] then Some (False, st)
      else (case pop_next (sched_cfg env) now_ns (app_sched st) of
        None \<Rightarrow> None
      | Some (None, s) \<Rightarrow> Some (True, st\<lparr>app_sched := s\<rparr>)
      | Some (Some q, s) \<Rightarrow>
     (let st = st\<lparr>app_sched := s\<rparr> in
      case map_of (app_pending st) (req_id q) of
        None \<Rightarrow> Some (True, st)
      | Some p \<Rightarrow>
     (let st = st\<lparr>app_pending := AList.delete (req_id q) (app_pending st)\<rparr> in
      case map_of (app_pools st) (req_pool q) of
        None \<Rightarrow> Some (True, st)
      | Some rt \<Rightarrow>
     (let (entered, conc) = try_enter (req_identity q) (app_config st) (app_inside st);
          st = st\<lparr>app_inside := conc\<rparr>
      in if \<not> entered then Some (True, expire_or_requeue env now_ns now (req_id q) p st)
         else
           let charged = charged_units (normalized_units (estimate q)) (rt_capacity rt);
               (r, s) = reserve_distributed (coord env) (tenant_ord env) (lease_ttl env) (app_pending st) q
                  (app_config st) (rt_limit rt) charged (app_coordinator st);
               st = st\<lparr>app_coordinator := s\<rparr>
           in (case r of
                 Inr (Some ls) \<Rightarrow> Some (True, deliver env q rt charged p ls st)
               | _ \<Rightarrow>
                   Some (True, expire_or_requeue env now_ns now (req_id q) p
                     (st\<lparr>app_inside := leave (req_identity q) (app_inside st)\<rparr>))))))))"

section \<open>Reload and management\<close>

text \<open>
  A tick of the reload loop: the file's bytes, if they could be read, and what loading it gave.  \<open>last\<close> is
  the text applied last; a rejected file is tried again at the next tick.
\<close>

definition reload_tick ::
  "(string \<Rightarrow> string + 'net) \<Rightarrow> string option \<Rightarrow> config_error + config
     \<Rightarrow> string option \<times> ('net, 'key) identity_resolver \<times> 's app_state
     \<Rightarrow> string option \<times> ('net, 'key) identity_resolver \<times> 's app_state" where
  "reload_tick parse_net raw loaded = (\<lambda>(last, r, st).
     if draining st then (last, r, st)
     else (case raw of
       None \<Rightarrow> (last, r, st)
     | Some text \<Rightarrow>
         if last = Some text then (last, r, st)
         else (case loaded of
           Inl _ \<Rightarrow> (last, r, st)
         | Inr new \<Rightarrow>
             (case ensure_reload_compatible (app_config st) new of
                Inl _ \<Rightarrow> (last, r, st)
              | Inr _ \<Rightarrow>
                  (case replace_config parse_net new r of
                     (Inl _, r') \<Rightarrow> (last, r', st)
                   | (Inr _, r') \<Rightarrow> (Some text, r', st\<lparr>app_config := new\<rparr>))))))"

definition ready :: "bool \<Rightarrow> coordinator_error + unit \<Rightarrow> bool list \<Rightarrow> problem + nat" where
  "ready is_draining healthy pools =
     (if is_draining then Inl (problem_of 503 ''draining'' ''instance is draining'' None)
      else (case healthy of
        Inl _ \<Rightarrow> Inl (problem_of 503 ''coordinator_unavailable''
          ''the configured capacity coordinator is unavailable'' (Some 1))
      | Inr _ \<Rightarrow>
          (let usable = length (filter id pools)
           in if usable = 0 then Inl (problem_of 503 ''no_usable_pool''
                ''no configured inference capacity pool is currently usable'' (Some 1))
              else Inr usable)))"

text \<open>\<^verbatim>\<open>admin_security\<close>: refuse, or let the request through.\<close>

definition admin_check :: "(string \<Rightarrow> string option) \<Rightarrow> config \<Rightarrow> string \<Rightarrow> headers \<Rightarrow> problem + unit" where
  "admin_check env c path hs =
     (if path = ''/health/live'' \<or> path = ''/health/ready'' then Inr ()
      else (case bearer_token_env (admin c) of
        None \<Rightarrow> Inr ()
      | Some v \<Rightarrow>
          (case env v of
             None \<Rightarrow> Inl (problem_of 503 ''admin_auth_unavailable''
               ''configured admin bearer token environment variable is not set'' None)
           | Some expected \<Rightarrow>
               if Option.bind (hs ''authorization'') strip_bearer = Some expected then Inr ()
               else Inl (problem_of 401 ''admin_auth_required'' ''a valid admin bearer token is required'' None))))"

text \<open>The three replacements in turn; a later one does not touch what an earlier one inserted but for its own character.\<close>

definition replace_char :: "char \<Rightarrow> string \<Rightarrow> string \<Rightarrow> string" where
  "replace_char c by_text s = concat (map (\<lambda>x. if x = c then by_text else [x]) s)"

definition prometheus_escape :: "string \<Rightarrow> string" where
  "prometheus_escape s =
     replace_char (CHR 0x0A) [CHR 0x5C, CHR ''n'']
       (replace_char (CHR 0x22) [CHR 0x5C, CHR 0x22] (replace_char (CHR 0x5C) [CHR 0x5C, CHR 0x5C] s))"

end
