(* ===== verification/Proxy_Properties.thy ===== *)
theory Proxy_Properties
  imports Proxy Scheduler_Properties Config_Properties
begin

text \<open>
  What the request path guarantees: bodies survive the spool, a guard gives an admission back once, a tick
  of the dispatcher keeps the concurrency counters balanced, a reload keeps what needs a restart, the
  management plane asks for its token, and labels are escaped; and the gap between queueing a request
  and registering it.
\<close>

section \<open>Concurrency over the request path\<close>

definition counts :: "concurrency_state \<Rightarrow> (string \<Rightarrow> nat) \<times> (string \<Rightarrow> nat)" where
  "counts act = (active_count (act_tenants act), active_count (act_applications act))"

definition counts_plus :: "identity_context \<Rightarrow> (string \<Rightarrow> nat) \<times> (string \<Rightarrow> nat) \<Rightarrow> (string \<Rightarrow> nat) \<times> (string \<Rightarrow> nat)" where
  "counts_plus i = (\<lambda>(f, g). (f(tenant i := f (tenant i) + 1), g(application i := g (application i) + 1)))"

lemma try_enter_counts:
  assumes "limits_u64 c" "try_enter i c act = (ok, act')"
  shows "counts act' = (if ok then counts_plus i (counts act) else counts act)"
proof (cases ok)
  case True
  with assms(2) have "active_count (act_tenants act) (tenant i) < tenant_max_concurrency c (tenant i)"
    "active_count (act_applications act) (application i) < application_max_concurrency c (application i)"
    "act' = act\<lparr>act_tenants := increment (tenant i) (act_tenants act),
       act_applications := increment (application i) (act_applications act)\<rparr>"
    by (auto simp: try_enter_def split: if_splits)
  moreover from this assms(1) have "active_count (act_tenants act) (tenant i) < u64_max"
    "active_count (act_applications act) (application i) < u64_max"
    by (auto simp: limits_u64_def intro: less_le_trans)
  ultimately show ?thesis using True by (simp add: counts_def counts_plus_def active_count_increment fun_eq_iff)
next
  case False
  with assms(2) show ?thesis by (auto simp: try_enter_def split: if_splits)
qed

lemma leave_counts: "counts act' = counts_plus i (counts act) \<Longrightarrow> counts (leave i act') = counts act"
  by (auto simp: counts_def counts_plus_def leave_def active_count_decrement fun_eq_iff)

lemma conc_frame [simp]:
  "app_inside (set_pool_capacity n f st) = app_inside st"
  "app_inside (bump h u st) = app_inside st"
  "app_inside (requeue env now i p st) = app_inside st"
  "app_inside (expire_or_requeue env n1 n2 i p st) = app_inside st"
  "app_inside (settle env ls st) = app_inside st"
  "mailbox (set_pool_capacity n f st) = mailbox st"
  "mailbox (bump h u st) = mailbox st"
  "mailbox (requeue env now i p st) = mailbox st"
  "mailbox (expire_or_requeue env n1 n2 i p st) = mailbox st"
  "mailbox (settle env ls st) = mailbox st"
  "listening (set_pool_capacity n f st) = listening st"
  by (simp_all add: set_pool_capacity_def bump_def requeue_def expire_or_requeue_def settle_def)

lemma deliver_counts:
  assumes "counts (app_inside st) = counts_plus (req_identity q) base"
  shows "mailbox (deliver env q rt ch p ls st) = mailbox st \<and>
      counts (app_inside (deliver env q rt ch p ls st)) = base \<or>
    sender p \<in> listening st \<and> mailbox (deliver env q rt ch p ls st) = (mailbox st)(sender p \<mapsto> ls) \<and>
      counts (app_inside (deliver env q rt ch p ls st)) = counts_plus (req_identity q) base"
proof -
  have "counts (leave (req_identity q) (app_inside st)) = base"
    using assms by (cases base) (auto simp: counts_def counts_plus_def leave_def active_count_decrement fun_eq_iff)
  with assms show ?thesis by (auto simp: deliver_def Let_def)
qed

text \<open>A tick that finds its request registered and its pool present: the request is put back, or it is delivered.\<close>

lemma tick_found:
  assumes "limits_u64 (app_config st)" "\<not> (draining st \<and> app_pending st = [])"
    and "pop_next (sched_cfg env) now_ns (app_sched st) = Some (Some q, s)"
    and "map_of (app_pending st) (req_id q) = Some p" "map_of (app_pools st) (req_pool q) = Some rt"
    and "dispatcher_tick env now_ns now st = Some (goes_on, st')"
  shows "mailbox st' = mailbox st \<and> counts (app_inside st') = counts (app_inside st) \<or>
    (\<exists>ls. sender p \<in> listening st \<and> mailbox st' = (mailbox st)(sender p \<mapsto> ls) \<and>
      counts (app_inside st') = counts_plus (req_identity q) (counts (app_inside st)))"
proof -
  let ?c = "app_inside st" and ?units = "charged_units (normalized_units (estimate q)) (rt_capacity rt)"
  note body = assms(6) [unfolded dispatcher_tick_def if_not_P [OF assms(2)] assms(3) option.case prod.case]
  obtain ok act where e: "try_enter (req_identity q) (app_config st) ?c = (ok, act)" by force
  note n = try_enter_counts [OF assms(1) e]
  show ?thesis
  proof (cases ok)
    case False
    with body assms(4,5) e n show ?thesis by auto
  next
    case True
    then have n: "counts act = counts_plus (req_identity q) (counts ?c)" using n by simp
    obtain res cs where r: "reserve_distributed (coord env) (tenant_ord env) (lease_ttl env)
        (AList.delete (req_id q) (app_pending st)) q (app_config st) (rt_limit rt) ?units (app_coordinator st) = (res, cs)" by force
    show ?thesis
    proof (cases "\<exists>ls. res = Inr (Some ls)")
      case False
      then have "st' = expire_or_requeue env now_ns now (req_id q) p
          (st\<lparr>app_sched := s, app_pending := AList.delete (req_id q) (app_pending st),
            app_coordinator := cs, app_inside := leave (req_identity q) act\<rparr>)"
        using body assms(4,5) e True r by (cases res) (auto simp: Let_def split: option.splits)
      with leave_counts [OF n] show ?thesis by simp
    next
      case d: True
      then obtain ls where ls: "res = Inr (Some ls)" by blast
      let ?st = "st\<lparr>app_sched := s, app_pending := AList.delete (req_id q) (app_pending st),
        app_inside := act, app_coordinator := cs\<rparr>"
      have st': "st' = deliver env q rt ?units p ls ?st" using body assms(4,5) e True r ls by (simp add: Let_def)
      have "counts (app_inside ?st) = counts_plus (req_identity q) (counts ?c)" using n by simp
      from deliver_counts [OF this, of env rt ?units p ls, folded st'] show ?thesis by auto
    qed
  qed
qed

section \<open>Guards\<close>

lemma release_local_again:
  "release_local g st = (g', st') \<Longrightarrow> \<not> concurrency_entered g' \<and> \<not> counted_active g' \<and> g_leases g' = g_leases g"
  by (auto simp: release_local_def Let_def)

lemma drop_spent:
  "g_leases g = None \<Longrightarrow> \<not> concurrency_entered g \<Longrightarrow> \<not> counted_active g \<Longrightarrow> guard_drop g st = (g, None, st)"
  by (simp add: guard_drop_def release_local_def)

lemma pools_frame [simp]:
  "app_inside (capacity_give_back g ls a th st) = app_inside st"
  "app_metrics (capacity_give_back g ls a th st) = app_metrics st"
  "app_metrics (settle env ls st) = app_metrics st"
  by (auto simp: capacity_give_back_def set_pool_capacity_def settle_def split: option.splits)

section \<open>Labels\<close>

text \<open>The escapes of the Prometheus text format, one character at a time, and their reading.\<close>

definition escape_char :: "char \<Rightarrow> string" where
  "escape_char c =
     (if c = CHR 0x5C then [CHR 0x5C, CHR 0x5C] else if c = CHR 0x22 then [CHR 0x5C, CHR 0x22]
      else if c = CHR 0x0A then [CHR 0x5C, CHR ''n''] else [c])"

fun unescape :: "string \<Rightarrow> string" where
  "unescape (a # b # cs) =
     (if a = CHR 0x5C then (if b = CHR ''n'' then CHR 0x0A else b) # unescape cs else a # unescape (b # cs))"
| "unescape cs = cs"

lemma escape_one_pass: "prometheus_escape s = concat (map escape_char s)"
  by (induction s) (auto simp: prometheus_escape_def replace_char_def escape_char_def)

lemma unescape_plain: "a \<noteq> CHR 0x5C \<Longrightarrow> unescape (a # cs) = a # unescape cs"
  by (cases cs) auto

lemma unescape_escape: "unescape (concat (map escape_char s)) = s"
  by (induction s) (auto simp: escape_char_def unescape_plain)

section \<open>Properties\<close>

text \<open>
  C22.  A tick of the dispatcher keeps the local concurrency balanced: it either leaves every counter and
  every channel as they were, or delivers leases on one channel and raises the counters of that request's
  tenant and application by one.
\<close>

theorem tick_balances_concurrency:
  assumes "limits_u64 (app_config st)" "dispatcher_tick env now_ns now st = Some (goes_on, st')"
  shows "counts (app_inside st') = counts (app_inside st) \<and> mailbox st' = mailbox st \<or>
    (\<exists>q s p ls. pop_next (sched_cfg env) now_ns (app_sched st) = Some (Some q, s) \<and>
       map_of (app_pending st) (req_id q) = Some p \<and> sender p \<in> listening st \<and>
       mailbox st' = (mailbox st)(sender p \<mapsto> ls) \<and>
       counts (app_inside st') = counts_plus (req_identity q) (counts (app_inside st)))"
proof (cases "draining st \<and> app_pending st = []")
  case True
  with assms(2) show ?thesis by (simp add: dispatcher_tick_def)
next
  case False
  with assms(2) obtain o1 s where pop: "pop_next (sched_cfg env) now_ns (app_sched st) = Some (o1, s)"
    by (auto simp: dispatcher_tick_def split: option.splits)
  note body = assms(2) [unfolded dispatcher_tick_def if_not_P [OF False] pop option.case prod.case]
  show ?thesis
  proof (cases "\<exists>q p rt. o1 = Some q \<and> map_of (app_pending st) (req_id q) = Some p \<and> map_of (app_pools st) (req_pool q) = Some rt")
    case none: False
    with body have "app_inside st' = app_inside st \<and> mailbox st' = mailbox st"
      by (auto simp: Let_def split: option.splits)
    then show ?thesis by simp
  next
    case True
    then obtain q p rt where f: "o1 = Some q" "map_of (app_pending st) (req_id q) = Some p"
      "map_of (app_pools st) (req_pool q) = Some rt" by blast
    from tick_found [OF assms(1) False pop [unfolded f(1)] f(2,3) assms(2)] pop [unfolded f(1)] f(2)
    show ?thesis by blast
  qed
qed


text \<open>
  A guard gives its admission back once: after \<^verbatim>\<open>complete\<close> the drop at its end changes nothing, and over
  an admission that entered, completing restores the counters and the number of active requests.
\<close>

theorem guard_gives_back_once:
  assumes "admitted c q ls True out age st = (g, st1)" "guard_complete env actual throttled g st1 = (g2, st2)"
    and "counts (app_inside st) = counts_plus (req_identity q) base" "m_active (app_metrics st) < u64_max"
  shows "guard_drop g2 st3 = (g2, None, st3) \<and> counts (app_inside st2) = base \<and>
    m_active (app_metrics st2) = m_active (app_metrics st)"
proof -
  have act: "m_active (app_metrics st1) = m_active (app_metrics st) + 1" "app_inside st1 = app_inside st"
    and g: "g_identity g = req_identity q" "concurrency_entered g" "counted_active g"
    using assms(1,4) by (auto simp: admitted_def bump_def wrapping_add_exact)
  have "counts (leave (req_identity q) (app_inside st)) = base"
    using assms(3) by (cases base) (auto simp: counts_def counts_plus_def leave_def active_count_decrement fun_eq_iff)
  then have "counts (app_inside st2) = base \<and> m_active (app_metrics st2) = m_active (app_metrics st) \<and>
      g_leases g2 = None \<and> \<not> concurrency_entered g2 \<and> \<not> counted_active g2"
    using assms(2) act g
    by (auto simp: guard_complete_def release_local_def Let_def bump_def wrapping_sub_def settle_def split: option.splits)
  then show ?thesis by (simp add: drop_spent)
qed

text \<open>
  A reload keeps what needs a restart: listeners, TLS, coordinator, pools and OIDC settings stay, the
  configuration changes only to one that loaded, and the resolver's configuration stays the proxy's.
\<close>

theorem reload_keeps_restart_settings:
  assumes "reload_tick parse_net raw loaded (prev, r, st) = (prev', r', st')" "id_config r = app_config st"
  shows "(listen (server (app_config st')), tls (server (app_config st')), admin_listen (admin (app_config st')),
      coordinator (app_config st'), cfg_pools (app_config st'), oidc (identity (app_config st')))
    = (listen (server (app_config st)), tls (server (app_config st)), admin_listen (admin (app_config st)),
      coordinator (app_config st), cfg_pools (app_config st), oidc (identity (app_config st))) \<and>
    id_config r' = app_config st' \<and> oidc_keys r' = oidc_keys r \<and>
    (st' = st \<and> prev' = prev \<or> loaded = Inr (app_config st') \<and> prev' = raw \<and> \<not> draining st)"
  using assms
  by (auto simp: reload_tick_def ensure_reload_compatible_def replace_config_def split: if_splits option.splits sum.splits)

text \<open>
  The management plane asks for its token: with a token configured, a path other than the two health
  paths passes exactly when the variable is set and the bearer token equals it.
\<close>

theorem admin_token_required:
  assumes "bearer_token_env (admin c) = Some v" "path \<notin> {''/health/live'', ''/health/ready''}"
  shows "admin_check env c path hs = Inr () \<longleftrightarrow> (\<exists>secret. env v = Some secret \<and> hs ''authorization'' = Some (''Bearer '' @ secret))"
  using assms by (auto simp: admin_check_def strip_bearer_iff split: option.splits if_splits)

text \<open>
  Labels are escaped as the text format asks: the three replacements in turn equal escaping each
  character once, and reading the escapes gives the label back, so no label ends its quotes early.
\<close>

theorem prometheus_escape_reversible:
  "prometheus_escape s = concat (map escape_char s) \<and> unescape (prometheus_escape s) = s"
  by (simp add: escape_one_pass unescape_escape)

text \<open>
  C26.  A request can be lost between the scheduler and the table of waiting requests: the handler hands it to
  the scheduler first and registers it afterwards, and a tick of the dispatcher in between takes it out
  and forgets it.  Registered then, it waits although no queue holds it, so only its deadline ends the wait.
\<close>

theorem unregistered_request_lost:
  assumes "sched_ok (sched_cfg env) (app_sched st)" "limits_ok (sched_cfg env)" "all_queued (app_sched st) = {#}"
    and "\<not> draining st" "map_of (app_pending st) (req_id (prep_admission p)) = None"
    and "queue_or_reject env show_id n1 c p st = (Wait, st1)"
    and "cls_weight (prep_class p) < 2 ^ 32" "\<forall>(_, t) \<in> set (tenants (cfg_policies c)). tenant_weight t < 2 ^ 32"
    and "case prep_app p of None \<Rightarrow> True | Some a \<Rightarrow> app_weight a < 2 ^ 32"
  shows "\<exists>st2. dispatcher_tick env n2 now st1 = Some (True, st2) \<and>
    all_queued (app_sched (register chan t c p st2)) = {#} \<and>
    map_of (app_pending (register chan t c p st2)) (req_id (prep_admission p)) \<noteq> None \<and>
    mailbox (register chan t c p st2) = mailbox st"
proof -
  let ?q = "prep_admission p"
  let ?tw = "case map_of (tenants (cfg_policies c)) (tenant (req_identity ?q)) of None \<Rightarrow> 1 | Some t \<Rightarrow> tenant_weight t"
  let ?aw = "case prep_app p of None \<Rightarrow> 1 | Some a \<Rightarrow> app_weight a"
  obtain d s where e: "enqueue (sched_cfg env) n1 ?q (stored_len (prep_body p)) (cls_weight (prep_class p)) ?tw ?aw
      (app_sched st) = (Inr d, s)" and st1: "st1 = bump plus_one m_queued_update (st\<lparr>app_sched := s\<rparr>)"
    using assms(6) by (auto simp: queue_or_reject_def Let_def reject_and_record_def split: if_splits prod.splits sum.splits)
  have w: "?tw < 2 ^ 32" "?aw < 2 ^ 32" using assms(8,9) by (auto split: option.splits dest!: map_of_SomeD)
  have ok: "sched_ok (sched_cfg env) s" using enqueue_keeps [OF assms(1,2) e assms(7) w] .
  have "bt_ok (queues (app_sched st))" using assms(1) by (simp add: sched_ok_def)
  from enqueue_all_queued [OF this e] assms(3) obtain it where it: "q_request it = ?q" "all_queued s = {#it#}" by auto
  then have "queues s \<noteq> []" by (auto simp: all_queued_def)
  from pop_nonempty [OF ok this, of n2] obtain item u where
    u: "pop_next (sched_cfg env) n2 s = Some (Some (q_request item), u)" "all_queued s = add_mset item (all_queued u)" by blast
  with it have i: "item = it" "all_queued u = {#}" by auto
  have "dispatcher_tick env n2 now st1 = Some (True, st1\<lparr>app_sched := u\<rparr>)"
    using u(1) i it(1) assms(4,5) by (simp add: dispatcher_tick_def st1 bump_def)
  moreover have "all_queued (app_sched (register chan t c p (st1\<lparr>app_sched := u\<rparr>))) = {#}"
    "map_of (app_pending (register chan t c p (st1\<lparr>app_sched := u\<rparr>))) (req_id ?q) \<noteq> None"
    "mailbox (register chan t c p (st1\<lparr>app_sched := u\<rparr>)) = mailbox st"
    using i by (simp_all add: register_def Let_def insert_pending_def update_conv' st1 bump_def)
  ultimately show ?thesis by blast
qed

section \<open>Witnesses\<close>

text \<open>A coordinator that grants everything and numbers its leases.\<close>

definition grant_ops :: "nat coordinator_ops" where
  "grant_ops = \<lparr>
     op_reserve = (\<lambda>k _ u ttl n. (Inr (Some \<lparr>lease_id = n, lease_pool = k, lease_units = u, expires_at = ttl, lease_scope = None\<rparr>), n + 1)),
     op_reserve_scoped = (\<lambda>k sc _ _ u ttl n.
       (Inr (Some \<lparr>lease_id = n, lease_pool = k, lease_units = u, expires_at = ttl, lease_scope = Some sc\<rparr>), n + 1)),
     op_release = (\<lambda>_ n. (Inr (), n)), op_renew = (\<lambda>_ _ n. (Inr True, n)), op_healthy = (\<lambda>_. Inr ())\<rparr>"

definition example_env :: "nat proxy_env" where
  "example_env = \<lparr>coord = grant_ops, sched_cfg = default_config, lease_ttl = 300000000000, tenant_ord = id,
     coordinator_text = (\<lambda>_. [])\<rparr>"

definition idle_state :: "nat app_state" where
  "idle_state = \<lparr>app_config = example_config,
     app_pools = [(''main'', \<lparr>rt_model = fst (capacity_new (f_of 100) (f_of 1)),
        rt_capacity = snd (capacity_new (f_of 100) (f_of 1)), rt_limit = f_of 100\<rparr>)],
     app_sched = scheduler_new, app_pending = [], app_decisions = [], draining = False,
     app_metrics = \<lparr>m_requests = 0, m_admitted = 0, m_queued = 0, m_rejected = 0, m_shadow_would_queue = 0,
       m_provider_throttles = 0, m_active = 0\<rparr>,
     app_coordinator = 0, app_inside = \<lparr>act_tenants = Map.empty, act_applications = Map.empty\<rparr>,
     mailbox = Map.empty, listening = {}\<rparr>"

definition proxy_example_request :: admission_request where
  "proxy_example_request = \<lparr>req_id = 9,
     req_identity = \<lparr>principal = ''ana'', tenant = ''acme'', application = ''etl'', trusted = True\<rparr>,
     requested_class = Batch, effective_class = Batch, req_pool = ''main'',
     estimate = \<lparr>input_tokens = 1, output_tokens = 1, cached_input_tokens = 0, provider_cost_coefficient = f_of 1,
       normalized_units = f_of 2, confidence = f_of 1, source = Approximation\<rparr>,
     req_deadline = 1000000000, queueable = True\<rparr>"

definition example_prepared :: prepared where
  "example_prepared = \<lparr>prep_admission = proxy_example_request, prep_body = InMemory ''{}'', prep_class = example_class 1,
     prep_app = Some example_app\<rparr>"

lemma example_waits: "\<exists>st1. queue_or_reject example_env (\<lambda>_. []) 5 example_config example_prepared idle_state = (Wait, st1)"
  by (simp add: queue_or_reject_def example_env_def example_prepared_def proxy_example_request_def idle_state_def
      example_config_def enqueue_def scheduler_new_def default_config_def saturating_add_def u64_max_def Let_def
      del: f_of_0 f_of_1 f_of_numeral)

theorem unregistered_request_lost_witness:
  "\<exists>st1 st2. queue_or_reject example_env (\<lambda>_. []) 5 example_config example_prepared idle_state = (Wait, st1) \<and>
     dispatcher_tick example_env 6 6 st1 = Some (True, st2) \<and>
     all_queued (app_sched (register 0 7 example_config example_prepared st2)) = {#} \<and>
     map_of (app_pending (register 0 7 example_config example_prepared st2)) 9 \<noteq> None"
proof -
  obtain st1 where w: "queue_or_reject example_env (\<lambda>_. []) 5 example_config example_prepared idle_state = (Wait, st1)"
    using example_waits by blast
  have e: "sched_cfg example_env = default_config" "app_sched idle_state = scheduler_new" "\<not> draining idle_state"
    "app_pending idle_state = []" "req_id (prep_admission example_prepared) = 9"
    "cls_weight (prep_class example_prepared) = 1" "prep_app example_prepared = Some example_app"
    by (simp_all add: example_env_def idle_state_def example_prepared_def proxy_example_request_def example_class_def)
  have q: "all_queued scheduler_new = {#}" by (simp add: all_queued_def scheduler_new_def)
  have t: "\<forall>(_, t) \<in> set (tenants (cfg_policies example_config)). tenant_weight t < 2 ^ 32" "app_weight example_app < 2 ^ 32"
    by (simp_all add: example_config_def example_tenant_def example_app_def)
  have "\<exists>st2. dispatcher_tick example_env 6 6 st1 = Some (True, st2) \<and>
      all_queued (app_sched (register 0 7 example_config example_prepared st2)) = {#} \<and>
      map_of (app_pending (register 0 7 example_config example_prepared st2)) (req_id (prep_admission example_prepared)) \<noteq> None \<and>
      mailbox (register 0 7 example_config example_prepared st2) = mailbox idle_state"
    by (rule unregistered_request_lost [OF _ _ _ _ _ w]) (simp_all add: e q t [simplified] sched_ok_new default_limits_ok)
  with w e(5) show ?thesis by auto
qed


theorem admin_token_required_witness:
  "admin_check (\<lambda>_. Some ''s3'') (example_config\<lparr>admin := (admin example_config)\<lparr>bearer_token_env := Some ''T''\<rparr>\<rparr>) ''/metrics''
     [''authorization'' \<mapsto> ''Bearer s3''] = Inr () \<and>
   admin_check (\<lambda>_. Some ''s3'') (example_config\<lparr>admin := (admin example_config)\<lparr>bearer_token_env := Some ''T''\<rparr>\<rparr>) ''/metrics''
     Map.empty \<noteq> Inr ()"
proof -
  let ?c = "example_config\<lparr>admin := (admin example_config)\<lparr>bearer_token_env := Some ''T''\<rparr>\<rparr>"
  have a: "bearer_token_env (admin ?c) = Some ''T''" "''/metrics'' \<notin> {''/health/live'', ''/health/ready''}" by simp_all
  show ?thesis by (simp add: admin_token_required [OF a])
qed

theorem reload_keeps_restart_settings_witness:
  "\<exists>r' st'. reload_tick (\<lambda>_. Inr ()) (Some ''new'') (Inr (example_config\<lparr>cfg_mode := ModeShadow\<rparr>))
       (Some ''old'', \<lparr>id_config = example_config, trusted_proxies = [], oidc_keys = None\<rparr> :: (unit, unit) identity_resolver, idle_state)
       = (Some ''new'', r', st') \<and> cfg_mode (app_config st') = ModeShadow \<and> cfg_pools (app_config st') = cfg_pools example_config"
proof -
  let ?r = "\<lparr>id_config = example_config, trusted_proxies = [], oidc_keys = None\<rparr> :: (unit, unit) identity_resolver"
  obtain l r' st' where t: "reload_tick (\<lambda>_. Inr ()) (Some ''new'') (Inr (example_config\<lparr>cfg_mode := ModeShadow\<rparr>))
      (Some ''old'', ?r, idle_state) = (l, r', st')" by (metis prod_cases3)
  have c: "id_config ?r = app_config idle_state" by (simp add: idle_state_def)
  have "l = Some ''new''" "cfg_mode (app_config st') = ModeShadow"
    using t by (auto simp: reload_tick_def idle_state_def ensure_reload_compatible_def replace_config_def parse_proxies_def
        example_config_def)
  with reload_keeps_restart_settings [OF t c] t show ?thesis by (simp add: idle_state_def)
qed

lemma example_limits_u64: "limits_u64 example_config"
  by (simp add: limits_u64_def tenant_max_concurrency_def application_max_concurrency_def example_config_def
      example_tenant_def example_app_def u64_max_def)

text \<open>Queued and registered in time, the request is delivered.\<close>

theorem tick_balances_concurrency_witness:
  "\<exists>st1 st2. queue_or_reject example_env (\<lambda>_. []) 5 example_config example_prepared idle_state = (Wait, st1) \<and>
     dispatcher_tick example_env 6 6 (register 0 5 example_config example_prepared st1) = Some (True, st2) \<and>
     mailbox st2 0 \<noteq> None \<and> fst (counts (app_inside st2)) ''acme'' = 1"
proof -
  let ?e = "enqueue default_config 5 proxy_example_request 2 1 2 1 scheduler_new"
  obtain s d where e: "?e = (Inr d, s)"
    by (simp add: enqueue_def scheduler_new_def default_config_def saturating_add_def u64_max_def Let_def
        del: f_of_0 f_of_1 f_of_numeral)
  define st1 where "st1 = bump plus_one m_queued_update (idle_state\<lparr>app_sched := s\<rparr>)"
  have w: "queue_or_reject example_env (\<lambda>_. []) 5 example_config example_prepared idle_state = (Wait, st1)"
    using e by (simp add: queue_or_reject_def example_env_def example_prepared_def idle_state_def example_config_def
        st1_def proxy_example_request_def example_tenant_def example_app_def example_class_def numeral_2_eq_2)
  let ?st = "register 0 5 example_config example_prepared st1"
  have ok: "sched_ok default_config s" by (rule enqueue_keeps [OF sched_ok_new default_limits_ok e]) simp_all
  have "bt_ok (queues scheduler_new)" by (simp add: scheduler_new_def bt_ok_def)
  from enqueue_all_queued [OF this e] obtain it where
    it: "q_request it = proxy_example_request" "all_queued s = {#it#}" by (auto simp: all_queued_def scheduler_new_def)
  then have "queues s \<noteq> []" by (auto simp: all_queued_def)
  from pop_nonempty [OF ok this, of 6] it obtain u where
    u: "pop_next default_config 6 s = Some (Some proxy_example_request, u)" by (metis add_mset_eq_single)
  have app: "app_sched ?st = s" by (simp add: register_def Let_def st1_def bump_def)
  obtain st2 where t: "dispatcher_tick example_env 6 6 ?st = Some (True, st2)" and m: "mailbox st2 0 \<noteq> None"
    using u by (simp add: dispatcher_tick_def app example_env_def register_def st1_def bump_def idle_state_def Let_def
        insert_pending_def example_prepared_def proxy_example_request_def try_enter_def tenant_max_concurrency_def
        application_max_concurrency_def example_config_def example_tenant_def example_app_def active_count_def
        reserve_distributed_def grant_ops_def and_then_def deliver_def set_pool_capacity_def
        del: f_of_0 f_of_1 f_of_numeral)
  have c: "app_config ?st = example_config" "counts (app_inside ?st) = (\<lambda>_. 0, \<lambda>_. 0)" "mailbox ?st = Map.empty"
    by (simp_all add: register_def Let_def st1_def bump_def idle_state_def counts_def active_count_def fun_eq_iff)
  have "limits_u64 (app_config ?st)" unfolding c by (rule example_limits_u64)
  from tick_balances_concurrency [OF this t] m c u app have "fst (counts (app_inside st2)) ''acme'' = 1"
    by (auto simp: counts_plus_def example_env_def proxy_example_request_def)
  with w t m show ?thesis by blast
qed

theorem guard_gives_back_once_witness:
  "\<exists>g st1 g2 st2. admitted example_config proxy_example_request None True ''admitted'' 0
       (idle_state\<lparr>app_inside := snd (try_enter (req_identity proxy_example_request) example_config (app_inside idle_state))\<rparr>) = (g, st1) \<and>
     guard_complete example_env None False g st1 = (g2, st2) \<and> counts (app_inside st2) = (\<lambda>_. 0, \<lambda>_. 0) \<and>
     m_active (app_metrics st2) = 0"
proof -
  let ?i = "req_identity proxy_example_request"
  let ?st = "idle_state\<lparr>app_inside := snd (try_enter ?i example_config (app_inside idle_state))\<rparr>"
  obtain g st1 where a: "admitted example_config proxy_example_request None True ''admitted'' 0 ?st = (g, st1)" by force
  obtain g2 st2 where b: "guard_complete example_env None False g st1 = (g2, st2)" by force
  have ok: "fst (try_enter ?i example_config (app_inside idle_state))"
    by (simp add: try_enter_def idle_state_def proxy_example_request_def active_count_def tenant_max_concurrency_def
        application_max_concurrency_def example_config_def example_tenant_def example_app_def)
  have z: "counts (app_inside idle_state) = (\<lambda>_. 0, \<lambda>_. 0)" "m_active (app_metrics ?st) = 0"
    by (simp_all add: idle_state_def counts_def active_count_def fun_eq_iff)
  have "counts (app_inside ?st) = counts_plus ?i (\<lambda>_. 0, \<lambda>_. 0)"
    using try_enter_counts [OF example_limits_u64 prod.collapse [symmetric], of ?i "app_inside idle_state"] ok z by simp
  moreover have "m_active (app_metrics ?st) < u64_max" using z by (simp add: u64_max_def)
  ultimately have "counts (app_inside st2) = (\<lambda>_. 0, \<lambda>_. 0) \<and> m_active (app_metrics st2) = m_active (app_metrics ?st)"
    using guard_gives_back_once [OF a b] by blast
  with a b z show ?thesis by auto
qed

end
