(* ===== verification/Providers.thy ===== *)
theory Providers
  imports Config
begin

text \<open>
  The HTTP provider of \<^verbatim>\<open>crates/providers/src/lib.rs\<close>: construction checks, the target of a request, the
  estimate of its work and the usage a response reports.
  URL joining and JSON parsing are arguments; a JSON number is kept when it is an unsigned 64-bit one.
\<close>

section \<open>Construction and targets\<close>

record http_provider =
  prov_name :: string
  prov_endpoint :: url
  prov_allowed_hosts :: "string list"
  coefficient :: f64

fun provider_name :: "provider_kind \<Rightarrow> string option" where
  "provider_name AzureOpenai = Some ''azure-openai''"
| "provider_name AwsBedrock = Some ''aws-bedrock''"
| "provider_name GcpVertex = Some ''gcp-vertex''"
| "provider_name OpenaiCompatible = Some ''openai-compatible''"
| "provider_name FakeProvider = Some ''fake''"
| "provider_name ExternalGrpc = None"

definition host_allowed :: "string list \<Rightarrow> url \<Rightarrow> bool" where
  "host_allowed hosts u \<longleftrightarrow> hosts = [] \<or> (\<exists>h. host_str u = Some h \<and> h \<in> set hosts)"

text \<open>\<^verbatim>\<open>from_config\<close>; \<open>authenticate\<close> is the error of resolving the credentials, \<open>client\<close> that of building the client.\<close>

definition from_config ::
  "(string \<Rightarrow> string + url) \<Rightarrow> core_error option \<Rightarrow> string option \<Rightarrow> pool_config \<Rightarrow> core_error + http_provider" where
  "from_config parse_url authenticate client c =
     (case provider_name (pool_provider c) of
        None \<Rightarrow> Inl (Provider ''external-grpc pools must be constructed by the provider protocol runtime'')
      | Some name \<Rightarrow>
     (case parse_url (endpoint c) of
        Inl e \<Rightarrow> Inl (Provider (''invalid upstream endpoint: '' @ e))
      | Inr u \<Rightarrow>
          if scheme u \<noteq> ''https'' \<and> pool_provider c \<noteq> FakeProvider \<and> host_str u \<noteq> Some ''127.0.0.1'' \<and>
             host_str u \<noteq> Some ''localhost''
          then Inl (Provider ''upstream must use HTTPS except for loopback development endpoints'')
          else if \<not> host_allowed (allowed_hosts c) u
          then Inl (Provider (''upstream host '' @ (case host_str u of None \<Rightarrow> ''<none>'' | Some h \<Rightarrow> h) @
                 '' is not in allowed_hosts''))
          else (case authenticate of
                  Some e \<Rightarrow> Inl e
                | None \<Rightarrow>
                    (case client of
                       Some e \<Rightarrow> Inl (Provider e)
                     | None \<Rightarrow> Inr \<lparr>prov_name = name, prov_endpoint = u, prov_allowed_hosts = allowed_hosts c,
                         coefficient = f_of 1\<rparr>))))"

definition target :: "(url \<Rightarrow> string \<Rightarrow> string + url) \<Rightarrow> http_provider \<Rightarrow> string \<Rightarrow> core_error + url" where
  "target join p path =
     (case join (prov_endpoint p) (dropWhile (\<lambda>c. c = CHR ''/'') path) of
        Inl e \<Rightarrow> Inl (Provider (''cannot join upstream URL: '' @ e))
      | Inr u \<Rightarrow>
          if host_str u \<noteq> host_str (prov_endpoint p)
          then Inl (Provider ''dynamic upstream host changes are forbidden'')
          else if \<not> host_allowed (prov_allowed_hosts p) u
          then Inl (Provider ''resolved upstream is outside allowed_hosts'')
          else Inr u)"

section \<open>Estimates\<close>

datatype json =
    JNull
  | JScalar
  | JUint nat
  | JString string
  | JArray "json list"
  | JObject "(string \<times> json) list"

fun json_get :: "json \<Rightarrow> string \<Rightarrow> json option" where
  "json_get (JObject o1) k = map_of o1 k"
| "json_get _ k = None"

fun as_u64 :: "json \<Rightarrow> nat option" where
  "as_u64 (JUint n) = Some n"
| "as_u64 _ = None"

definition or_else :: "'a option \<Rightarrow> 'a option \<Rightarrow> 'a option" where
  "or_else a b = (case a of None \<Rightarrow> b | Some _ \<Rightarrow> a)"

fun text_bytes :: "json \<Rightarrow> nat" where
  "text_bytes (JString s) = length s"
| "text_bytes (JArray a) = sum_list (map text_bytes a)"
| "text_bytes (JObject o1) = sum_list (map (\<lambda>(_, v). text_bytes v) o1)"
| "text_bytes _ = 0"

definition provider_confidence :: f64 where
  "provider_confidence = f32_of (55 / 100)"

text \<open>\<^verbatim>\<open>estimate\<close> of a parsed body; the sum of tokens wraps at 64 bits.\<close>

definition estimate_work :: "f64 \<Rightarrow> json \<Rightarrow> work_estimate" where
  "estimate_work coeff parsed =
     (let counted = (case or_else (json_get parsed ''input'') (json_get parsed ''messages'') of
                       Some v \<Rightarrow> text_bytes v
                     | None \<Rightarrow> text_bytes parsed);
          input = max (counted div 4) 1;
          out = (case Option.bind (or_else (json_get parsed ''max_output_tokens'') (json_get parsed ''max_tokens'')) as_u64 of
                   None \<Rightarrow> 512
                 | Some n \<Rightarrow> n)
      in \<lparr>input_tokens = input, output_tokens = out, cached_input_tokens = 0, provider_cost_coefficient = coeff,
          normalized_units = f_of_nat (wrapping_add input out) * coeff, confidence = provider_confidence,
          source = Approximation\<rparr>)"

definition provider_estimate :: "(string \<Rightarrow> json option) \<Rightarrow> http_provider \<Rightarrow> string \<Rightarrow> core_error + work_estimate" where
  "provider_estimate parse_json p body =
     Inr (estimate_work (coefficient p) (case parse_json body of None \<Rightarrow> JNull | Some v \<Rightarrow> v))"

section \<open>Usage\<close>

definition usage_of :: "f64 \<Rightarrow> json \<Rightarrow> work_estimate option" where
  "usage_of coeff value =
     (case or_else (json_get value ''usage'') (Option.bind (json_get value ''response'') (\<lambda>r. json_get r ''usage'')) of
        None \<Rightarrow> None
      | Some usage \<Rightarrow>
     (case Option.bind (or_else (json_get usage ''input_tokens'') (json_get usage ''prompt_tokens'')) as_u64 of
        None \<Rightarrow> None
      | Some input \<Rightarrow>
          let out = (case Option.bind (or_else (json_get usage ''output_tokens'') (json_get usage ''completion_tokens'')) as_u64 of
                       None \<Rightarrow> 0 | Some n \<Rightarrow> n);
              cached = (case Option.bind (Option.bind (or_else (json_get usage ''input_tokens_details'')
                                (json_get usage ''prompt_tokens_details'')) (\<lambda>d. json_get d ''cached_tokens'')) as_u64 of
                          None \<Rightarrow> 0 | Some n \<Rightarrow> n)
          in Some \<lparr>input_tokens = input, output_tokens = out, cached_input_tokens = cached,
               provider_cost_coefficient = coeff,
               normalized_units = f_of_nat (saturating_add (saturating_sub input cached) out) * coeff,
               confidence = f32_of 1, source = ProviderMetadata\<rparr>))"

fun find_map :: "('a \<Rightarrow> 'b option) \<Rightarrow> 'a list \<Rightarrow> 'b option" where
  "find_map f [] = None"
| "find_map f (x # xs) = (case f x of Some y \<Rightarrow> Some y | None \<Rightarrow> find_map f xs)"

definition usage_line :: "(string \<Rightarrow> json option) \<Rightarrow> f64 \<Rightarrow> string \<Rightarrow> work_estimate option" where
  "usage_line parse_json coeff line =
     (if take 5 line = ''data:'' then
        let text = trim (drop 5 line)
        in if text = ''[DONE]'' then None else Option.bind (parse_json text) (usage_of coeff)
      else None)"

definition parse_usage ::
  "(string \<Rightarrow> json option) \<Rightarrow> (string \<Rightarrow> bool) \<Rightarrow> f64 \<Rightarrow> string \<Rightarrow> work_estimate option" where
  "parse_usage parse_json utf8 coeff body =
     (case Option.bind (parse_json body) (usage_of coeff) of
        Some u \<Rightarrow> Some u
      | None \<Rightarrow> if utf8 body then find_map (usage_line parse_json coeff) (rev (split_lf [] body)) else None)"

end
