(* ===== verification/Provider_Protocol.thy ===== *)
theory Provider_Protocol
  imports Core
begin

text \<open>
  The client of external provider adapters, \<^verbatim>\<open>crates/provider-protocol/src/lib.rs\<close>: connecting over a Unix
  socket, a loopback address or TLS, the three calls of the protocol and the conversion of headers and
  work estimates.  The gRPC transport and the HTTP types' parsers are arguments; their error texts are
  what they return.
\<close>

section \<open>Connecting\<close>

datatype adapter_endpoint =
    UnixEndpoint string
  | TlsEndpoint string string string "string option" "string option"
  | LoopbackEndpoint string

record tls_settings =
  tls_domain :: string
  tls_ca :: string
  tls_identity :: "(string \<times> string) option"

text \<open>
  The transport: the host of a parsed URI, an endpoint for a URI, TLS settings applied to one, opening an
  endpoint or a socket within five seconds, and reading a file.
\<close>

record ('ep, 'ch) transport =
  uri_host :: "string \<Rightarrow> string + string option"
  from_shared :: "string \<Rightarrow> string + 'ep"
  with_tls :: "tls_settings \<Rightarrow> 'ep \<Rightarrow> string + 'ep"
  open_endpoint :: "duration \<Rightarrow> 'ep \<Rightarrow> string + 'ch"
  open_socket :: "string \<Rightarrow> string + 'ch"
  read_pem :: "string \<Rightarrow> string + string"

definition protocol :: "string + 'a \<Rightarrow> core_error + 'a" where
  "protocol r = (case r of Inl e \<Rightarrow> Inl (Provider e) | Inr a \<Rightarrow> Inr a)"

definition res_then :: "'e + 'a \<Rightarrow> ('a \<Rightarrow> 'e + 'b) \<Rightarrow> 'e + 'b" where
  "res_then r f = (case r of Inl e \<Rightarrow> Inl e | Inr a \<Rightarrow> f a)"

definition connect_timeout :: duration where
  "connect_timeout = 5 * 10 ^ 9"

definition is_loopback :: "string \<Rightarrow> bool" where
  "is_loopback host \<longleftrightarrow> host \<in> {''localhost'', ''127.0.0.1'', ''::1''}"

definition connect_loopback :: "('ep, 'ch) transport \<Rightarrow> string \<Rightarrow> core_error + 'ch" where
  "connect_loopback t uri =
     res_then (protocol (uri_host t uri)) (\<lambda>parsed.
       case parsed of
         None \<Rightarrow> Inl (Provider ''adapter URI has no host'')
       | Some host \<Rightarrow>
           if \<not> is_loopback host
           then Inl (Provider ''plaintext external adapters are restricted to loopback'')
           else res_then (protocol (from_shared t uri)) (\<lambda>ep. protocol (open_endpoint t connect_timeout ep)))"

definition client_identity ::
  "('ep, 'ch) transport \<Rightarrow> string option \<Rightarrow> string option \<Rightarrow> core_error + (string \<times> string) option" where
  "client_identity t cert key =
     (case (cert, key) of
        (Some c, Some k) \<Rightarrow>
          res_then (protocol (read_pem t c)) (\<lambda>c'. res_then (protocol (read_pem t k)) (\<lambda>k'. Inr (Some (c', k'))))
      | _ \<Rightarrow> Inr None)"

definition connect_tls ::
  "('ep, 'ch) transport \<Rightarrow> string \<Rightarrow> string \<Rightarrow> string \<Rightarrow> string option \<Rightarrow> string option \<Rightarrow> core_error + 'ch" where
  "connect_tls t uri domain ca cert key =
     (if (cert \<noteq> None) \<noteq> (key \<noteq> None)
      then Inl (Provider ''external adapter mTLS requires both client certificate and key'')
      else res_then (protocol (read_pem t ca)) (\<lambda>ca'.
           res_then (client_identity t cert key) (\<lambda>ident.
           res_then (protocol (from_shared t uri)) (\<lambda>ep.
           res_then (protocol (with_tls t \<lparr>tls_domain = domain, tls_ca = ca', tls_identity = ident\<rparr> ep)) (\<lambda>ep'.
           protocol (open_endpoint t connect_timeout ep'))))))"

definition connect :: "('ep, 'ch) transport \<Rightarrow> adapter_endpoint \<Rightarrow> core_error + 'ch" where
  "connect t endpoint =
     (case endpoint of
        UnixEndpoint path \<Rightarrow> protocol (open_socket t path)
      | LoopbackEndpoint uri \<Rightarrow> connect_loopback t uri
      | TlsEndpoint uri domain ca cert key \<Rightarrow> connect_tls t uri domain ca cert key)"

section \<open>Conversions\<close>

record wire_estimate =
  w_input_tokens :: nat
  w_output_tokens :: nat
  w_cached_input_tokens :: nat
  w_normalized_units :: f64
  w_confidence :: f64
  w_source :: string
  w_cost_coefficient :: f64

definition source_from_wire :: "string \<Rightarrow> estimate_source" where
  "source_from_wire s =
     (if s = ''exact_tokenizer'' then ExactTokenizer
      else if s = ''compatible_tokenizer'' then CompatibleTokenizer
      else if s = ''trusted_client'' then TrustedClient
      else if s = ''provider_metadata'' then ProviderMetadata
      else Approximation)"

definition estimate_from_wire :: "wire_estimate \<Rightarrow> core_error + work_estimate" where
  "estimate_from_wire v =
     (if \<not> is_finite (w_normalized_units v) \<or> w_normalized_units v < f_of 0 \<or>
         \<not> (f32_of 0 \<le> w_confidence v \<and> w_confidence v \<le> f32_of 1)
      then Inl (Provider ''external adapter returned an invalid work estimate'')
      else Inr \<lparr>input_tokens = w_input_tokens v, output_tokens = w_output_tokens v,
             cached_input_tokens = w_cached_input_tokens v, provider_cost_coefficient = w_cost_coefficient v,
             normalized_units = w_normalized_units v, confidence = w_confidence v,
             source = source_from_wire (w_source v)\<rparr>)"

text \<open>
  A header map is the list of its entries, names in lower case; \<open>to_str\<close> is the text of a value if it has
  one.  Collecting into a hash map keeps the last value of a name.
\<close>

definition withheld :: "string \<Rightarrow> bool" where
  "withheld name \<longleftrightarrow> name \<in> {''authorization'', ''api-key'', ''cookie'', ''set-cookie''}"

definition safe_headers :: "('v \<Rightarrow> string option) \<Rightarrow> (string \<times> 'v) list \<Rightarrow> string \<rightharpoonup> string" where
  "safe_headers to_str headers =
     foldl (\<lambda>m (name, value). m(name \<mapsto> value)) Map.empty
       (List.map_filter (\<lambda>(name, value). map_option (Pair name) (to_str value))
         (filter (\<lambda>(name, value). \<not> withheld name) headers))"

definition header_map ::
  "(string \<Rightarrow> string + string) \<Rightarrow> (string \<Rightarrow> string + 'v) \<Rightarrow> (string \<times> string) list
     \<Rightarrow> core_error + (string \<times> 'v) list" where
  "header_map header_name header_value values =
     collect_results
       (map (\<lambda>(name, value).
          res_then (protocol (header_name name)) (\<lambda>n.
          res_then (protocol (header_value value)) (\<lambda>v. Inr (n, v)))) values)"

section \<open>Calls\<close>

record 'v proxy_request =
  rq_method :: string
  rq_uri :: string
  rq_headers :: "(string \<times> 'v) list"
  rq_body :: string

record estimate_request =
  eq_method :: string
  eq_path :: string
  eq_headers :: "string \<rightharpoonup> string"
  eq_body :: string

record dispatch_request_msg =
  dq_request_id :: string
  dq_method :: string
  dq_path :: string
  dq_headers :: "string \<rightharpoonup> string"
  dq_body :: string

record dispatch_response =
  dr_status :: nat
  dr_headers :: "(string \<times> string) list"
  dr_data :: string
  dr_end :: bool
  dr_usage :: "wire_estimate option"

record upstream_health =
  healthy :: bool
  health_detail :: string

definition adapter_estimate ::
  "('v \<Rightarrow> string option) \<Rightarrow> (estimate_request \<Rightarrow> string + wire_estimate) \<Rightarrow> 'v proxy_request
     \<Rightarrow> core_error + work_estimate" where
  "adapter_estimate to_str call rq =
     res_then (protocol (call \<lparr>eq_method = rq_method rq, eq_path = rq_uri rq,
         eq_headers = safe_headers to_str (rq_headers rq), eq_body = rq_body rq\<rparr>)) estimate_from_wire"

definition adapter_health :: "(unit \<Rightarrow> string + bool \<times> string) \<Rightarrow> core_error + upstream_health" where
  "adapter_health call =
     res_then (protocol (call ())) (\<lambda>(h, d). Inr \<lparr>healthy = h, health_detail = d\<rparr>)"

text \<open>
  The task that copies the stream after its first message.  A stream is the list of what \<^verbatim>\<open>message()\<close> yields
  until it ends; \<open>open_for n\<close> tells whether the receiver still takes the \<open>n\<close>-th chunk of the body.
\<close>

definition take_usage :: "wire_estimate option \<Rightarrow> work_estimate option \<Rightarrow> work_estimate option" where
  "take_usage u old =
     (case u of None \<Rightarrow> old | Some v \<Rightarrow> (case estimate_from_wire v of Inl _ \<Rightarrow> old | Inr e \<Rightarrow> Some e))"

fun forward ::
  "(nat \<Rightarrow> bool) \<Rightarrow> (string + dispatch_response) list \<Rightarrow> string list \<times> work_estimate option
     \<Rightarrow> string list \<times> work_estimate option" where
  "forward open_for [] st = st"
| "forward open_for (Inl e # ms) st = st"
| "forward open_for (Inr c # ms) (body, usage) =
     (let usage' = take_usage (dr_usage c) usage
      in if dr_data c \<noteq> [] \<and> \<not> open_for (length body) then (body, usage')
         else let body' = (if dr_data c \<noteq> [] then body @ [dr_data c] else body)
              in if dr_end c then (body', usage') else forward open_for ms (body', usage'))"

definition request_id_of :: "('v \<Rightarrow> string option) \<Rightarrow> (string \<times> 'v) list \<Rightarrow> string" where
  "request_id_of to_str headers =
     (case Option.bind (map_of headers HEADER_REQUEST_ID) to_str of None \<Rightarrow> [] | Some s \<Rightarrow> s)"

record 'v provider_response =
  pr_status :: nat
  pr_headers :: "(string \<times> 'v) list"
  pr_body :: "string list"
  pr_usage :: "work_estimate option"

text \<open>The result holds the whole body and the last usage the two channels will have carried.\<close>

definition stream_response ::
  "(nat \<Rightarrow> string + nat) \<Rightarrow> (string \<Rightarrow> string + string) \<Rightarrow> (string \<Rightarrow> string + 'v) \<Rightarrow> (nat \<Rightarrow> bool) \<Rightarrow>
   dispatch_response \<Rightarrow> (string + dispatch_response) list \<Rightarrow> core_error + 'v provider_response" where
  "stream_response status_code header_name header_value open_for first rest =
     res_then (protocol (status_code (dr_status first mod 2 ^ 16))) (\<lambda>status.
     res_then (header_map header_name header_value (dr_headers first)) (\<lambda>headers.
     res_then (case dr_usage first of None \<Rightarrow> Inr None
               | Some u \<Rightarrow> res_then (estimate_from_wire u) (\<lambda>e. Inr (Some e))) (\<lambda>usage.
     let st = (if dr_data first \<noteq> [] \<and> \<not> open_for 0 then ([], usage)
               else forward open_for rest (if dr_data first \<noteq> [] then [dr_data first] else [], usage))
     in Inr \<lparr>pr_status = status, pr_headers = headers, pr_body = fst st, pr_usage = snd st\<rparr>)))"

definition adapter_dispatch ::
  "('v \<Rightarrow> string option) \<Rightarrow> (dispatch_request_msg \<Rightarrow> string + (string + dispatch_response) list) \<Rightarrow>
   (nat \<Rightarrow> string + nat) \<Rightarrow> (string \<Rightarrow> string + string) \<Rightarrow> (string \<Rightarrow> string + 'v) \<Rightarrow> (nat \<Rightarrow> bool) \<Rightarrow>
   'v proxy_request \<Rightarrow> core_error + 'v provider_response" where
  "adapter_dispatch to_str call status_code header_name header_value open_for rq =
     res_then (protocol (call \<lparr>dq_request_id = request_id_of to_str (rq_headers rq), dq_method = rq_method rq,
         dq_path = rq_uri rq, dq_headers = safe_headers to_str (rq_headers rq), dq_body = rq_body rq\<rparr>)) (\<lambda>stream.
     case stream of
       [] \<Rightarrow> Inl (Provider ''external adapter returned an empty stream'')
     | Inl e # _ \<Rightarrow> Inl (Provider e)
     | Inr first # rest \<Rightarrow> stream_response status_code header_name header_value open_for first rest)"

lemma protocol_Inr [simp]: "protocol r = Inr a \<longleftrightarrow> r = Inr a"
  by (auto simp: protocol_def split: sum.splits)

lemma res_then_Inr: "res_then r f = Inr b \<longleftrightarrow> (\<exists>a. r = Inr a \<and> f a = Inr b)"
  by (auto simp: res_then_def split: sum.splits)

end
