(* ===== verification/Provider_Dispatch.thy ===== *)
theory Provider_Dispatch
  imports Providers Provider_Protocol
begin

text \<open>
  How the HTTP provider of \<^verbatim>\<open>crates/providers/src/lib.rs\<close> sends a request: the credentials it resolves at start,
  the headers it forwards, the credential it adds, the exchange, and the task that hands the response on and
  keeps its text for the usage.  What the cloud SDKs, the request signer and the HTTP client answer is an
  argument.
\<close>

section \<open>Credentials\<close>

datatype resolved_auth = NoAuth | HeaderAuth string string | BearerAuth string | AzureAuth | AwsAuth string | GoogleAuth

text \<open>
  The surroundings of \<^verbatim>\<open>ambient_auth\<close>: whether the binary has the cloud credentials, the errors of constructing
  each, whether the AWS chain gave a provider, and its default region.
\<close>

record ambient =
  cloud_auth :: bool
  azure_federated :: bool
  azure_workload_error :: "string option"
  azure_managed_error :: "string option"
  aws_has_provider :: bool
  aws_default_region :: "string option"
  google_adc_error :: "string option"

definition ambient_auth :: "ambient \<Rightarrow> provider_kind \<Rightarrow> string option \<Rightarrow> core_error + resolved_auth" where
  "ambient_auth amb kd reg =
     (if \<not> cloud_auth amb
      then Inl (Provider ''this binary was built without the cloud-auth feature; install an official release or rebuild with --features cloud-auth'')
      else (case kd of
        AzureOpenai \<Rightarrow>
          (if azure_federated amb
           then (case azure_workload_error amb of
                   Some e \<Rightarrow> Inl (Provider (''Azure workload identity is unavailable: '' @ e))
                 | None \<Rightarrow> Inr AzureAuth)
           else (case azure_managed_error amb of
                   Some e \<Rightarrow> Inl (Provider (''Azure managed identity is unavailable: '' @ e))
                 | None \<Rightarrow> Inr AzureAuth))
      | AwsBedrock \<Rightarrow>
          (if \<not> aws_has_provider amb
           then Inl (Provider ''AWS default credential chain produced no provider'')
           else (case or_else reg (aws_default_region amb) of
                   None \<Rightarrow> Inl (Provider ''AWS Bedrock requires pool.region or an AWS default region'')
                 | Some r \<Rightarrow> Inr (AwsAuth r)))
      | GcpVertex \<Rightarrow>
          (case google_adc_error amb of
             Some e \<Rightarrow> Inl (Provider (''Google ADC is unavailable: '' @ e))
           | None \<Rightarrow> Inr GoogleAuth)
      | _ \<Rightarrow> Inl (Provider ''ambient auth is only available for Azure OpenAI, AWS Bedrock, and GCP Vertex'')))"

text \<open>\<open>name_ok\<close> and \<open>value_ok\<close> accept header text.\<close>

definition resolve_auth ::
  "(string \<Rightarrow> string option) \<Rightarrow> (string \<Rightarrow> bool) \<Rightarrow> (string \<Rightarrow> bool) \<Rightarrow> ambient \<Rightarrow> auth_config \<Rightarrow> provider_kind
     \<Rightarrow> string option \<Rightarrow> core_error + resolved_auth" where
  "resolve_auth env name_ok value_ok amb a kd reg =
     (case a of
        AuthNone \<Rightarrow> Inr NoAuth
      | AuthAmbient \<Rightarrow> ambient_auth amb kd reg
      | AuthApiKey var hdr \<Rightarrow>
          (case env var of
             None \<Rightarrow> Inl (Provider (''authentication environment variable '' @ var @ '' is not set''))
           | Some v \<Rightarrow>
               if \<not> name_ok hdr then Inl (Provider ''invalid auth header name'')
               else if \<not> value_ok v then Inl (Provider (var @ '' contains invalid header bytes''))
               else Inr (HeaderAuth hdr v))
      | AuthBearer var \<Rightarrow>
          (case env var of
             None \<Rightarrow> Inl (Provider (''authentication environment variable '' @ var @ '' is not set''))
           | Some v \<Rightarrow>
               if \<not> value_ok (''Bearer '' @ v) then Inl (Provider (var @ '' contains invalid header bytes''))
               else Inr (BearerAuth (''Bearer '' @ v))))"

section \<open>The outbound request\<close>

definition is_forwardable :: "string \<Rightarrow> bool" where
  "is_forwardable name \<longleftrightarrow> name \<notin> set [''connection'', ''keep-alive'', ''proxy-authenticate'', ''proxy-authorization'',
     ''te'', ''trailer'', ''transfer-encoding'', ''upgrade'', ''host'', ''authorization'', ''api-key'',
     HEADER_CLASS, HEADER_DEADLINE_MS, HEADER_TENANT, HEADER_APPLICATION, HEADER_QUEUEABLE]"

type_synonym header_list = "(string \<times> string) list"

text \<open>The URL with the query pairs the signer appended to it.\<close>

record outbound =
  ob_method :: string
  ob_url :: url
  ob_query :: "(string \<times> string) list"
  ob_headers :: header_list
  ob_body :: string

text \<open>
  What the credentials answer when a request is sent.  Signing takes the credentials, the parameters for a
  region, the request with the headers that are text, and gives headers and query pairs.
\<close>

record ('k, 'r) cloud =
  azure_token :: "string list \<Rightarrow> string + string"
  google_headers :: "string + header_list option"
  aws_credentials :: "string + 'k"
  aws_params :: "'k \<Rightarrow> string \<Rightarrow> string + 'k"
  aws_signable :: "string \<Rightarrow> url \<Rightarrow> header_list \<Rightarrow> string \<Rightarrow> string + 'r"
  aws_sign :: "'r \<Rightarrow> 'k \<Rightarrow> string + header_list \<times> (string \<times> string) list"
  valid_name :: "string \<Rightarrow> bool"
  valid_value :: "string \<Rightarrow> bool"
  is_text :: "string \<Rightarrow> bool"

definition set_header :: "string \<Rightarrow> string \<Rightarrow> header_list \<Rightarrow> header_list" where
  "set_header n v hs = filter (\<lambda>(m, _). m \<noteq> n) hs @ [(n, v)]"

definition provider_context :: "string \<Rightarrow> string + 'a \<Rightarrow> core_error + 'a" where
  "provider_context prefix_text r = (case r of Inl e \<Rightarrow> Inl (Provider (prefix_text @ e)) | Inr a \<Rightarrow> Inr a)"

fun insert_signed :: "('k, 'r) cloud \<Rightarrow> header_list \<Rightarrow> outbound \<Rightarrow> core_error + outbound" where
  "insert_signed cl [] ob = Inr ob"
| "insert_signed cl ((n, v) # hs) ob =
     (if \<not> valid_name cl n then Inl (Provider ''AWS signer returned an invalid header name'')
      else if \<not> valid_value cl v then Inl (Provider ''AWS signer returned invalid header bytes'')
      else insert_signed cl hs (ob\<lparr>ob_headers := set_header n v (ob_headers ob)\<rparr>))"

definition sign_aws :: "('k, 'r) cloud \<Rightarrow> string \<Rightarrow> outbound \<Rightarrow> core_error + outbound" where
  "sign_aws cl reg ob =
     res_then (provider_context ''AWS default credential chain failed: '' (aws_credentials cl)) (\<lambda>ident.
     res_then (provider_context ''AWS signing configuration failed: '' (aws_params cl ident reg)) (\<lambda>params.
     res_then (provider_context ''AWS request cannot be signed: ''
       (aws_signable cl (ob_method ob) (ob_url ob) (filter (\<lambda>(_, v). is_text cl v) (ob_headers ob)) (ob_body ob))) (\<lambda>sr.
     res_then (provider_context ''AWS SigV4 signing failed: '' (aws_sign cl sr params)) (\<lambda>(hs, pairs).
     res_then (insert_signed cl hs ob) (\<lambda>ob'. Inr (ob'\<lparr>ob_query := ob_query ob' @ pairs\<rparr>))))))"

definition apply_auth :: "('k, 'r) cloud \<Rightarrow> resolved_auth \<Rightarrow> outbound \<Rightarrow> core_error + outbound" where
  "apply_auth cl a ob =
     (case a of
        NoAuth \<Rightarrow> Inr ob
      | HeaderAuth n v \<Rightarrow> Inr (ob\<lparr>ob_headers := set_header n v (ob_headers ob)\<rparr>)
      | BearerAuth v \<Rightarrow> Inr (ob\<lparr>ob_headers := set_header ''authorization'' v (ob_headers ob)\<rparr>)
      | AzureAuth \<Rightarrow>
          res_then (provider_context ''Azure managed identity token acquisition failed: ''
            (azure_token cl [''https://cognitiveservices.azure.com/.default''])) (\<lambda>t.
          if \<not> valid_value cl (''Bearer '' @ t) then Inl (Provider ''Azure token contains invalid header bytes'')
          else Inr (ob\<lparr>ob_headers := set_header ''authorization'' (''Bearer '' @ t) (ob_headers ob)\<rparr>))
      | GoogleAuth \<Rightarrow>
          res_then (provider_context ''Google ADC token acquisition failed: '' (google_headers cl)) (\<lambda>r.
          case r of
            None \<Rightarrow> Inl (Provider ''Google ADC unexpectedly returned no headers without an entity tag'')
          | Some hs \<Rightarrow> Inr (ob\<lparr>ob_headers := foldl (\<lambda>acc (n, v). set_header n v acc) (ob_headers ob) hs\<rparr>))
      | AwsAuth reg \<Rightarrow> sign_aws cl reg ob)"

text \<open>\<open>path_and_query\<close> is that part of a URI, if it has one; \<open>build_error\<close> the error of building the request.\<close>

definition outbound_request ::
  "(url \<Rightarrow> string \<Rightarrow> string + url) \<Rightarrow> (string \<Rightarrow> string option) \<Rightarrow> string option \<Rightarrow> ('k, 'r) cloud \<Rightarrow> http_provider
     \<Rightarrow> resolved_auth \<Rightarrow> string proxy_request \<Rightarrow> core_error + outbound" where
  "outbound_request join path_and_query build_error cl p a rq =
     res_then (target join p (case path_and_query (rq_uri rq) of None \<Rightarrow> ''/'' | Some s \<Rightarrow> s)) (\<lambda>u.
     case build_error of
       Some e \<Rightarrow> Inl (Provider e)
     | None \<Rightarrow> apply_auth cl a
         \<lparr>ob_method = rq_method rq, ob_url = u, ob_query = [],
          ob_headers = filter (\<lambda>(n, _). is_forwardable n) (rq_headers rq), ob_body = rq_body rq\<rparr>)"

section \<open>The exchange\<close>

text \<open>The part of a streamed body kept for the usage: chunks that still fit in one MiB.\<close>

definition keep_metadata :: "string \<Rightarrow> string \<Rightarrow> string" where
  "keep_metadata metadata chunk =
     (if saturating_add (length metadata) (length chunk) \<le> 1024 * 1024 then metadata @ chunk else metadata)"

text \<open>
  The task that hands the body on.  The stream is the list of what it yields; \<open>open_for n\<close> tells whether the receiver
  takes the \<open>n\<close>-th item.
\<close>

fun http_forward ::
  "(nat \<Rightarrow> bool) \<Rightarrow> (string + string) list \<Rightarrow> (core_error + string) list \<times> string
     \<Rightarrow> (core_error + string) list \<times> string" where
  "http_forward open_for [] st = st"
| "http_forward open_for (Inr c # cs) (sent, metadata) =
     (let metadata' = keep_metadata metadata c
      in if open_for (length sent) then http_forward open_for cs (sent @ [Inr c], metadata') else (sent, metadata'))"
| "http_forward open_for (Inl e # cs) (sent, metadata) =
     (if open_for (length sent) then (sent @ [Inl (Provider e)], metadata) else (sent, metadata))"

record http_reply =
  hr_status :: nat
  hr_headers :: header_list
  hr_stream :: "(string + string) list"

record http_response =
  hp_status :: nat
  hp_headers :: header_list
  hp_body :: "(core_error + string) list"
  hp_usage :: "work_estimate option"

text \<open>\<open>execute\<close> is the exchange; a status the client received is in the range of the response's type.\<close>

definition http_dispatch ::
  "(outbound \<Rightarrow> string + http_reply) \<Rightarrow> (string \<Rightarrow> json option) \<Rightarrow> (string \<Rightarrow> bool) \<Rightarrow> (nat \<Rightarrow> bool) \<Rightarrow>
   (url \<Rightarrow> string \<Rightarrow> string + url) \<Rightarrow> (string \<Rightarrow> string option) \<Rightarrow> string option \<Rightarrow> ('k, 'r) cloud \<Rightarrow> http_provider
     \<Rightarrow> resolved_auth \<Rightarrow> string proxy_request \<Rightarrow> core_error + http_response" where
  "http_dispatch execute parse_json utf8 open_for join path_and_query build_error cl p a rq =
     res_then (outbound_request join path_and_query build_error cl p a rq) (\<lambda>ob.
     res_then (protocol (execute ob)) (\<lambda>r.
     let (sent, metadata) = http_forward open_for (hr_stream r) ([], [])
     in Inr \<lparr>hp_status = hr_status r, hp_headers = hr_headers r, hp_body = sent,
          hp_usage = parse_usage parse_json utf8 (coefficient p) metadata\<rparr>))"

text \<open>\<open>head\<close> asks for the root of the endpoint's host; the status comes with its text.\<close>

definition http_health :: "(url \<Rightarrow> string + nat \<times> string) \<Rightarrow> http_provider \<Rightarrow> core_error + upstream_health" where
  "http_health head p =
     (case head (prov_endpoint p) of
        Inr (st, shown) \<Rightarrow> Inr \<lparr>healthy = (st < 500), health_detail = ''HTTP '' @ shown\<rparr>
      | Inl e \<Rightarrow> Inr \<lparr>healthy = False, health_detail = e\<rparr>)"

end
