(* ===== verification/Providers_Properties.thy ===== *)
theory Providers_Properties
  imports Provider_Dispatch "HOL-Library.Sublist"
begin

text \<open>
  What the HTTP provider guarantees: requests stay on the configured host, credentials of clients are not
  forwarded, and every estimate is well formed; and two limits of these guarantees.
\<close>

section \<open>Lemmas\<close>

lemma f_mul_one_valid: "n \<le> u64_max \<Longrightarrow> is_finite (f_of_nat n * f_of 1) \<and> \<not> f_of_nat n * f_of 1 < f_of 0"
proof -
  assume "n \<le> u64_max"
  then have n: "f_of_nat n \<le> f_of_nat (2 ^ 64)" by (intro f_of_nat_mono) (simp add: u64_max_def)
  have one: "f_of 0 < f_of 1" "is_finite (f_of 1)" by (simp_all add: f_ops)
  have big: "is_finite (f_of_nat (2 ^ 64))" by code_simp
  then obtain t m where "f_of_nat (2 ^ 64) = Fin t m" by (cases "f_of_nat (2 ^ 64)") auto
  with n have fn: "is_finite (f_of_nat n)" using f_between_finite [OF f_of_nat_nonneg] by metis
  have nn: "f_of 0 \<le> f_of_nat n * f_of 1" by (rule f_mul_nonneg [OF f_of_nat_nonneg f_less_imp_le [OF one(1)] fn one(2)])
  have "f_of_nat n * f_of 1 \<le> f_of_nat (2 ^ 64) * f_of 1" by (rule f_mul_mono [OF n f_of_nat_nonneg one])
  moreover have "is_finite (f_of_nat (2 ^ 64) * f_of 1)" by code_simp
  then obtain t m where "f_of_nat (2 ^ 64) * f_of 1 = Fin t m" by (cases "f_of_nat (2 ^ 64) * f_of 1") auto
  ultimately have "is_finite (f_of_nat n * f_of 1)" using f_between_finite [OF nn] by metis
  with nn show ?thesis using f_not_less f_le_nonan by blast
qed

lemma confidence_055: "f32_of 0 \<le> provider_confidence \<and> provider_confidence \<le> f32_of 1"
  by code_simp

lemma find_map_rev:
  assumes "f x = Some y" "\<forall>z \<in> set post. f z = None"
  shows "find_map f (rev (pre @ x # post)) = Some y"
proof -
  have "find_map f (zs @ x # ws) = Some y" if "\<forall>z \<in> set zs. f z = None" for zs ws
    using that assms(1) by (induction zs) auto
  with assms(2) show ?thesis by simp
qed

lemma set_header_mem: "(n, v) \<in> set (set_header m w hs) \<Longrightarrow> (n, v) = (m, w) \<or> (n, v) \<in> set hs"
  by (auto simp: set_header_def)

lemma set_headers_mem:
  "(n, v) \<in> set (foldl (\<lambda>acc (n, v). set_header n v acc) hs ks) \<Longrightarrow> (n, v) \<in> set ks \<or> (n, v) \<in> set hs"
proof (induction ks arbitrary: hs)
  case (Cons k ks)
  obtain m w where k: "k = (m, w)" by (cases k)
  from Cons.IH [of "set_header m w hs"] Cons.prems show ?case using set_header_mem [of n v m w hs] by (auto simp: k)
qed simp

lemma insert_signed_url: "insert_signed cl hs ob = Inr ob' \<Longrightarrow> ob_url ob' = ob_url ob"
  by (induction cl hs ob rule: insert_signed.induct) (auto split: if_splits)

lemma insert_signed_mem:
  "insert_signed cl hs ob = Inr ob' \<Longrightarrow> (n, v) \<in> set (ob_headers ob') \<Longrightarrow>
     (n, v) \<in> set hs \<or> (n, v) \<in> set (ob_headers ob)"
proof (induction cl hs ob rule: insert_signed.induct)
  case (2 cl m w hs ob)
  then show ?case using set_header_mem [of n v m w "ob_headers ob"] by (auto split: if_splits)
qed simp

lemma provider_context_Inr [simp]: "provider_context t r = Inr a \<longleftrightarrow> r = Inr a"
  by (auto simp: provider_context_def split: sum.splits)

text \<open>The headers of each credential, and that it leaves the host alone.\<close>

definition credential_header :: "('k, 'r) cloud \<Rightarrow> resolved_auth \<Rightarrow> string \<times> string \<Rightarrow> bool" where
  "credential_header cl a h \<longleftrightarrow>
     (case a of
        NoAuth \<Rightarrow> False
      | HeaderAuth n v \<Rightarrow> h = (n, v)
      | BearerAuth v \<Rightarrow> h = (''authorization'', v)
      | AzureAuth \<Rightarrow> \<exists>t. azure_token cl [''https://cognitiveservices.azure.com/.default''] = Inr t \<and> h = (''authorization'', ''Bearer '' @ t)
      | GoogleAuth \<Rightarrow> \<exists>hs. google_headers cl = Inr (Some hs) \<and> h \<in> set hs
      | AwsAuth reg \<Rightarrow> \<exists>sr params hs pairs. aws_sign cl sr params = Inr (hs, pairs) \<and> h \<in> set hs)"

lemma apply_auth_effect:
  assumes "apply_auth cl a ob = Inr ob'"
  shows "ob_url ob' = ob_url ob \<and> (\<forall>h \<in> set (ob_headers ob'). credential_header cl a h \<or> h \<in> set (ob_headers ob))"
proof (cases a)
  case (AwsAuth reg)
  with assms obtain sr params hs pairs ob1 where "aws_sign cl sr params = Inr (hs, pairs)" "insert_signed cl hs ob = Inr ob1"
    "ob' = ob1\<lparr>ob_query := ob_query ob1 @ pairs\<rparr>"
    by (auto simp: apply_auth_def sign_aws_def res_then_Inr)
  with AwsAuth insert_signed_url insert_signed_mem show ?thesis by (fastforce simp: credential_header_def)
next
  case GoogleAuth
  with assms obtain hs where "google_headers cl = Inr (Some hs)"
    "ob' = ob\<lparr>ob_headers := foldl (\<lambda>acc (n, v). set_header n v acc) (ob_headers ob) hs\<rparr>"
    by (auto simp: apply_auth_def res_then_Inr split: option.splits)
  with GoogleAuth show ?thesis using set_headers_mem [of _ _ "ob_headers ob" hs] by (auto simp: credential_header_def)
qed (use assms in \<open>auto simp: apply_auth_def credential_header_def res_then_Inr set_header_def split: if_splits\<close>)

section \<open>The body of a response\<close>

text \<open>What a client that keeps reading is handed: the chunks, and the error that ended them.\<close>

fun handed_on :: "(string + string) list \<Rightarrow> (core_error + string) list" where
  "handed_on [] = []"
| "handed_on (Inr c # cs) = Inr c # handed_on cs"
| "handed_on (Inl e # cs) = [Inl (Provider e)]"

fun chunk_text :: "(string + string) list \<Rightarrow> string" where
  "chunk_text [] = []"
| "chunk_text (Inr c # cs) = c @ chunk_text cs"
| "chunk_text (Inl e # cs) = []"

lemma http_forward_prefix: "prefix (fst (http_forward open_for cs (sent, m))) (sent @ handed_on cs)"
proof (induction cs arbitrary: sent m)
  case (Cons c cs)
  show ?case
  proof (cases c)
    case (Inr x)
    then show ?thesis using Cons [of "sent @ [Inr x]" "keep_metadata m x"] by (auto simp: Let_def intro: prefixI)
  qed (auto intro: prefixI)
qed simp

lemma http_forward_all: "\<forall>n. open_for n \<Longrightarrow> fst (http_forward open_for cs (sent, m)) = sent @ handed_on cs"
proof (induction cs arbitrary: sent m)
  case (Cons c cs)
  then show ?case by (cases c) (simp_all add: Let_def)
qed simp

lemma http_forward_metadata:
  "\<forall>n. open_for n \<Longrightarrow> length m + length (chunk_text cs) \<le> 1024 * 1024 \<Longrightarrow>
     snd (http_forward open_for cs (sent, m)) = m @ chunk_text cs"
proof (induction cs arbitrary: sent m)
  case (Cons c cs)
  then show ?case
    by (cases c) (simp_all add: Let_def keep_metadata_def saturating_add_def u64_max_def)
qed simp

text \<open>Whatever the stream, no more than one MiB is kept of it.\<close>

lemma http_forward_bounded:
  "length m \<le> 1024 * 1024 \<Longrightarrow> length (snd (http_forward open_for cs (sent, m))) \<le> 1024 * 1024"
proof (induction cs arbitrary: sent m)
  case (Cons c cs)
  have "length (keep_metadata m x) \<le> 1024 * 1024" for x
    using Cons.prems by (auto simp: keep_metadata_def saturating_add_def u64_max_def min_def split: if_splits)
  with Cons show ?case by (cases c) (simp_all add: Let_def)
qed simp

section \<open>Properties\<close>

text \<open>
  A request stays on its host: whatever its path and however URLs are joined, the target of a provider
  built from a pool has the pool's host, which is one of the allowed ones when any are listed; and the
  pool's own endpoint is encrypted unless it is a loopback or the fake provider.
\<close>

theorem target_stays_on_host:
  assumes "from_config parse_url authenticate client c = Inr p" "target join p path = Inr u"
  shows "\<exists>e. parse_url (endpoint c) = Inr e \<and> host_str u = host_str e \<and>
    (allowed_hosts c = [] \<or> (\<exists>h. host_str u = Some h \<and> h \<in> set (allowed_hosts c))) \<and>
    (scheme e = ''https'' \<or> pool_provider c = FakeProvider \<or> host_str e \<in> {Some ''127.0.0.1'', Some ''localhost''})"
  using assms by (auto simp: from_config_def target_def host_allowed_def split: option.splits sum.splits if_splits)


text \<open>
  C29.  A response is handed on as it comes: the body is a prefix of the upstream's chunks followed by the error that
  ended them, if one did, and all of it for a client that keeps reading; and the usage is read from the
  whole text when that is at most one MiB.
\<close>

theorem http_dispatch_delivers:
  assumes "http_dispatch execute parse_json utf8 open_for join path_and_query build_error cl p a rq = Inr r"
  shows "\<exists>ob rep. outbound_request join path_and_query build_error cl p a rq = Inr ob \<and> execute ob = Inr rep \<and>
    hp_status r = hr_status rep \<and> prefix (hp_body r) (handed_on (hr_stream rep)) \<and>
    ((\<forall>n. open_for n) \<longrightarrow> hp_body r = handed_on (hr_stream rep) \<and>
      (length (chunk_text (hr_stream rep)) \<le> 1024 * 1024 \<longrightarrow>
        hp_usage r = parse_usage parse_json utf8 (coefficient p) (chunk_text (hr_stream rep))))"
proof -
  obtain ob rep where o: "outbound_request join path_and_query build_error cl p a rq = Inr ob" "execute ob = Inr rep"
    and r: "r = \<lparr>hp_status = hr_status rep, hp_headers = hr_headers rep,
      hp_body = fst (http_forward open_for (hr_stream rep) ([], [])),
      hp_usage = parse_usage parse_json utf8 (coefficient p) (snd (http_forward open_for (hr_stream rep) ([], [])))\<rparr>"
    using assms by (auto simp: http_dispatch_def res_then_Inr case_prod_beta)
  show ?thesis
    using o r http_forward_prefix [of open_for "hr_stream rep" "[]" "[]"] http_forward_all [of open_for "hr_stream rep" "[]" "[]"]
      http_forward_metadata [of open_for "[]" "hr_stream rep" "[]"] by auto
qed

text \<open>
  C30.  Every estimate is well formed: whatever the body, the estimate has finite non-negative units, a
  confidence in [0, 1] and no more cached than input tokens, so the validation every adapter result
  passes accepts it.
\<close>

theorem estimate_well_formed:
  assumes "from_config parse_url authenticate client c = Inr p"
  shows "\<exists>e. provider_estimate parse_json p body = Inr e \<and> validate_estimate e = Inr () \<and> 1 \<le> input_tokens e"
proof -
  have c: "coefficient p = f_of 1" using assms by (auto simp: from_config_def split: option.splits sum.splits if_splits)
  let ?e = "estimate_work (f_of 1) (case parse_json body of None \<Rightarrow> JNull | Some v \<Rightarrow> v)"
  obtain a b where n: "normalized_units ?e = f_of_nat (wrapping_add a b) * f_of 1"
    and k: "confidence ?e = provider_confidence" "cached_input_tokens ?e = 0" "1 \<le> input_tokens ?e"
    by (simp add: estimate_work_def Let_def del: f_of_1)
  have "wrapping_add a b \<le> u64_max" by (simp add: wrapping_add_def u64_max_less)
  from f_mul_one_valid [OF this] have "validate_estimate ?e = Inr ()"
    unfolding validate_estimate_def n k using confidence_055 by (simp del: f_of_0 f_of_1)
  with c k show ?thesis by (simp add: provider_estimate_def del: f_of_1)
qed

section \<open>Limits of the guarantees\<close>

text \<open>A body that asks for \<open>2 ^ 64 - 1\<close> output tokens is estimated at no work: the sum of tokens wraps.\<close>

theorem estimate_wraps_to_zero:
  "normalized_units (estimate_work (f_of 1) (JObject [(''max_tokens'', JUint (2 ^ 64 - 1))])) = f_of_nat 0 * f_of 1"
  by (simp add: estimate_work_def json_get.simps or_else_def wrapping_add_def)

text \<open>
  The target's scheme is not checked: given that joining an absolute URL yields that URL, a path that
  holds one with the endpoint's host and scheme \<^verbatim>\<open>http\<close> leaves an encrypted endpoint.
\<close>

theorem target_scheme_unchecked:
  assumes "join (prov_endpoint p) ''http://api.example/v1'' = Inr \<lparr>scheme = ''http'', host_str = Some ''api.example''\<rparr>"
    and "prov_endpoint p = \<lparr>scheme = ''https'', host_str = Some ''api.example''\<rparr>" "prov_allowed_hosts p = []"
  shows "\<exists>u. target join p ''/http://api.example/v1'' = Inr u \<and> scheme u = ''http''"
  using assms by (simp add: target_def host_allowed_def)

section \<open>Witnesses\<close>

definition plain_pool :: pool_config where
  "plain_pool = \<lparr>pool_provider = OpenaiCompatible, endpoint = ''https://api.example'', pool_model = None,
     deployment = None, region = None, external_adapter = None, capacity_units = f_of 100, auth = AuthNone,
     allowed_hosts = [''api.example''], initial_safety_factor = f_of 1\<rparr>"

definition api_url :: url where
  "api_url = \<lparr>scheme = ''https'', host_str = Some ''api.example''\<rparr>"

definition plain_provider :: http_provider where
  "plain_provider = \<lparr>prov_name = ''openai-compatible'', prov_endpoint = api_url, prov_allowed_hosts = [''api.example''],
     coefficient = f_of 1\<rparr>"

lemma plain_built: "from_config (\<lambda>_. Inr api_url) None None plain_pool = Inr plain_provider"
  by (simp add: from_config_def plain_pool_def plain_provider_def api_url_def host_allowed_def del: f_of_1)

theorem target_stays_on_host_witness:
  "target (\<lambda>b _. Inr b) plain_provider ''/v1/chat'' = Inr api_url \<and> host_str api_url = Some ''api.example''"
proof -
  have t: "target (\<lambda>b _. Inr b) plain_provider ''/v1/chat'' = Inr api_url"
    by (simp add: target_def plain_provider_def api_url_def host_allowed_def)
  from target_stays_on_host [OF plain_built t] t show ?thesis by (auto simp: api_url_def)
qed

definition no_cloud :: "(unit, unit) cloud" where
  "no_cloud = \<lparr>azure_token = (\<lambda>_. Inl ''none''), google_headers = Inl ''none'', aws_credentials = Inl ''none'',
     aws_params = (\<lambda>_ _. Inl ''none''), aws_signable = (\<lambda>_ _ _ _. Inl ''none''), aws_sign = (\<lambda>_ _. Inl ''none''),
     valid_name = (\<lambda>_. True), valid_value = (\<lambda>_. True), is_text = (\<lambda>_. True)\<rparr>"

definition client_request :: "string proxy_request" where
  "client_request = \<lparr>rq_method = ''POST'', rq_uri = ''/v1/chat'', rq_headers = [(''authorization'', ''Bearer client'')], rq_body = ''{}''\<rparr>"

lemma client_outbound:
  "outbound_request (\<lambda>b _. Inr b) Some None no_cloud plain_provider (BearerAuth ''Bearer own'') client_request =
     Inr \<lparr>ob_method = ''POST'', ob_url = api_url, ob_query = [], ob_headers = [(''authorization'', ''Bearer own'')], ob_body = ''{}''\<rparr>"
  by (simp add: outbound_request_def target_def plain_provider_def api_url_def host_allowed_def client_request_def res_then_def
      apply_auth_def set_header_def is_forwardable_def)


theorem http_dispatch_delivers_witness:
  "\<exists>r. http_dispatch (\<lambda>_. Inr \<lparr>hr_status = 200, hr_headers = [], hr_stream = [Inr ''a'', Inr ''b'', Inl ''reset'']\<rparr>) (\<lambda>_. None)
     (\<lambda>_. True) (\<lambda>_. True) (\<lambda>b _. Inr b) Some None no_cloud plain_provider (BearerAuth ''Bearer own'') client_request = Inr r \<and>
     hp_body r = [Inr ''a'', Inr ''b'', Inl (Provider ''reset'')]"
proof -
  obtain r where r: "http_dispatch (\<lambda>_. Inr \<lparr>hr_status = 200, hr_headers = [], hr_stream = [Inr ''a'', Inr ''b'', Inl ''reset'']\<rparr>) (\<lambda>_. None)
     (\<lambda>_. True) (\<lambda>_. True) (\<lambda>b _. Inr b) Some None no_cloud plain_provider (BearerAuth ''Bearer own'') client_request = Inr r"
    by (simp add: http_dispatch_def client_outbound res_then_def protocol_def case_prod_beta)
  from http_dispatch_delivers [OF r] r show ?thesis by auto
qed

theorem estimate_well_formed_witness:
  "\<exists>e. provider_estimate (\<lambda>_. None) plain_provider ''hello'' = Inr e \<and> validate_estimate e = Inr () \<and> 1 \<le> input_tokens e"
  by (rule estimate_well_formed [OF plain_built])

end
