(* ===== verification/Durable_Queue.thy ===== *)
theory Durable_Queue
  imports Config "HOL-Library.Word"
begin

text \<open>
  The durable queues of \<^verbatim>\<open>crates/durable-queue/src/lib.rs\<close>: the in-memory queue, and the NATS and Service Bus
  adapters with the broker's answers, the JSON codec and URL joining as arguments.
\<close>

section \<open>Jobs\<close>

type_synonym byte = "8 word"

record durable_job =
  job_id :: uuid
  job_metadata :: "byte list"
  job_payload :: "byte list"

record wire_job =
  wire_id :: uuid
  wire_metadata :: "byte list"
  wire_payload :: "byte list"

definition to_wire :: "durable_job \<Rightarrow> wire_job" where
  "to_wire j = \<lparr>wire_id = job_id j, wire_metadata = job_metadata j, wire_payload = job_payload j\<rparr>"

definition from_wire :: "wire_job \<Rightarrow> durable_job" where
  "from_wire w = \<lparr>job_id = wire_id w, job_metadata = wire_metadata w, job_payload = wire_payload w\<rparr>"

datatype queue_error =
    Unavailable string
  | Authentication string
  | Protocol string
  | TooLarge nat nat
  | UnknownDelivery uuid

definition default_max_job_bytes :: nat where
  "default_max_job_bytes = 16 * 1024 * 1024"

definition ensure_size :: "durable_job \<Rightarrow> nat \<Rightarrow> queue_error + unit" where
  "ensure_size j limit =
     (let actual = saturating_add (length (job_metadata j)) (length (job_payload j))
      in if limit < actual then Inl (TooLarge actual limit) else Inr ())"

section \<open>The in-memory queue\<close>

record memory_queue =
  jobs :: "durable_job list"
  in_flight :: "uuid \<rightharpoonup> durable_job"

definition mq_publish :: "durable_job \<Rightarrow> memory_queue \<Rightarrow> (queue_error + unit) \<times> memory_queue" where
  "mq_publish j q =
     (case ensure_size j default_max_job_bytes of
        Inl e \<Rightarrow> (Inl e, q)
      | Inr _ \<Rightarrow> (Inr (), q\<lparr>jobs := jobs q @ [j]\<rparr>))"

definition mq_receive :: "memory_queue \<Rightarrow> (queue_error + durable_job option) \<times> memory_queue" where
  "mq_receive q =
     (case jobs q of
        [] \<Rightarrow> (Inr None, q)
      | j # js \<Rightarrow> (Inr (Some j), q\<lparr>jobs := js, in_flight := (in_flight q)(job_id j \<mapsto> j)\<rparr>))"

definition mq_acknowledge :: "uuid \<Rightarrow> memory_queue \<Rightarrow> (queue_error + unit) \<times> memory_queue" where
  "mq_acknowledge i q =
     (case in_flight q i of
        None \<Rightarrow> (Inl (UnknownDelivery i), q)
      | Some _ \<Rightarrow> (Inr (), q\<lparr>in_flight := (in_flight q)(i := None)\<rparr>))"

section \<open>NATS JetStream\<close>

text \<open>Connecting asks the broker for a work queue of one subject and for a durable consumer with explicit acknowledgements.\<close>

record stream_config =
  stream_name :: string
  stream_subjects :: "string list"
  work_queue_retention :: bool

record consumer_config =
  durable_name :: "string option"
  filter_subject :: string
  explicit_ack :: bool
  max_deliver :: int

record ('ctx, 'con, 'ack) nats_queue =
  nats_context :: 'ctx
  nats_consumer :: 'con
  nats_subject :: string
  nats_acks :: "uuid \<rightharpoonup> 'ack"
  nats_max_job_bytes :: nat

text \<open>The options of the client library are the function \<open>dial\<close>; \<^verbatim>\<open>connect\<close> is the case of its default options.\<close>

definition nats_connect ::
  "(string \<Rightarrow> string + 'ctx) \<Rightarrow> ('ctx \<Rightarrow> stream_config \<Rightarrow> string + 'str) \<Rightarrow> ('str \<Rightarrow> string \<Rightarrow> consumer_config \<Rightarrow> string + 'con)
     \<Rightarrow> string \<Rightarrow> string \<Rightarrow> string \<Rightarrow> string \<Rightarrow> nat option \<Rightarrow> queue_error + ('ctx, 'con, 'ack) nats_queue" where
  "nats_connect dial get_stream get_consumer addr stream subj consumer max_bytes =
     (case dial addr of
        Inl e \<Rightarrow> Inl (Unavailable e)
      | Inr ctx \<Rightarrow>
          (case get_stream ctx \<lparr>stream_name = stream, stream_subjects = [subj], work_queue_retention = True\<rparr> of
             Inl e \<Rightarrow> Inl (Unavailable e)
           | Inr str \<Rightarrow>
               (case get_consumer str consumer \<lparr>durable_name = Some consumer, filter_subject = subj, explicit_ack = True,
                       max_deliver = 10\<rparr> of
                  Inl e \<Rightarrow> Inl (Unavailable e)
                | Inr con \<Rightarrow>
                    Inr \<lparr>nats_context = ctx, nats_consumer = con, nats_subject = subj, nats_acks = Map.empty,
                      nats_max_job_bytes = (case max_bytes of None \<Rightarrow> default_max_job_bytes | Some n \<Rightarrow> n)\<rparr>)))"

text \<open>\<open>send\<close> and \<open>acked\<close> are the broker's errors, if any; the table holds the means to acknowledge a delivery.\<close>

definition nats_publish ::
  "(wire_job \<Rightarrow> string + string) \<Rightarrow> (string \<Rightarrow> string option) \<Rightarrow> nat \<Rightarrow> durable_job \<Rightarrow> queue_error + string" where
  "nats_publish encode send limit j =
     (case ensure_size j limit of
        Inl e \<Rightarrow> Inl e
      | Inr _ \<Rightarrow>
          (case encode (to_wire j) of
             Inl e \<Rightarrow> Inl (Protocol e)
           | Inr body \<Rightarrow> (case send body of Some e \<Rightarrow> Inl (Unavailable e) | None \<Rightarrow> Inr body)))"

definition nats_receive ::
  "(string \<Rightarrow> string + wire_job) \<Rightarrow> nat \<Rightarrow> string + (string + string \<times> 'ack) option \<Rightarrow> (uuid \<rightharpoonup> 'ack)
     \<Rightarrow> (queue_error + durable_job option) \<times> (uuid \<rightharpoonup> 'ack)" where
  "nats_receive decode limit fetched acks =
     (case fetched of
        Inl e \<Rightarrow> (Inl (Unavailable e), acks)
      | Inr None \<Rightarrow> (Inr None, acks)
      | Inr (Some (Inl e)) \<Rightarrow> (Inl (Unavailable e), acks)
      | Inr (Some (Inr (body, acker))) \<Rightarrow>
          if saturating_mul limit 2 < length body then (Inl (TooLarge (length body) limit), acks)
          else (case decode body of
                  Inl e \<Rightarrow> (Inl (Protocol e), acks)
                | Inr w \<Rightarrow>
                    (case ensure_size (from_wire w) limit of
                       Inl e \<Rightarrow> (Inl e, acks)
                     | Inr _ \<Rightarrow> (Inr (Some (from_wire w)), acks(wire_id w \<mapsto> acker)))))"

definition nats_acknowledge ::
  "('ack \<Rightarrow> string option) \<Rightarrow> uuid \<Rightarrow> (uuid \<rightharpoonup> 'ack) \<Rightarrow> (queue_error + unit) \<times> (uuid \<rightharpoonup> 'ack)" where
  "nats_acknowledge double_ack i acks =
     (case acks i of
        None \<Rightarrow> (Inl (UnknownDelivery i), acks)
      | Some a \<Rightarrow> ((case double_ack a of Some e \<Rightarrow> Inl (Unavailable e) | None \<Rightarrow> Inr ()), acks(i := None)))"

section \<open>Azure Service Bus\<close>

record bus_reply =
  bus_status :: nat
  bus_status_error :: "string option"
  bus_length :: "nat option"
  bus_location :: "string option"
  bus_body :: "string + string"

text \<open>
  Opening the queue: the endpoint must parse and use HTTPS.  The client's construction is \<open>client\<close>, its error if
  any.
\<close>

record 'c service_bus =
  sb_client :: 'c
  sb_endpoint :: url
  sb_queue :: string
  sb_settlements :: "uuid \<rightharpoonup> url"
  sb_limit :: nat

definition bus_new ::
  "(string \<Rightarrow> string + url) \<Rightarrow> string + 'c \<Rightarrow> string \<Rightarrow> string \<Rightarrow> nat option \<Rightarrow> queue_error + 'c service_bus" where
  "bus_new parse_url client namespace_endpoint queue max_job_bytes =
     (case parse_url namespace_endpoint of
        Inl e \<Rightarrow> Inl (Protocol (''invalid Service Bus endpoint: '' @ e))
      | Inr u \<Rightarrow>
          if scheme u \<noteq> ''https'' then Inl (Protocol ''Azure Service Bus endpoint must use HTTPS'')
          else (case client of
                  Inl e \<Rightarrow> Inl (Unavailable e)
                | Inr c \<Rightarrow> Inr \<lparr>sb_client = c, sb_endpoint = u, sb_queue = queue, sb_settlements = Map.empty,
                    sb_limit = (case max_job_bytes of None \<Rightarrow> default_max_job_bytes | Some n \<Rightarrow> n)\<rparr>))"

definition messages_url :: "(url \<Rightarrow> string \<Rightarrow> string + url) \<Rightarrow> 'c service_bus \<Rightarrow> string \<Rightarrow> queue_error + url" where
  "messages_url join sb suffix =
     (case join (sb_endpoint sb) (sb_queue sb @ ''/messages'' @ suffix) of
        Inl e \<Rightarrow> Inl (Protocol e)
      | Inr u \<Rightarrow> Inr u)"

text \<open>The token of an environment variable, and the header made of a token.\<close>

definition environment_token :: "(string \<Rightarrow> string option) \<Rightarrow> string \<Rightarrow> queue_error + string" where
  "environment_token var name =
     (case var name of
        None \<Rightarrow> Inl (Authentication (''token environment variable '' @ name @ '' is not set''))
      | Some t \<Rightarrow> Inr t)"

text \<open>The token of an Azure identity; \<open>get_token\<close> is the SDK's.\<close>

definition azure_token :: "(string list \<Rightarrow> string + string) \<Rightarrow> string list \<Rightarrow> queue_error + string" where
  "azure_token get_token scopes = map_sum Authentication id (get_token scopes)"

definition bearer :: "(string list \<Rightarrow> queue_error + string) \<Rightarrow> queue_error + string" where
  "bearer token =
     (case token [''https://servicebus.azure.net/.default''] of
        Inl e \<Rightarrow> Inl e
      | Inr t \<Rightarrow> Inr (''Bearer '' @ t))"

record bus_post =
  post_url :: url
  post_authorization :: string
  post_content_type :: string
  post_properties :: string
  post_body :: string

text \<open>
  \<^verbatim>\<open>publish\<close>; the result is the request that was accepted.  \<open>show_id\<close> prints an id, which needs no escape in JSON;
  \<open>send\<close> is the error of the exchange or of its status, if any.
\<close>

definition bus_publish ::
  "(url \<Rightarrow> string \<Rightarrow> string + url) \<Rightarrow> (wire_job \<Rightarrow> string + string) \<Rightarrow> (string list \<Rightarrow> queue_error + string) \<Rightarrow>
   (uuid \<Rightarrow> string) \<Rightarrow> (bus_post \<Rightarrow> string option) \<Rightarrow> 'c service_bus \<Rightarrow> durable_job \<Rightarrow> queue_error + bus_post" where
  "bus_publish join encode token show_id send sb j =
     (case ensure_size j (sb_limit sb) of
        Inl e \<Rightarrow> Inl e
      | Inr _ \<Rightarrow>
     (case encode (to_wire j) of
        Inl e \<Rightarrow> Inl (Protocol e)
      | Inr body \<Rightarrow>
     (case messages_url join sb [] of
        Inl e \<Rightarrow> Inl e
      | Inr u \<Rightarrow>
     (case bearer token of
        Inl e \<Rightarrow> Inl e
      | Inr authz \<Rightarrow>
          let post = \<lparr>post_url = u, post_authorization = authz, post_content_type = ''application/json'',
                post_properties = ''{\"MessageId\":\"'' @ show_id (job_id j) @ ''\"}'', post_body = body\<rparr>
          in (case send post of Some e \<Rightarrow> Inl (Unavailable e) | None \<Rightarrow> Inr post)))))"

text \<open>\<^verbatim>\<open>receive\<close>, from the reply to the peek-lock request on.\<close>

definition bus_receive ::
  "(url \<Rightarrow> string \<Rightarrow> string + url) \<Rightarrow> (string \<Rightarrow> string + wire_job) \<Rightarrow> url \<Rightarrow> nat \<Rightarrow> bus_reply \<Rightarrow> (uuid \<rightharpoonup> url)
     \<Rightarrow> (queue_error + durable_job option) \<times> (uuid \<rightharpoonup> url)" where
  "bus_receive join decode base limit r settlements =
     (if bus_status r = 204 \<or> bus_status r = 404 then (Inr None, settlements)
      else (case bus_status_error r of
        Some e \<Rightarrow> (Inl (Unavailable e), settlements)
      | None \<Rightarrow>
          if (case bus_length r of None \<Rightarrow> False | Some n \<Rightarrow> saturating_mul limit 2 < n)
          then (Inl (TooLarge (the (bus_length r)) limit), settlements)
          else (case bus_location r of
            None \<Rightarrow> (Inl (Protocol ''peek-lock response has no Location header''), settlements)
          | Some loc \<Rightarrow>
              (case join base loc of
                 Inl e \<Rightarrow> (Inl (Protocol e), settlements)
               | Inr settlement \<Rightarrow>
                   if host_str settlement \<noteq> host_str base
                   then (Inl (Protocol ''Service Bus settlement URL changed host''), settlements)
                   else (case bus_body r of
                     Inl e \<Rightarrow> (Inl (Unavailable e), settlements)
                   | Inr body \<Rightarrow>
                       if saturating_mul limit 2 < length body
                       then (Inl (TooLarge (length body) limit), settlements)
                       else (case decode body of
                               Inl e \<Rightarrow> (Inl (Protocol e), settlements)
                             | Inr w \<Rightarrow>
                                 (case ensure_size (from_wire w) limit of
                                    Inl e \<Rightarrow> (Inl e, settlements)
                                  | Inr _ \<Rightarrow> (Inr (Some (from_wire w)), settlements(wire_id w \<mapsto> settlement)))))))))"

text \<open>The whole of \<^verbatim>\<open>receive\<close>; \<open>send\<close> is the exchange with a URL and an authorization header.\<close>

definition bus_receive_call ::
  "(url \<Rightarrow> string \<Rightarrow> string + url) \<Rightarrow> (string \<Rightarrow> string + wire_job) \<Rightarrow> (string list \<Rightarrow> queue_error + string) \<Rightarrow>
   (url \<Rightarrow> string \<Rightarrow> string + bus_reply) \<Rightarrow> 'c service_bus \<Rightarrow> (queue_error + durable_job option) \<times> 'c service_bus" where
  "bus_receive_call join decode token send sb =
     (case messages_url join sb ''/head?timeout=1'' of
        Inl e \<Rightarrow> (Inl e, sb)
      | Inr u \<Rightarrow>
     (case bearer token of
        Inl e \<Rightarrow> (Inl e, sb)
      | Inr authz \<Rightarrow>
     (case send u authz of
        Inl e \<Rightarrow> (Inl (Unavailable e), sb)
      | Inr r \<Rightarrow>
          let (res, m) = bus_receive join decode (sb_endpoint sb) (sb_limit sb) r (sb_settlements sb)
          in (res, sb\<lparr>sb_settlements := m\<rparr>))))"

text \<open>\<^verbatim>\<open>acknowledge\<close>; \<open>delete\<close> is the error of the exchange, if any.\<close>

definition bus_acknowledge ::
  "(url \<Rightarrow> queue_error option) \<Rightarrow> uuid \<Rightarrow> (uuid \<rightharpoonup> url) \<Rightarrow> (queue_error + unit) \<times> (uuid \<rightharpoonup> url)" where
  "bus_acknowledge delete i settlements =
     (case settlements i of
        None \<Rightarrow> (Inl (UnknownDelivery i), settlements)
      | Some u \<Rightarrow> ((case delete u of Some e \<Rightarrow> Inl e | None \<Rightarrow> Inr ()), settlements(i := None)))"

section \<open>Lemmas\<close>

datatype queue_op = Publish durable_job | Receive | Acknowledge uuid

text \<open>The queue with the jobs it accepted and the jobs acknowledged so far.\<close>

fun queue_step :: "queue_op \<Rightarrow> memory_queue \<times> durable_job list \<times> durable_job list
    \<Rightarrow> memory_queue \<times> durable_job list \<times> durable_job list" where
  "queue_step (Publish j) (q, acc, ack) =
     (case mq_publish j q of (Inl _, q') \<Rightarrow> (q', acc, ack) | (Inr _, q') \<Rightarrow> (q', acc @ [j], ack))"
| "queue_step Receive (q, acc, ack) = (snd (mq_receive q), acc, ack)"
| "queue_step (Acknowledge i) (q, acc, ack) =
     (case mq_acknowledge i q of
        (Inl _, q') \<Rightarrow> (q', acc, ack)
      | (Inr _, q') \<Rightarrow> (q', acc, ack @ [the (in_flight q i)]))"

definition queue_run :: "queue_op list \<Rightarrow> memory_queue \<times> durable_job list \<times> durable_job list" where
  "queue_run ops = fold queue_step ops (\<lparr>jobs = [], in_flight = Map.empty\<rparr>, [], [])"

definition flying :: "memory_queue \<Rightarrow> durable_job multiset" where
  "flying q = image_mset (\<lambda>i. the (in_flight q i)) (mset_set (dom (in_flight q)))"

definition dq_ok :: "memory_queue \<times> durable_job list \<times> durable_job list \<Rightarrow> bool" where
  "dq_ok = (\<lambda>(q, acc, ack). finite (dom (in_flight q)) \<and> (\<forall>i j. in_flight q i = Some j \<longrightarrow> job_id j = i) \<and>
     mset acc = mset (jobs q) + flying q + mset ack)"

fun published_id :: "queue_op \<Rightarrow> uuid option" where
  "published_id (Publish j) = Some (job_id j)"
| "published_id _ = None"

definition ids_of :: "queue_op list \<Rightarrow> uuid list" where
  "ids_of ops = List.map_filter published_id ops"

lemma flying_insert:
  assumes "finite (dom (in_flight q))" "in_flight q (job_id j) = None"
  shows "flying (q\<lparr>jobs := js, in_flight := (in_flight q)(job_id j \<mapsto> j)\<rparr>) = add_mset j (flying q)"
proof -
  have n: "job_id j \<notin> dom (in_flight q)" using assms(2) by auto
  have "image_mset (\<lambda>i. the (((in_flight q)(job_id j \<mapsto> j)) i)) (mset_set (dom (in_flight q)))
      = image_mset (\<lambda>i. the (in_flight q i)) (mset_set (dom (in_flight q)))"
    using n assms(1) by (intro image_mset_cong) auto
  then show ?thesis using n assms(1) by (simp add: flying_def)
qed

lemma flying_remove:
  assumes "finite (dom (in_flight q))" "in_flight q i = Some j"
  shows "flying q = add_mset j (flying (q\<lparr>in_flight := (in_flight q)(i := None)\<rparr>))"
proof -
  have d: "mset_set (dom (in_flight q)) = add_mset i (mset_set (dom (in_flight q) - {i}))"
    using assms by (intro mset_set.remove) auto
  have "image_mset (\<lambda>k. the (((in_flight q)(i := None)) k)) (mset_set (dom (in_flight q) - {i}))
      = image_mset (\<lambda>k. the (in_flight q k)) (mset_set (dom (in_flight q) - {i}))"
    using assms(1) by (intro image_mset_cong) auto
  then show ?thesis using assms(2) by (simp add: flying_def d)
qed

lemma queue_step_ok:
  assumes "dq_ok (q, acc, ack)" "distinct (map job_id acc)"
  shows "dq_ok (queue_step op (q, acc, ack))"
proof (cases op)
  case (Publish j)
  with assms(1) show ?thesis
    by (auto simp: dq_ok_def mq_publish_def flying_def split: sum.splits)
next
  case Receive
  show ?thesis
  proof (cases "jobs q")
    case Nil
    with Receive assms(1) show ?thesis by (simp add: mq_receive_def)
  next
    case (Cons j js)
    have acc: "mset acc = mset (jobs q) + flying q + mset ack" "finite (dom (in_flight q))"
      "\<And>i k. in_flight q i = Some k \<Longrightarrow> job_id k = i" using assms(1) by (auto simp: dq_ok_def)
    have "in_flight q (job_id j) = None"
    proof (rule ccontr)
      assume "in_flight q (job_id j) \<noteq> None"
      then obtain k where k: "in_flight q (job_id j) = Some k" by blast
      then have "k \<in># flying q" using acc(2) by (force simp: flying_def)
      then obtain F where F: "flying q = add_mset k F" by (meson mset_add)
      have "mset (map job_id acc) = add_mset (job_id j) (add_mset (job_id k) (image_mset job_id (mset js + F + mset ack)))"
        using acc(1) Cons F by simp
      moreover have "job_id k = job_id j" using acc(3) [OF k] .
      ultimately have "count (mset (map job_id acc)) (job_id j) \<ge> 2" by simp
      with assms(2) show False by (simp add: distinct_count_atmost_1 split: if_splits)
    qed
    with Receive Cons assms(1) show ?thesis
      by (auto simp: dq_ok_def mq_receive_def flying_insert)
  qed
next
  case (Acknowledge i)
  show ?thesis
  proof (cases "in_flight q i")
    case None
    with Acknowledge assms(1) show ?thesis by (simp add: mq_acknowledge_def)
  next
    case (Some j)
    from assms(1) have "finite (dom (in_flight q))" by (simp add: dq_ok_def)
    from flying_remove [OF this Some] Acknowledge Some assms(1) show ?thesis
      by (auto simp: dq_ok_def mq_acknowledge_def)
  qed
qed

end
