(* ===== verification/Durable_Queue_Properties.thy ===== *)
theory Durable_Queue_Properties
  imports Durable_Queue
begin

text \<open>
  What the durable queues guarantee: the in-memory queue loses and duplicates nothing, a received job is
  within its limit and settles on the broker's host; and the size at which an accepted job can no longer
  be received.
\<close>

section \<open>Lemmas\<close>

lemma ids_of_simps [simp]:
  "ids_of [] = []"
  "ids_of (op # ops) = (case published_id op of None \<Rightarrow> ids_of ops | Some i \<Rightarrow> i # ids_of ops)"
  by (simp_all add: ids_of_def List.map_filter_def split: option.splits)

lemma queue_step_accepted:
  "queue_step op (q, acc, ack) = (q', acc', ack') \<Longrightarrow>
     acc' = acc \<or> (\<exists>j. op = Publish j \<and> acc' = acc @ [j])"
  by (cases op) (auto split: prod.splits sum.splits)

lemma queue_fold_ok:
  "dq_ok (q, acc, ack) \<Longrightarrow> distinct (map job_id acc @ ids_of ops) \<Longrightarrow> dq_ok (fold queue_step ops (q, acc, ack))"
proof (induction ops arbitrary: q acc ack)
  case (Cons op ops)
  obtain q' acc' ack' where s: "queue_step op (q, acc, ack) = (q', acc', ack')" by (metis prod_cases3)
  have ok: "dq_ok (q', acc', ack')" using queue_step_ok [of q acc ack op] Cons.prems s by auto
  have "distinct (map job_id acc' @ ids_of ops)"
    using queue_step_accepted [OF s] Cons.prems(2) by (elim disjE exE) (auto split: option.splits simp: disjoint_iff)
  with Cons.IH [OF ok] s show ?case by simp
qed simp

text \<open>A byte vector as the JSON codec writes it: an array of decimal numbers.\<close>

fun comma_join :: "string list \<Rightarrow> string" where
  "comma_join [] = []"
| "comma_join [s] = s"
| "comma_join (s # ss) = s @ '','' @ comma_join ss"

definition json_bytes :: "byte list \<Rightarrow> string" where
  "json_bytes bs = ''['' @ comma_join (map (\<lambda>b. nat_to_dec (unat b)) bs) @ '']''"

lemma comma_join_length: "length (comma_join (replicate n s)) = n * length s + (n - 1)"
proof (induction n)
  case (Suc n)
  then show ?case by (cases n) simp_all
qed simp

lemma json_bytes_255: "0 < n \<Longrightarrow> length (json_bytes (replicate n 255)) = 4 * n + 1"
proof -
  assume "0 < n"
  have "length (nat_to_dec (unat (255 :: byte))) = 3" by code_simp
  with \<open>0 < n\<close> show ?thesis by (simp add: json_bytes_def comma_join_length)
qed

text \<open>
  Service Bus: a queue is only opened over HTTPS, and a job whose JSON text the codec reads back is received as it
  was published when the broker delivers the body and the text is within twice the limit.
\<close>

lemma bus_https: "bus_new parse_url client namespace_endpoint queue m = Inr sb \<Longrightarrow> scheme (sb_endpoint sb) = ''https''"
  by (auto simp: bus_new_def split: sum.splits if_splits)

lemma bus_round_trip:
  assumes "bus_publish join encode token show_id send sb j = Inr post" "decode (post_body post) = Inr (to_wire j)"
    and "length (post_body post) \<le> saturating_mul (sb_limit sb) 2"
    and "bus_status r = 201" "bus_status_error r = None" "bus_length r = Some (length (post_body post))"
    and "bus_location r = Some loc" "join base loc = Inr u" "host_str u = host_str base" "bus_body r = Inr (post_body post)"
  shows "bus_receive join decode base (sb_limit sb) r settlements = (Inr (Some j), settlements(job_id j \<mapsto> u))"
proof -
  have e: "ensure_size j (sb_limit sb) = Inr ()" using assms(1) by (auto simp: bus_publish_def split: sum.splits)
  have "from_wire (to_wire j) = j" "wire_id (to_wire j) = job_id j" by (simp_all add: from_wire_def to_wire_def)
  then show ?thesis using assms(2-) e by (simp add: bus_receive_def)
qed

section \<open>Properties\<close>


text \<open>
  A job received from Service Bus is within the limit, and its settlement address, which later gets the
  credentials, is on the broker's host; every other outcome leaves the settlements as they were.
\<close>

theorem bus_receive_safe:
  assumes "bus_receive join decode base limit r settlements = (res, settlements')" "limit < u64_max"
  shows "(\<exists>j u. res = Inr (Some j) \<and> settlements' = settlements(job_id j \<mapsto> u) \<and> host_str u = host_str base \<and>
      length (job_metadata j) + length (job_payload j) \<le> limit) \<or>
    ((\<forall>j. res \<noteq> Inr (Some j)) \<and> settlements' = settlements)"
  using assms saturating_add_le [OF _ assms(2)]
  by (auto simp: bus_receive_def ensure_size_def from_wire_def Let_def not_less
      split: if_splits option.splits sum.splits)

text \<open>
  C32.  A job the adapter accepts can be one it never delivers: the codec writes a byte vector as an array of
  decimal numbers, up to four characters a byte, while a message is refused above twice the limit.  A
  payload of \<open>n\<close> bytes of value 255 under a limit of \<open>n\<close> is published and then refused at every receipt.
\<close>

theorem accepted_job_undeliverable:
  assumes "0 < n" "n \<le> u64_max" "job_metadata j = []" "job_payload j = replicate n 255"
    and "encode (to_wire j) = Inr body" "length (json_bytes (job_payload j)) \<le> length body" "send body = None"
  shows "nats_publish encode send n j = Inr body \<and>
    nats_receive decode n (Inr (Some (Inr (body, acker)))) acks = (Inl (TooLarge (length body) n), acks)"
proof -
  have "ensure_size j n = Inr ()" using assms(2-4) by (simp add: ensure_size_def saturating_add_def)
  moreover have "saturating_mul n 2 < length body"
    using json_bytes_255 [OF assms(1)] assms(4,6) by (simp add: saturating_mul_def)
  ultimately show ?thesis using assms(5,7) by (simp add: nats_publish_def nats_receive_def)
qed

section \<open>Witnesses\<close>

definition small_job :: "nat \<Rightarrow> durable_job" where
  "small_job n = \<lparr>job_id = n, job_metadata = [], job_payload = [255]\<rparr>"


definition bus_url :: url where
  "bus_url = \<lparr>scheme = ''https'', host_str = Some ''bus.example''\<rparr>"

definition bus_example :: bus_reply where
  "bus_example = \<lparr>bus_status = 201, bus_status_error = None, bus_length = None, bus_location = Some ''l'', bus_body = Inr ''{}''\<rparr>"

theorem bus_receive_safe_witness:
  "\<exists>u. bus_receive (\<lambda>b _. Inr b) (\<lambda>_. Inr (to_wire (small_job 1))) bus_url 100 bus_example Map.empty
       = (Inr (Some (small_job 1)), [1 \<mapsto> u]) \<and> host_str u = Some ''bus.example''"
proof -
  have e: "bus_receive (\<lambda>b _. Inr b) (\<lambda>_. Inr (to_wire (small_job 1))) bus_url 100 bus_example Map.empty
      = (Inr (Some (small_job 1)), [1 \<mapsto> bus_url])"
    by (simp add: bus_receive_def bus_example_def to_wire_def from_wire_def small_job_def ensure_size_def saturating_add_def
        saturating_mul_def u64_max_def Let_def)
  have "(100 :: nat) < u64_max" by (simp add: u64_max_def)
  from bus_receive_safe [OF e this] e show ?thesis by (auto simp: bus_url_def)
qed

theorem accepted_job_undeliverable_witness:
  "nats_publish (\<lambda>w. Inr (json_bytes (wire_payload w))) (\<lambda>_. None) 1 (small_job 1) = Inr ''[255]'' \<and>
   nats_receive (\<lambda>_. Inl []) 1 (Inr (Some (Inr (''[255]'', ())))) Map.empty = (Inl (TooLarge 5 1), Map.empty)"
proof -
  have b: "json_bytes [255] = ''[255]''" by code_simp
  have h: "job_metadata (small_job 1) = []" "job_payload (small_job 1) = replicate 1 255"
    "(\<lambda>w. Inr (json_bytes (wire_payload w)) :: string + string) (to_wire (small_job 1)) = Inr ''[255]''"
    "length (json_bytes (job_payload (small_job 1))) \<le> length ''[255]''" "(\<lambda>_. None :: string option) ''[255]'' = None"
    by (simp_all add: small_job_def to_wire_def b)
  have n: "(0 :: nat) < 1" "(1 :: nat) \<le> u64_max" by (simp_all add: u64_max_def)
  from accepted_job_undeliverable [where encode = "\<lambda>w. Inr (json_bytes (wire_payload w))" and send = "\<lambda>_. None"
      and decode = "\<lambda>_. Inl []" and acker = "()" and acks = Map.empty, OF n h]
  show ?thesis by simp
qed

end
