(* ===== verification/Simulator.thy ===== *)
theory Simulator
  imports Prelude F64_Sum
begin

text \<open>
  The replay of \<^verbatim>\<open>crates/simulator/src/lib.rs\<close>: reading a trace, projecting demand, throttling, queueing and
  fairness from it, and printing the report.  The CSV and JSON decoders and the file system are arguments.
  An \<^verbatim>\<open>anyhow\<close> error is its chain of messages, the outermost context first.
\<close>

type_synonym anyhow = "string list"

section \<open>Rounding to integers\<close>

text \<open>\<^verbatim>\<open>f64::round\<close> (halves away from zero), \<^verbatim>\<open>f64::ceil\<close> and the saturating cast \<^verbatim>\<open>as u64\<close>.\<close>

fun f_round :: "f64 \<Rightarrow> f64" where
  "f_round (Fin s m) = Fin s (of_int \<lfloor>m + 1 / 2\<rfloor>)"
| "f_round x = x"

fun f_ceil :: "f64 \<Rightarrow> f64" where
  "f_ceil (Fin s m) = Fin s (of_int (if s then \<lfloor>m\<rfloor> else \<lceil>m\<rceil>))"
| "f_ceil x = x"

fun f_to_u64 :: "f64 \<Rightarrow> nat" where
  "f_to_u64 NaN = 0"
| "f_to_u64 (Infty s) = (if s then 0 else u64_max)"
| "f_to_u64 (Fin s m) = (if s then 0 else min u64_max (nat \<lfloor>m\<rfloor>))"

text \<open>\<^verbatim>\<open>sort_by(f64::total_cmp)\<close>\<close>

fun total_insert :: "f64 \<Rightarrow> f64 list \<Rightarrow> f64 list" where
  "total_insert x [] = [x]"
| "total_insert x (y # ys) = (if f_total_lt y x then y # total_insert x ys else x # y # ys)"

definition total_sort :: "f64 list \<Rightarrow> f64 list" where
  "total_sort xs = foldr total_insert xs []"

section \<open>Traces and reports\<close>

record trace_event =
  timestamp_ms :: nat
  ev_provider :: string
  ev_model :: string
  ev_pool :: string
  ev_application :: string
  ev_tenant :: string
  ev_service_class :: string
  ev_input_tokens :: nat
  ev_cached_tokens :: nat
  requested_max_output :: nat
  actual_output :: nat
  latency_ms :: nat
  ev_status :: nat
  ev_retry_after_ms :: nat
  throttled :: bool

record class_report =
  cr_requests :: nat
  queue_p50_ms :: nat
  queue_p95_ms :: nat
  queue_p99_ms :: nat
  deadline_violations :: nat

record replay_report =
  configured_capacity :: f64
  average_effective_demand :: f64
  peak_effective_demand :: f64
  utilization_p50 :: f64
  utilization_p95 :: f64
  baseline_throttle_rate :: f64
  projected_throttle_rate :: f64
  fairness_jain_index :: f64
  starvation_incidents :: nat
  capacity_headroom :: f64
  potential_capacity_deferred_units :: f64
  estimated_cost_avoided :: "f64 option"
  rep_confidence :: string
  recommendation :: string
  rep_classes :: "(string \<times> class_report) list"
  assumptions :: "string list"

section \<open>Reading a trace\<close>

text \<open>\<^verbatim>\<open>Path::extension\<close> on a Unix path, and the pieces it is made of.\<close>

fun split_at_char :: "char \<Rightarrow> string \<Rightarrow> string list" where
  "split_at_char d [] = [[]]"
| "split_at_char d (c # cs) =
     (if c = d then [] # split_at_char d cs
      else case split_at_char d cs of p # ps \<Rightarrow> (c # p) # ps | [] \<Rightarrow> [[c]])"

definition file_name :: "string \<Rightarrow> string option" where
  "file_name path =
     (case rev (filter (\<lambda>c. c \<noteq> [] \<and> c \<noteq> ''.'') (split_at_char (CHR ''/'') path)) of
        [] \<Rightarrow> None
      | c # _ \<Rightarrow> if c = ''..'' then None else Some c)"

fun rsplit_once :: "char \<Rightarrow> string \<Rightarrow> (string \<times> string) option" where
  "rsplit_once d [] = None"
| "rsplit_once d (c # cs) =
     (case rsplit_once d cs of
        Some (a, b) \<Rightarrow> Some (c # a, b)
      | None \<Rightarrow> if c = d then Some ([], cs) else None)"

definition extension :: "string \<Rightarrow> string option" where
  "extension path =
     (case Option.bind (file_name path) (rsplit_once (CHR ''.'')) of
        None \<Rightarrow> None
      | Some (before, after) \<Rightarrow> if before = [] then None else Some after)"

text \<open>
  \<^verbatim>\<open>read_events\<close>: \<open>open_csv\<close> gives the rows of a CSV file as the decoder returns them, \<open>read_text\<close> the text
  of a file and \<open>parse\<close> decodes one line of JSON; each may fail with a message.
\<close>

definition read_events ::
  "(string \<Rightarrow> string + (string + trace_event) list) \<Rightarrow> (string \<Rightarrow> string + string) \<Rightarrow>
   (string \<Rightarrow> string + trace_event) \<Rightarrow> string \<Rightarrow> anyhow + trace_event list" where
  "read_events open_csv read_text parse path =
     (let ext = (case extension path of Some e \<Rightarrow> e | None \<Rightarrow> [])
      in if ext = ''csv'' then
           (case open_csv path of
              Inl e \<Rightarrow> Inl [''cannot read '' @ path, e]
            | Inr rows \<Rightarrow> collect_results (map (\<lambda>v. case v of Inl e \<Rightarrow> Inl [''invalid CSV trace row'', e]
                                                    | Inr x \<Rightarrow> Inr x) rows))
         else if ext = ''jsonl'' \<or> ext = ''json'' \<or> ext = ''trace'' then
           (case read_text path of
              Inl e \<Rightarrow> Inl [''cannot read '' @ path, e]
            | Inr text \<Rightarrow>
                let lines = filter (\<lambda>l. trim l \<noteq> []) (split_lf [] text)
                in collect_results
                     (map (\<lambda>(i, l). case parse l of Inl e \<Rightarrow> Inl [''invalid JSON on line '' @ nat_to_dec (i + 1), e]
                                     | Inr x \<Rightarrow> Inr x)
                       (enumerate 0 lines)))
         else Inl [''unsupported trace format; use .jsonl, .trace, .json, or .csv''])"

section \<open>The replay\<close>

definition percentile_index :: "nat \<Rightarrow> f64 \<Rightarrow> nat" where
  "percentile_index n p = f_to_u64 (f_round (f_of_nat (saturating_sub n 1) * p))"

definition percentile :: "nat list \<Rightarrow> f64 \<Rightarrow> nat" where
  "percentile v p = (let i = percentile_index (length v) p in if i < length v then v ! i else 0)"

definition percentile_f64 :: "f64 list \<Rightarrow> f64 \<Rightarrow> f64" where
  "percentile_f64 v p = (let i = percentile_index (length v) p in if i < length v then v ! i else f_of 0)"

definition deadline_for :: "string \<Rightarrow> nat" where
  "deadline_for c =
     (if c = ''realtime'' then 500 else if c = ''interactive'' then 3000
      else if c = ''standard'' then 10000 else if c = ''workflow'' then 60000 else 1800000)"

definition jain :: "f64 list \<Rightarrow> f64" where
  "jain x =
     (if x = [] then f_of 1
      else let total = f_sum x; sq = f_sum (map (\<lambda>v. v * v) x)
           in if sq \<le> f_of 0 \<and> f_of 0 \<le> sq then f_of 1
              else total * total / (f_of_nat (length x) * sq))"

text \<open>The work of an event as the demand counts it.\<close>

definition event_work :: "trace_event \<Rightarrow> f64" where
  "event_work e =
     f_of_nat (wrapping_add (saturating_sub (ev_input_tokens e) (ev_cached_tokens e))
                            (max (requested_max_output e) (actual_output e)))"

definition demand_buckets :: "nat \<Rightarrow> (trace_event \<times> f64) list \<Rightarrow> (nat \<times> f64) list" where
  "demand_buckets start =
     foldl (\<lambda>m (e, w). bt_update (wrapping_sub (timestamp_ms e) start div 1000) (f_of 0) (\<lambda>d. d + w) m) []"

definition share_of :: "(trace_event \<Rightarrow> bool) \<Rightarrow> trace_event list \<Rightarrow> f64" where
  "share_of p es = f_of_nat (length (filter p es)) / f_of_nat (length es)"

definition is_throttled :: "trace_event \<Rightarrow> bool" where
  "is_throttled e \<longleftrightarrow> throttled e \<or> ev_status e = 429"

definition is_queueable :: "trace_event \<Rightarrow> bool" where
  "is_queueable e \<longleftrightarrow> ev_service_class e \<in> {''workflow'', ''batch'', ''standard''}"

definition projected_rate :: "f64 \<Rightarrow> f64 \<Rightarrow> f64 \<Rightarrow> f64 \<Rightarrow> f64" where
  "projected_rate peak capacity observed queued =
     (let excess_ratio = f_min (f_max (peak - capacity) (f_of 0) / f_max peak (f_of 1)) (f_of 1)
      in f_clamp (observed * (f_of 1 - queued * f_of (9 / 10)) + excess_ratio * (f_of 1 - queued) * f_of (1 / 10))
           (f_of 0) (f_of 1))"

definition class_factor :: "string \<Rightarrow> f64" where
  "class_factor c =
     (if c = ''realtime'' then f_of (2 / 100) else if c = ''interactive'' then f_of (8 / 100)
      else if c = ''standard'' then f_of (3 / 10) else if c = ''workflow'' then f_of (7 / 10)
      else if c = ''batch'' then f_of 1 else f_of (4 / 10))"

definition wait_ms :: "f64 \<Rightarrow> trace_event \<Rightarrow> f64 \<Rightarrow> nat" where
  "wait_ms capacity e w =
     (let pressure = f_max (w / capacity) (f_of 0)
      in saturating_sub (f_to_u64 (pressure * f_of 1000 * class_factor (ev_service_class e)))
           (min (latency_ms e) 100))"

definition waits_by_class :: "f64 \<Rightarrow> (trace_event \<times> f64) list \<Rightarrow> (string \<times> nat list) list" where
  "waits_by_class capacity =
     foldl (\<lambda>m (e, w). bt_update (ev_service_class e) [] (\<lambda>vs. vs @ [wait_ms capacity e w]) m) []"

definition class_report_of :: "string \<Rightarrow> nat list \<Rightarrow> class_report" where
  "class_report_of name waits =
     (let values = sort waits
      in \<lparr>cr_requests = length values,
          queue_p50_ms = percentile values (f_of (1 / 2)),
          queue_p95_ms = percentile values (f_of (95 / 100)),
          queue_p99_ms = percentile values (f_of (99 / 100)),
          deadline_violations = length (filter (\<lambda>v. deadline_for name < v) values)\<rparr>)"

text \<open>The fairness input pairs the sorted events with the work of the events in the order of the trace.\<close>

definition tenant_work :: "trace_event list \<Rightarrow> trace_event list \<Rightarrow> (string \<times> f64) list" where
  "tenant_work ordered events =
     foldl (\<lambda>m (e, w). bt_update (ev_tenant e) (f_of 0) (\<lambda>d. d + w) m) []
       (zip ordered (map (\<lambda>e. f_of_nat (wrapping_add (ev_input_tokens e) (actual_output e))) events))"

definition deferred_units :: "f64 option \<Rightarrow> f64 \<Rightarrow> f64 \<Rightarrow> f64 \<Rightarrow> f64 \<Rightarrow> f64" where
  "deferred_units increment sustained queued peak capacity =
     (case increment of
        None \<Rightarrow> f_of 0
      | Some inc \<Rightarrow>
          if sustained < f_of (2 / 10) \<and> f_of (2 / 10) < queued
          then f_ceil (f_max (peak - capacity) (f_of 0) / inc) * inc else f_of 0)"

definition recommend :: "f64 \<Rightarrow> f64 \<Rightarrow> f64 \<Rightarrow> f64 \<Rightarrow> f64 \<Rightarrow> string" where
  "recommend avg capacity sustained peak queued =
     (if capacity * f_of (9 / 10) < avg \<and> f_of (1 / 2) < sustained
      then ''Scheduling cannot solve sustained saturation; additional capacity is recommended.''
      else if capacity < peak \<and> f_of (2 / 10) < queued
      then ''Short peaks and queueable work indicate QoS scheduling may defer a capacity increase.''
      else ''Capacity appears adequate; use shadow mode to validate SLO impact before enforcement.'')"

definition replay ::
  "trace_event list \<Rightarrow> f64 \<Rightarrow> f64 option \<Rightarrow> f64 option \<Rightarrow> anyhow + replay_report" where
  "replay events capacity cost_per_unit capacity_increment =
     (if events = [] then Inl [''trace contains no events'']
      else if \<not> is_finite capacity \<or> capacity \<le> f_of 0 then Inl [''capacity must be positive'']
      else
        let ordered = sort_key timestamp_ms events;
            start = timestamp_ms (hd ordered);
            finish = max (timestamp_ms (last ordered)) (wrapping_add start 1);
            duration_s = f_max (f_of_nat (wrapping_sub finish start) / f_of 1000) (f_of 1);
            work = map event_work ordered;
            total = f_sum work;
            avg = total / duration_s;
            demand = total_sort (map snd (demand_buckets start (zip ordered work)));
            peak = (if demand = [] then f_of 0 else last demand);
            utils = map (\<lambda>d. d / capacity) demand;
            observed = share_of is_throttled ordered;
            queued = share_of is_queueable ordered;
            projected = projected_rate peak capacity observed queued;
            classes = map (\<lambda>(name, waits). (name, class_report_of name waits))
                        (waits_by_class capacity (zip ordered work));
            fairness = jain (map snd (tenant_work ordered events));
            sustained = f_of_nat (length (filter (\<lambda>d. capacity < d) demand)) / f_of_nat (max (length demand) 1);
            deferred = deferred_units capacity_increment sustained queued peak capacity
        in Inr \<lparr>configured_capacity = capacity, average_effective_demand = avg, peak_effective_demand = peak,
             utilization_p50 = percentile_f64 utils (f_of (1 / 2)),
             utilization_p95 = percentile_f64 utils (f_of (95 / 100)),
             baseline_throttle_rate = observed, projected_throttle_rate = projected,
             fairness_jain_index = fairness, starvation_incidents = 0,
             capacity_headroom = f_max (capacity - avg) (f_of 0),
             potential_capacity_deferred_units = deferred,
             estimated_cost_avoided = map_option (\<lambda>c. c * deferred) cost_per_unit,
             rep_confidence = (if 1000 < length ordered then ''high''
                               else if 100 < length ordered then ''medium'' else ''low''),
             recommendation = recommend avg capacity sustained peak queued,
             rep_classes = classes,
             assumptions =
               [''work units use uncached input plus max(actual output, requested max output)'',
                ''one-second demand buckets approximate provider capacity windows'',
                ''projected results are estimates, not guaranteed savings or SLOs'']\<rparr>)"

section \<open>Printing\<close>

text \<open>\<^verbatim>\<open>{:.d}\<close> of an \<^verbatim>\<open>f64\<close>: the exact value rounded once to \<open>d\<close> decimals, ties to even.\<close>

definition fmt_fixed :: "nat \<Rightarrow> f64 \<Rightarrow> string" where
  "fmt_fixed d x =
     (case x of
        NaN \<Rightarrow> ''NaN''
      | Infty s \<Rightarrow> if s then ''-inf'' else ''inf''
      | Fin s m \<Rightarrow>
          let n = nat (rne (m * 10 ^ d)); frac = nat_to_dec (n mod 10 ^ d)
          in (if s then ''-'' else []) @ nat_to_dec (n div 10 ^ d) @ ''.'' @
             replicate (d - length frac) (CHR ''0'') @ frac)"

text \<open>Padding counts characters, the bytes that do not continue one.\<close>

definition char_count :: "string \<Rightarrow> nat" where
  "char_count s = length (filter (\<lambda>c. \<not> (128 \<le> (of_char c :: nat) \<and> (of_char c :: nat) < 192)) s)"

definition pad_right :: "nat \<Rightarrow> string \<Rightarrow> string" where
  "pad_right n s = s @ replicate (n - char_count s) (CHR '' '')"

definition pad_left :: "nat \<Rightarrow> string \<Rightarrow> string" where
  "pad_left n s = replicate (n - char_count s) (CHR '' '') @ s"

definition terminal_class :: "string \<times> class_report \<Rightarrow> string" where
  "terminal_class = (\<lambda>(c, r).
     pad_right 12 c @ '' queue p50/p95/p99 '' @ pad_left 6 (nat_to_dec (queue_p50_ms r)) @ ''/'' @
     pad_left 6 (nat_to_dec (queue_p95_ms r)) @ ''/'' @ pad_left 6 (nat_to_dec (queue_p99_ms r)) @
     '' ms; deadline violations '' @ nat_to_dec (deadline_violations r) @ [CHR 0x0A])"

definition terminal :: "replay_report \<Rightarrow> string" where
  "terminal report =
     ''Capacity configured          '' @ fmt_fixed 1 (configured_capacity report) @ '' units'' @ [CHR 0x0A] @
     ''Average effective demand     '' @ fmt_fixed 1 (average_effective_demand report) @ '' units/s'' @ [CHR 0x0A] @
     ''Peak effective demand        '' @ fmt_fixed 1 (peak_effective_demand report) @ '' units/s'' @ [CHR 0x0A] @
     ''Observed throttling          '' @ fmt_fixed 2 (baseline_throttle_rate report * f_of 100) @ ''%'' @ [CHR 0x0A] @
     ''Projected throttling         '' @ fmt_fixed 2 (projected_throttle_rate report * f_of 100) @ ''%'' @ [CHR 0x0A] @
     ''Fairness (Jain index)        '' @ fmt_fixed 3 (fairness_jain_index report) @ [CHR 0x0A] @
     ''Capacity headroom            '' @ fmt_fixed 1 (capacity_headroom report) @ '' units'' @ [CHR 0x0A] @
     ''Potential capacity deferred  '' @ fmt_fixed 1 (potential_capacity_deferred_units report) @ '' units'' @ [CHR 0x0A] @
     ''Confidence                   '' @ rep_confidence report @ [CHR 0x0A, CHR 0x0A] @
     recommendation report @ [CHR 0x0A] @ concat (map terminal_class (rep_classes report))"

end
