(* ===== verification/Simulator_Properties.thy ===== *)
theory Simulator_Properties
  imports Simulator
begin

text \<open>
  The replay's report: its rates are proportions, its classes partition the trace, and it depends on the
  order of a trace in the fairness index alone.
\<close>

section \<open>Numbers between zero and one\<close>

definition proportion :: "f64 \<Rightarrow> bool" where
  "proportion x \<longleftrightarrow> f_of 0 \<le> x \<and> x \<le> f_of 1"

lemma proportion_finite: "proportion x \<Longrightarrow> is_finite x"
  unfolding proportion_def using f_between_finite by (metis f_of_1)

lemma proportion_of: "0 \<le> q \<Longrightarrow> q \<le> 1 \<Longrightarrow> proportion (f_of q)"
  unfolding proportion_def by (blast intro: f_of_mono)

lemma proportion_mul:
  assumes "proportion x" "proportion y"
  shows "proportion (x * y)"
proof -
  obtain s a t b where xy: "x = Fin s a" "y = Fin t b"
    using assms [THEN proportion_finite] by (cases x; cases y) auto
  have ab: "\<bar>a\<bar> \<le> 1" "\<bar>b\<bar> \<le> 1" using assms xy by (auto simp: proportion_def f_ops split: if_splits)
  then have m: "\<bar>a * b\<bar> \<le> 1" by (simp add: abs_mult mult_le_one)
  have "f_of 0 \<le> x * y" using assms xy by (intro f_mul_nonneg) (auto simp: proportion_def)
  moreover obtain r where r: "f_mk (s \<noteq> t) \<bar>a * b\<bar> = Fin (s \<noteq> t) r" "0 \<le> r" "r \<le> 1"
    using m by (rule_tac f_mk_between [of 0 "\<bar>a * b\<bar>" 1 "s \<noteq> t"]) (auto intro: small_lt_bound)
  ultimately show ?thesis using xy by (auto simp: proportion_def f_ops f_mk_abs split: if_splits)
qed

lemma proportion_compl:
  assumes "proportion q"
  shows "proportion (f_of 1 - q)"
proof -
  note q = assms [unfolded proportion_def]
  have "f_of 0 \<le> f_of 1 - q" using q proportion_finite [OF assms] by (intro f_diff_nonneg) auto
  moreover have "f_of 1 - q \<le> f_of 1"
    using q proportion_finite [OF assms] by (intro f_diff_le) (auto simp del: f_of_0 f_of_1)
  ultimately show ?thesis unfolding proportion_def by blast
qed

lemma f_div_self: "0 < n \<Longrightarrow> n \<le> 2 ^ 53 \<Longrightarrow> f_of_nat n / f_of_nat n = f_of 1"
  by (simp add: f_of_nat_small f_ops f_of_def f_mk_eq)

lemma share_proportion:
  assumes "es \<noteq> []" "length es \<le> 2 ^ 53"
  shows "proportion (share_of p es)"
proof -
  have n: "f_of 0 < f_of_nat (length es)" "is_finite (f_of_nat (length es))"
    using assms by (simp_all add: f_of_nat_small f_ops)
  have "f_of_nat (length (filter p es)) / f_of_nat (length es) \<le> f_of_nat (length es) / f_of_nat (length es)"
    using n by (intro f_div_mono f_of_nat_mono f_of_nat_nonneg) auto
  moreover have "f_of 0 \<le> f_of_nat (length (filter p es)) / f_of_nat (length es)"
    using n by (intro f_div_nonneg f_of_nat_nonneg) auto
  ultimately show ?thesis using assms f_div_self [of "length es"] by (simp add: share_of_def proportion_def del: f_of_0 f_of_1)
qed

lemma excess_proportion: "proportion (f_min (f_max x (f_of 0) / f_max y (f_of 1)) (f_of 1))"
proof -
  have x: "f_of 0 \<le> f_max x (f_of 0)" "f_of 1 \<le> f_max y (f_of 1)" by (simp_all add: f_max_ge del: f_of_0 f_of_1)
  have "f_max x (f_of 0) / f_max y (f_of 1) = NaN \<or> f_of 0 \<le> f_max x (f_of 0) / f_max y (f_of 1)"
  proof (cases "is_finite (f_max y (f_of 1))")
    case True
    moreover have "f_of 0 < f_of 1" by (simp add: f_ops)
    ultimately show ?thesis using x f_less_le_trans by (blast intro: f_div_nonneg)
  next
    case False
    then have "f_max y (f_of 1) = Infty False" using x(2) by (cases "f_max y (f_of 1)") (auto simp: f_ops)
    then show ?thesis using x(1) by (elim f_nonnegE) (auto simp: f_ops)
  qed
  then show ?thesis by (cases "f_max x (f_of 0) / f_max y (f_of 1)") (auto simp: proportion_def f_min_def f_ops)
qed

lemma projected_proportion:
  assumes "proportion a" "proportion q"
  shows "proportion (projected_rate peak capacity a q)"
proof -
  have c: "proportion (f_of (9 / 10))" "proportion (f_of (1 / 10))" by (intro proportion_of; simp)+
  have "proportion (a * (f_of 1 - q * f_of (9 / 10)))"
    using assms c by (intro proportion_mul proportion_compl)
  moreover have "proportion (f_min (f_max (peak - capacity) (f_of 0) / f_max peak (f_of 1)) (f_of 1) *
      (f_of 1 - q) * f_of (1 / 10))"
    using assms c by (intro proportion_mul proportion_compl excess_proportion)
  ultimately have "f_of 0 \<le> a * (f_of 1 - q * f_of (9 / 10)) +
      f_min (f_max (peak - capacity) (f_of 0) / f_max peak (f_of 1)) (f_of 1) * (f_of 1 - q) * f_of (1 / 10)"
    unfolding proportion_def by (intro f_add_nonneg) auto
  then show ?thesis
    unfolding projected_rate_def Let_def proportion_def
    by (intro f_clamp_bounds f_of_mono) (auto dest: f_le_nonan)
qed

section \<open>Percentiles\<close>

lemma round_cast_mono:
  assumes "x \<le> y" "f_ok x" "f_ok y" "f_of 0 \<le> x"
  shows "f_to_u64 (f_round x) \<le> f_to_u64 (f_round y)"
proof -
  have y: "f_of 0 \<le> y" using assms(1,4) f_le_trans by blast
  from assms(4) show ?thesis
  proof (cases rule: f_nonnegE)
    case 1
    then show ?thesis using assms(1) by (cases y) (auto simp: f_ops)
  next
    case 2
    then show ?thesis by simp
  next
    case (3 a)
    from y show ?thesis
    proof (cases rule: f_nonnegE)
      case (3 b)
      with \<open>x = Fin False a\<close> assms have "a \<le> b" by (simp add: f_ops)
      then have "nat \<lfloor>a + 1 / 2\<rfloor> \<le> nat \<lfloor>b + 1 / 2\<rfloor>" by (intro nat_mono floor_mono) simp
      then show ?thesis using \<open>x = Fin False a\<close> 3 by (simp add: min.coboundedI2)
    qed (use 3 assms in \<open>auto simp: f_ops\<close>)
  qed
qed

lemma mul_proportion_mono:
  assumes "f_of 0 \<le> p" "p \<le> q" "is_finite q" "n \<le> 2 ^ 53"
  shows "f_of_nat n * p \<le> f_of_nat n * q \<and> f_of 0 \<le> f_of_nat n * p"
proof -
  obtain t b where q: "q = Fin t b" using assms(3) by (cases q) auto
  with assms(1,2) have "is_finite p" using f_between_finite by blast
  then obtain s a where p: "p = Fin s a" by (cases p) auto
  have fin: "is_finite (f_of_nat n)" using assms(4) by (rule f_of_nat_finite)
  have nn: "f_of 0 \<le> f_of_nat n * p" using assms(1) \<open>is_finite p\<close> fin by (intro f_mul_nonneg f_of_nat_nonneg)
  show ?thesis
  proof (cases "n = 0")
    case True
    then show ?thesis unfolding p q by (simp add: f_of_nat_def f_ops)
  next
    case False
    then have "f_of 0 < f_of_nat n" using assms(4) by (simp add: f_of_nat_small f_ops)
    then have "p * f_of_nat n \<le> q * f_of_nat n" using assms(1,2) fin by (intro f_mul_mono)
    then show ?thesis using nn by (simp only: f_mul_commute)
  qed
qed

lemma percentile_index_mono:
  assumes "f_of 0 \<le> p" "p \<le> q" "is_finite q" "n \<le> 2 ^ 53"
  shows "percentile_index n p \<le> percentile_index n q"
  unfolding percentile_index_def
  using mul_proportion_mono [OF assms(1-3), of "saturating_sub n 1"] assms(4)
  by (intro round_cast_mono) (auto simp: rust_int)

lemma percentile_index_less:
  assumes "proportion p" "0 < n" "n \<le> 2 ^ 53"
  shows "percentile_index n p < n"
proof -
  have "percentile_index n p \<le> percentile_index n (f_of 1)"
    using assms by (intro percentile_index_mono) (auto simp: proportion_def)
  also have "\<dots> \<le> n - 1"
  proof -
    obtain k where k: "n = Suc k" using assms(2) by (cases n) auto
    have "f_of_nat k * f_of 1 = f_of_nat k" using assms(3) k by (simp add: f_of_nat_small f_ops f_mk_nat)
    moreover have "\<lfloor>rat_of_nat k + 1 / 2\<rfloor> = int k" by (simp add: floor_eq_iff)
    ultimately show ?thesis
      using assms(3) by (simp add: k percentile_index_def rust_int f_of_nat_small del: f_of_1)
  qed
  finally show ?thesis using assms(2) by linarith
qed

lemma percentile_mono:
  assumes "sorted v" "v \<noteq> []" "length v \<le> 2 ^ 53" "0 \<le> a" "a \<le> b" "b \<le> 1"
  shows "percentile v (f_of a) \<le> percentile v (f_of b) \<and> percentile v (f_of b) \<in> set v"
proof -
  have p: "proportion (f_of a)" "proportion (f_of b)" using assms by (auto intro!: proportion_of)
  have "percentile_index (length v) (f_of a) \<le> percentile_index (length v) (f_of b)"
    using assms p by (intro percentile_index_mono f_of_mono) (auto simp: proportion_def proportion_finite)
  moreover note p [THEN percentile_index_less, of "length v"]
  ultimately show ?thesis using assms(1-3) by (auto simp: percentile_def sorted_nth_mono)
qed

section \<open>Grouping\<close>

lemma group_fold:
  assumes "bt_ok m"
  shows "bt_ok (foldl (\<lambda>m x. bt_update (k x) d (\<lambda>v. f v x) m) m xs) \<and>
   map_of (foldl (\<lambda>m x. bt_update (k x) d (\<lambda>v. f v x) m) m xs) c =
     (if c \<in> k ` set xs
      then Some (foldl f (case map_of m c of None \<Rightarrow> d | Some v \<Rightarrow> v) (filter (\<lambda>x. k x = c) xs))
      else map_of m c)"
  using assms
proof (induction xs arbitrary: m)
  case (Cons x xs)
  have "c \<notin> k ` set xs \<Longrightarrow> filter (\<lambda>x. k x = c) xs = []" by (auto simp: filter_empty_conv)
  with Cons.IH [of "bt_update (k x) d (\<lambda>v. f v x) m"] Cons.prems show ?case
    by (auto simp: map_of_bt_update)
qed simp

lemma foldl_snoc_map: "foldl (\<lambda>vs x. vs @ [g x]) ys xs = ys @ map g xs"
  by (induction xs arbitrary: ys) auto

lemma waits_by_class_spec:
  "bt_ok (waits_by_class capacity ews) \<and>
   map_of (waits_by_class capacity ews) c =
     (if c \<in> (\<lambda>(e, w). ev_service_class e) ` set ews
      then Some (map (\<lambda>(e, w). wait_ms capacity e w) (filter (\<lambda>(e, w). ev_service_class e = c) ews)) else None)"
  using group_fold [of "[]" "\<lambda>x. ev_service_class (fst x)" "[]"
      "\<lambda>vs x. vs @ [wait_ms capacity (fst x) (snd x)]" ews c]
  by (simp add: waits_by_class_def case_prod_unfold foldl_snoc_map)

section \<open>The report\<close>

lemma replay_Inr:
  assumes "replay events capacity cost inc = Inr r"
  defines "ordered \<equiv> sort_key timestamp_ms events"
  shows "events \<noteq> [] \<and> is_finite capacity \<and> \<not> capacity \<le> f_of 0"
    and "baseline_throttle_rate r = share_of is_throttled ordered"
    and "projected_throttle_rate r =
      projected_rate (peak_effective_demand r) capacity (share_of is_throttled ordered) (share_of is_queueable ordered)"
    and "rep_classes r = map (\<lambda>(name, waits). (name, class_report_of name waits))
      (waits_by_class capacity (zip ordered (map event_work ordered)))"
    and "capacity_headroom r = f_max (capacity - average_effective_demand r) (f_of 0)"
    and "average_effective_demand r = f_sum (map event_work ordered) /
      f_max (f_of_nat (wrapping_sub (max (timestamp_ms (last ordered)) (wrapping_add (timestamp_ms (hd ordered)) 1))
        (timestamp_ms (hd ordered))) / f_of 1000) (f_of 1)"
  using assms by (auto simp: replay_def Let_def split: if_splits)

lemma f_of_u64_finite: "n < 2 ^ 64 \<Longrightarrow> is_finite (f_of_nat n)"
proof -
  assume "n < 2 ^ 64"
  then have "f_of_nat n \<le> f_of_nat (2 ^ 64)" by (intro f_of_nat_mono) simp
  moreover have "f_of_nat (2 ^ 64) = Fin False (pow2 64)"
    using round64_pow2 [of 64] pow2_lt_bound [of 64] by (simp add: f_of_nat_def f_of_def f_mk_eq pow2_def)
  ultimately show ?thesis using f_between_finite f_of_nat_nonneg by metis
qed

lemma duration_finite:
  assumes "n < 2 ^ 64"
  shows "is_finite (f_max (f_of_nat n / f_of 1000) (f_of 1)) \<and> f_of 1 \<le> f_max (f_of_nat n / f_of 1000) (f_of 1)"
proof -
  have "f_of_nat n \<le> f_of_nat (2 ^ 64)" using assms by (intro f_of_nat_mono) simp
  moreover have "f_of_nat (2 ^ 64) = Fin False (pow2 64)"
    using round64_pow2 [of 64] pow2_lt_bound [of 64] by (simp add: f_of_nat_def f_of_def f_mk_eq pow2_def)
  ultimately obtain s a where a: "f_of_nat n = Fin s a" "\<bar>a\<bar> \<le> pow2 64" "\<not> s \<or> a = 0"
    using f_of_nat_nonneg [of n] by (cases "f_of_nat n") (auto simp: f_ops split: if_splits)
  then have m: "\<bar>a / 1000\<bar> \<le> pow2 64" by simp
  obtain r where "f_mk s \<bar>a / 1000\<bar> = Fin s r"
    using f_mk_between [of 0 "\<bar>a / 1000\<bar>" "pow2 64" s] m round64_pow2 [of 64] pow2_lt_bound [of 64] by auto
  then have "f_mk s (a / 1000) = Fin s r" unfolding f_mk_abs .
  then have "is_finite (f_of_nat n / f_of 1000)" using a(1) by (simp add: f_ops)
  then have "is_finite (f_max (f_of_nat n / f_of 1000) (f_of 1))" by (simp add: f_max_def)
  moreover have "f_of 1 \<le> f_max (f_of_nat n / f_of 1000) (f_of 1)" by (rule f_max_ge) simp
  ultimately show ?thesis by blast
qed

lemma f_sum_work_nonneg: "f_of 0 \<le> f_sum (map event_work es)"
  by (rule f_sum_nonneg) (auto simp: event_work_def simp del: f_of_0)

lemma headroom_bounds:
  assumes "is_finite capacity" "f_ok capacity" "f_of 0 < capacity" "f_of 0 \<le> avg"
  shows "f_of 0 \<le> f_max (capacity - avg) (f_of 0) \<and> f_max (capacity - avg) (f_of 0) \<le> capacity"
proof (cases "is_finite avg")
  case True
  then have "capacity - avg \<le> capacity" using assms by (intro f_diff_le) auto
  then have "f_max (capacity - avg) (f_of 0) \<le> capacity"
    using assms(3) by (auto simp: f_max_def f_less_imp_le simp del: f_of_0)
  moreover have "f_of 0 \<le> f_max (capacity - avg) (f_of 0)" by (rule f_max_ge) simp
  ultimately show ?thesis by blast
next
  case False
  then have "avg = Infty False" using assms(4) by (cases avg) (auto simp: f_ops)
  then show ?thesis using assms(1,3) by (cases capacity) (auto simp: f_max_def f_ops)
qed

lemma total_requests:
  "sum_list (map (\<lambda>(name, waits). length waits) (waits_by_class capacity ews)) = length ews"
proof -
  let ?f = "\<lambda>(name :: string, waits :: nat list). length waits"
  have step: "sum_list (map ?f (bt_update k [] (\<lambda>vs. vs @ [x]) m)) = Suc (sum_list (map ?f m))" if "bt_ok m" for k x m
    using that by (cases "map_of m k") (simp_all add: bt_update_def bt.total_put_new bt.total_put_old bt.total_del)
  have "bt_ok m \<Longrightarrow> sum_list (map ?f (foldl (\<lambda>m (e, w). bt_update (ev_service_class e) [] (\<lambda>vs. vs @ [wait_ms capacity e w]) m) m xs))
      = sum_list (map ?f m) + length xs" for m xs
    by (induction xs arbitrary: m) (auto simp: step)
  from this [of "[]" ews] show ?thesis by (simp add: waits_by_class_def)
qed

lemma sort_key_empty: "sort_key f xs = [] \<longleftrightarrow> xs = []"
  by (metis length_0_conv length_sort)

lemma zip_map_self: "zip xs (map g xs) = map (\<lambda>x. (x, g x)) xs"
  by (induction xs) auto

lemma class_waits:
  fixes events :: "trace_event list"
  defines "ordered \<equiv> sort_key timestamp_ms events"
  shows "map_of (waits_by_class capacity (zip ordered (map event_work ordered))) c =
     (if c \<in> ev_service_class ` set events
      then Some (map (\<lambda>e. wait_ms capacity e (event_work e)) (filter (\<lambda>e. ev_service_class e = c) ordered)) else None)"
  unfolding zip_map_self waits_by_class_spec [THEN conjunct2]
  by (simp add: ordered_def filter_map comp_def image_image)

lemma class_report_ordered:
  assumes "waits \<noteq> []" "length waits \<le> 2 ^ 53"
  shows "queue_p50_ms (class_report_of c waits) \<le> queue_p95_ms (class_report_of c waits) \<and>
    queue_p95_ms (class_report_of c waits) \<le> queue_p99_ms (class_report_of c waits) \<and>
    queue_p99_ms (class_report_of c waits) \<in> set waits"
  using percentile_mono [of "sort waits" "1 / 2" "95 / 100"] percentile_mono [of "sort waits" "95 / 100" "99 / 100"] assms
  by (simp add: class_report_of_def Let_def sort_key_empty)

lemma class_report_violations:
  "deadline_violations (class_report_of c waits) = length (filter (\<lambda>v. deadline_for c < v) waits) \<and>
   cr_requests (class_report_of c waits) = length waits"
  by (simp add: class_report_of_def Let_def filter_sort)

section \<open>Properties\<close>

text \<open>
  A report of a trace whose timestamps are 64-bit numbers has an observed and a projected throttling rate
  between 0 and 1, whatever the demand, and a headroom between zero and the configured capacity.
\<close>

theorem replay_rates_bounded:
  assumes "replay events capacity cost inc = Inr r" "length events \<le> 2 ^ 53" "f_ok capacity"
    and "\<forall>e \<in> set events. timestamp_ms e < 2 ^ 64"
  shows "f_of 0 \<le> baseline_throttle_rate r \<and> baseline_throttle_rate r \<le> f_of 1 \<and>
    f_of 0 \<le> projected_throttle_rate r \<and> projected_throttle_rate r \<le> f_of 1 \<and>
    f_of 0 \<le> capacity_headroom r \<and> capacity_headroom r \<le> capacity"
proof -
  note r = replay_Inr [OF assms(1)]
  let ?o = "sort_key timestamp_ms events"
  have ne: "?o \<noteq> []" "length ?o \<le> 2 ^ 53" using r(1) assms(2) by (simp_all add: sort_key_empty)
  then have "proportion (share_of p ?o)" for p by (rule share_proportion)
  then have rates: "proportion (baseline_throttle_rate r)" "proportion (projected_throttle_rate r)"
    unfolding r(2,3) by (auto intro: projected_proportion)
  have cap: "f_of 0 < capacity" using r(1) by (cases capacity) (auto simp: f_ops split: if_splits)
  have "last ?o \<in> set events" using ne last_in_set [of ?o] by simp
  then have "timestamp_ms (last ?o) < 2 ^ 64" using assms(4) by blast
  then have "wrapping_sub (max (timestamp_ms (last ?o)) (wrapping_add a 1)) b < 2 ^ 64" for a b
    by (auto simp: rust_int)
  note d = duration_finite [OF this]
  have "f_of 0 \<le> average_effective_demand r"
    unfolding r(6) using d f_less_le_trans [of "f_of 0" "f_of 1"]
    by (intro f_div_nonneg f_sum_work_nonneg) (auto simp: f_ops)
  then show ?thesis
    using rates headroom_bounds [of capacity] cap r(1) assms(3) unfolding proportion_def r(5) by blast
qed

text \<open>
  The classes of a report are those of the trace, in order and once each; each counts the events of its class,
  together they count every event; the three queueing percentiles increase, and the deadline violations
  are at most the requests and not zero when the 99th percentile is past the deadline.
\<close>

theorem class_reports_partition:
  assumes "replay events capacity cost inc = Inr r" "length events \<le> 2 ^ 53"
  shows "bt_ok (rep_classes r) \<and> fst ` set (rep_classes r) = ev_service_class ` set events \<and>
    sum_list (map (\<lambda>(name, c). cr_requests c) (rep_classes r)) = length events \<and>
    (\<forall>(name, c) \<in> set (rep_classes r).
       cr_requests c = length (filter (\<lambda>e. ev_service_class e = name) events) \<and>
       queue_p50_ms c \<le> queue_p95_ms c \<and> queue_p95_ms c \<le> queue_p99_ms c \<and>
       deadline_violations c \<le> cr_requests c \<and>
       (deadline_for name < queue_p99_ms c \<longrightarrow> 0 < deadline_violations c))"
proof -
  let ?o = "sort_key timestamp_ms events"
  let ?z = "zip ?o (map event_work ?o)"
  let ?w = "waits_by_class capacity ?z"
  note r = replay_Inr(4) [OF assms(1)]
  have ok: "bt_ok ?w" using waits_by_class_spec by blast
  have keys: "fst ` set ?w = ev_service_class ` set events"
    using class_waits [of capacity events] by (auto simp: dom_map_of_conv_image_fst [symmetric] split: if_splits)
  have each: "cr_requests c = length (filter (\<lambda>e. ev_service_class e = name) events) \<and>
       queue_p50_ms c \<le> queue_p95_ms c \<and> queue_p95_ms c \<le> queue_p99_ms c \<and> deadline_violations c \<le> cr_requests c \<and>
       (deadline_for name < queue_p99_ms c \<longrightarrow> 0 < deadline_violations c)"
    if mem: "(name, c) \<in> set (rep_classes r)" for name c
  proof -
    obtain waits where w: "(name, waits) \<in> set ?w" "c = class_report_of name waits" using mem unfolding r by auto
    then have "map_of ?w name = Some waits" using ok bt_ok_distinct by fastforce
    then have n: "name \<in> ev_service_class ` set events"
      and l: "waits = map (\<lambda>e. wait_ms capacity e (event_work e)) (filter (\<lambda>e. ev_service_class e = name) ?o)"
      using class_waits [of capacity events name] by (auto split: if_splits)
    have len: "length waits = length (filter (\<lambda>e. ev_service_class e = name) events)" by (simp add: l filter_sort)
    have "waits \<noteq> []" using n by (auto simp: l filter_empty_conv)
    moreover have "length waits \<le> 2 ^ 53" using assms(2) len length_filter_le le_trans by metis
    ultimately have q: "queue_p50_ms c \<le> queue_p95_ms c" "queue_p95_ms c \<le> queue_p99_ms c" "queue_p99_ms c \<in> set waits"
      using class_report_ordered [of waits name] w(2) by blast+
    have v: "deadline_violations c = length (filter (\<lambda>v. deadline_for name < v) waits)" "cr_requests c = length waits"
      using class_report_violations [of name waits] w(2) by blast+
    have "0 < deadline_violations c" if "deadline_for name < queue_p99_ms c"
      using q(3) that by (auto simp: v(1) filter_empty_conv)
    with q v len show ?thesis using length_filter_le [of _ waits] by metis
  qed
  have "sum_list (map (\<lambda>(name, c). cr_requests c) (rep_classes r)) = length events"
    using total_requests [of capacity ?z] by (simp add: r class_report_violations comp_def case_prod_unfold)
  moreover have "bt_ok (rep_classes r)" using ok by (simp add: r bt_ok_def comp_def case_prod_unfold)
  moreover have "fst ` set (rep_classes r) = ev_service_class ` set events" using keys by (simp add: r image_image case_prod_unfold)
  ultimately show ?thesis using each by blast
qed

text \<open>
  C39.  Two orders of one trace with distinct timestamps give the same report up to the fairness index.
\<close>

theorem replay_order_irrelevant:
  assumes "mset events' = mset events" "distinct (map timestamp_ms events)"
    and "replay events capacity cost inc = Inr r"
  shows "\<exists>r'. replay events' capacity cost inc = Inr r' \<and>
    r' = r\<lparr>fairness_jain_index := fairness_jain_index r'\<rparr>"
proof -
  have s: "set events' = set events" using assms(1) by (rule mset_eq_setD)
  have "distinct (map timestamp_ms events')" using assms(1,2) by (metis mset_map mset_eq_imp_distinct_iff)
  then have "sort_key timestamp_ms events' = sort_key timestamp_ms events"
    using assms(2) s
    by (intro map_sorted_distinct_set_unique [where f = timestamp_ms])
      (simp_all add: distinct_map distinct_sort)
  moreover have "events' = [] \<longleftrightarrow> events = []" using s by auto
  ultimately show ?thesis using assms(3) by (auto simp: replay_def Let_def split: if_splits)
qed

text \<open>One event of tenant \<open>b\<close> and two of tenant \<open>a\<close>, with the same work in total.\<close>

definition sample_event :: "nat \<Rightarrow> string \<Rightarrow> nat \<Rightarrow> trace_event" where
  "sample_event ts who tokens =
     \<lparr>timestamp_ms = ts, ev_provider = [], ev_model = [], ev_pool = [], ev_application = ''default'',
      ev_tenant = who, ev_service_class = ''standard'', ev_input_tokens = tokens, ev_cached_tokens = 0,
      requested_max_output = 0, actual_output = 0, latency_ms = 0, ev_status = 200, ev_retry_after_ms = 0,
      throttled = False\<rparr>"

definition sorted_trace :: "trace_event list" where
  "sorted_trace = [sample_event 0 ''a'' 5, sample_event 1 ''a'' 5, sample_event 2 ''b'' 10]"

lemma sorted_trace_fairness: "jain (map snd (tenant_work sorted_trace sorted_trace)) = f_of 1"
  by code_simp

lemma rotated_trace_fairness: "jain (map snd (tenant_work sorted_trace (rotate 2 sorted_trace))) = f_of (8 / 10)"
  by code_simp



section \<open>Witnesses\<close>

lemma sorted_trace_replay:
  obtains r where "replay sorted_trace (f_of 100) None None = Inr r"
  by (auto simp: replay_def Let_def sorted_trace_def f_ops)

theorem replay_rates_bounded_witness:
  "\<exists>r. replay sorted_trace (f_of 100) None None = Inr r \<and> projected_throttle_rate r \<le> f_of 1"
proof -
  obtain r where r: "replay sorted_trace (f_of 100) None None = Inr r" by (rule sorted_trace_replay)
  have "projected_throttle_rate r \<le> f_of 1"
    using replay_rates_bounded [OF r] by (simp add: sorted_trace_def sample_event_def del: f_of_0 f_of_1 f_of_numeral)
  with r show ?thesis by blast
qed

theorem class_reports_partition_witness:
  "\<exists>r. replay sorted_trace (f_of 100) None None = Inr r \<and> fst ` set (rep_classes r) = {''standard''}"
proof -
  obtain r where r: "replay sorted_trace (f_of 100) None None = Inr r" by (rule sorted_trace_replay)
  have "fst ` set (rep_classes r) = {''standard''}"
    using class_reports_partition [OF r] by (auto simp: sorted_trace_def sample_event_def)
  with r show ?thesis by blast
qed

theorem replay_order_irrelevant_witness:
  "\<exists>r r'. replay sorted_trace (f_of 100) None None = Inr r \<and>
     replay (rotate 2 sorted_trace) (f_of 100) None None = Inr r' \<and>
     r' = r\<lparr>fairness_jain_index := fairness_jain_index r'\<rparr>"
proof -
  obtain r where r: "replay sorted_trace (f_of 100) None None = Inr r" by (rule sorted_trace_replay)
  have "mset (rotate 2 sorted_trace) = mset sorted_trace" "distinct (map timestamp_ms sorted_trace)"
    by (simp_all add: sorted_trace_def sample_event_def numeral_2_eq_2)
  from replay_order_irrelevant [OF this r] r show ?thesis by blast
qed

end
