(* ===== verification/Provider_Protocol_Properties.thy ===== *)
theory Provider_Protocol_Properties
  imports Provider_Protocol "HOL-Library.Sublist"
begin

text \<open>
  What an external adapter receives and what of its answer reaches the client: headers, transports,
  estimates, and the stream of a dispatch, delivered in order up to its end or to the first error, which
  is not reported.
\<close>

section \<open>Transports\<close>

lemma loopback_only:
  "connect t (LoopbackEndpoint uri) = Inr ch \<Longrightarrow>
     \<exists>h. uri_host t uri = Inr (Some h) \<and> is_loopback h"
  by (auto simp: connect_def connect_loopback_def res_then_Inr split: option.splits if_splits)

lemma tls_identity_pair:
  "connect t (TlsEndpoint uri domain ca cert key) = Inr ch \<Longrightarrow> cert = None \<longleftrightarrow> key = None"
  by (auto simp: connect_def connect_tls_def split: if_splits)

text \<open>
  The parser returns an IPv6 host in brackets, so the bare \<^verbatim>\<open>::1\<close> of the list admits no URI and the IPv6 loopback
  address is refused.
\<close>

lemma ipv6_loopback_refused:
  "uri_host t uri = Inr (Some ''[::1]'') \<Longrightarrow>
     connect t (LoopbackEndpoint uri) = Inl (Provider ''plaintext external adapters are restricted to loopback'')"
  by (simp add: connect_def connect_loopback_def res_then_def protocol_def is_loopback_def)

section \<open>Estimates and headers\<close>

text \<open>The checks of the client and of the SDK differ in one point: cached tokens beyond the input.\<close>

lemma estimate_from_wire_validated:
  "estimate_from_wire v = Inr e \<Longrightarrow>
     validate_estimate e = (if w_input_tokens v < w_cached_input_tokens v
       then Inl (Provider ''cached input cannot exceed input tokens'') else Inr ())"
  by (auto simp: estimate_from_wire_def validate_estimate_def split: if_splits)

lemma foldl_upd_last:
  "foldl (\<lambda>m (n, v). m(n \<mapsto> v)) m xs n =
     (case map_of (rev xs) n of None \<Rightarrow> m n | Some v \<Rightarrow> Some v)"
  by (induction xs arbitrary: m) (auto simp: map_add_def split: option.splits)

lemma safe_headers_withheld: "withheld n \<Longrightarrow> safe_headers to_str hs n = None"
  by (auto simp: safe_headers_def foldl_upd_last map_filter_def map_of_eq_None_iff split: option.splits)

lemma safe_headers_single:
  "\<not> withheld n \<Longrightarrow> safe_headers to_str [(n, v)] = (case to_str v of None \<Rightarrow> Map.empty | Some s \<Rightarrow> [n \<mapsto> s])"
  by (simp add: safe_headers_def map_filter_simps split: option.splits)

section \<open>Streams\<close>

text \<open>The messages of a stream up to the first that ends it, or to the first error.\<close>

fun delivered :: "('e + dispatch_response) list \<Rightarrow> dispatch_response list" where
  "delivered [] = []"
| "delivered (Inl e # ms) = []"
| "delivered (Inr c # ms) = c # (if dr_end c then [] else delivered ms)"

definition chunks :: "dispatch_response list \<Rightarrow> string list" where
  "chunks cs = filter (\<lambda>d. d \<noteq> []) (map dr_data cs)"

lemma chunks_Cons: "chunks (c # cs) = (if dr_data c \<noteq> [] then [dr_data c] else []) @ chunks cs"
  by (simp add: chunks_def)

lemma forward_all:
  "\<forall>n. open_for n \<Longrightarrow>
     forward open_for ms (body, usage) =
       (body @ chunks (delivered ms), foldl (\<lambda>u c. take_usage (dr_usage c) u) usage (delivered ms))"
  by (induction open_for ms "(body, usage)" arbitrary: body usage rule: forward.induct)
    (auto simp: Let_def chunks_def)

lemma forward_prefix: "prefix (fst (forward open_for ms (body, usage))) (body @ chunks (delivered ms))"
proof (induction open_for ms "(body, usage)" arbitrary: body usage rule: forward.induct)
  case (3 open_for c ms body usage)
  let ?b = "if dr_data c \<noteq> [] then body @ [dr_data c] else body"
  show ?case
  proof (cases "(dr_data c \<noteq> [] \<and> \<not> open_for (length body)) \<or> dr_end c")
    case True
    then show ?thesis by (auto simp: Let_def chunks_def)
  next
    case False
    then have "prefix (fst (forward open_for ms (?b, take_usage (dr_usage c) usage))) (?b @ chunks (delivered ms))"
      by (intro 3) auto
    moreover have "?b @ chunks (delivered ms) = body @ chunks (delivered (Inr c # ms))"
      using False by (simp add: chunks_Cons)
    ultimately show ?thesis using False by (simp add: Let_def)
  qed
qed auto

lemma forward_error: "forward open_for (map Inr cs @ Inl e # tail) st = forward open_for (map Inr cs) st"
proof (induction cs arbitrary: st)
  case Nil
  then show ?case by simp
next
  case (Cons c cs)
  then show ?case by (cases st) (simp add: Let_def)
qed

lemma dispatch_stream:
  "adapter_dispatch to_str (\<lambda>_. Inr (Inr first # rest)) status_code header_name header_value open_for rq =
     stream_response status_code header_name header_value open_for first rest"
  by (simp add: adapter_dispatch_def res_then_def protocol_def)

lemma stream_response_Inr:
  assumes "stream_response status_code header_name header_value open_for first rest = Inr r"
  shows "(pr_body r, pr_usage r) =
    (if dr_data first \<noteq> [] \<and> \<not> open_for 0 then ([], take_usage (dr_usage first) None)
     else forward open_for rest (if dr_data first \<noteq> [] then [dr_data first] else [], take_usage (dr_usage first) None))"
  using assms
  by (cases "dr_usage first") (auto simp: stream_response_def res_then_Inr take_usage_def Let_def)

section \<open>Properties\<close>


text \<open>
  C35.  An error in the middle of an adapter's stream is not reported: the response, its body and its usage are
  those of a stream that ended there without an error.
\<close>

theorem adapter_error_hidden:
  "adapter_dispatch to_str (\<lambda>_. Inr (Inr first # map Inr cs @ Inl e # tail)) status_code header_name header_value open_for rq =
   adapter_dispatch to_str (\<lambda>_. Inr (Inr first # map Inr cs)) status_code header_name header_value open_for rq"
  unfolding dispatch_stream stream_response_def forward_error ..

section \<open>Witnesses\<close>

definition sample_chunk :: "string \<Rightarrow> bool \<Rightarrow> dispatch_response" where
  "sample_chunk d e = \<lparr>dr_status = 200, dr_headers = [], dr_data = d, dr_end = e, dr_usage = None\<rparr>"

definition sample_request :: "string proxy_request" where
  "sample_request = \<lparr>rq_method = ''POST'', rq_uri = ''/v1/chat'', rq_headers = [], rq_body = ''x''\<rparr>"


end
