(* ===== verification/Example_Adapter.thy ===== *)
theory Example_Adapter
  imports Provider_Protocol_Properties F64_Sum
begin

text \<open>
  The conformance fixture of the adapter protocol, \<^verbatim>\<open>crates/provider-protocol/src/bin/example_adapter.rs\<close>, and what
  the client makes of its answers.  The JSON text of a completion for a request id is an argument.
\<close>

section \<open>The adapter\<close>

definition example_estimate :: "estimate_request \<Rightarrow> string + wire_estimate" where
  "example_estimate rq =
     (let input = max (length (eq_body rq) div 4) 1
      in Inr \<lparr>w_input_tokens = input, w_output_tokens = 32, w_cached_input_tokens = 0,
           w_normalized_units = f_of_nat (input + 32), w_confidence = f32_of (1 / 2),
           w_source = ''approximation'', w_cost_coefficient = f_of 1\<rparr>)"

text \<open>The task sends one message, which ends the stream.\<close>

definition example_dispatch :: "(string \<Rightarrow> string) \<Rightarrow> dispatch_request_msg \<Rightarrow> string + (string + dispatch_response) list" where
  "example_dispatch completion rq =
     Inr [Inr \<lparr>dr_status = 200, dr_headers = [(''content-type'', ''application/json'')],
            dr_data = completion (dq_request_id rq), dr_end = True,
            dr_usage = Some \<lparr>w_input_tokens = 8, w_output_tokens = 6, w_cached_input_tokens = 0,
              w_normalized_units = f_of 14, w_confidence = f32_of 1,
              w_source = ''provider_metadata'', w_cost_coefficient = f_of 1\<rparr>\<rparr>]"

definition example_health :: "unit \<Rightarrow> string + bool \<times> string" where
  "example_health _ = Inr (True, ''example adapter ready'')"

section \<open>The client's view\<close>

text \<open>
  Every estimate of the adapter is accepted by the client and passes the checks of the SDK, for bodies of fewer
  than \<open>2 ^ 54\<close> bytes.
\<close>

theorem example_estimate_accepted:
  assumes "length (rq_body rq) < 2 ^ 54"
  shows "\<exists>e. adapter_estimate to_str example_estimate rq = Inr e \<and> validate_estimate e = Inr () \<and>
    source e = Approximation \<and> f_val (normalized_units e) = of_nat (max (length (rq_body rq) div 4) 1 + 32)"
proof -
  let ?i = "max (length (rq_body rq) div 4) 1"
  have "length (rq_body rq) div 4 \<le> 2 ^ 54 div 4" using assms by (intro div_le_mono) simp
  then have n: "?i + 32 \<le> 2 ^ 53" by simp
  note v = f_of_nat_finite [OF n] f_of_nat_val [OF n]
  have z: "\<not> f_of_nat (?i + 32) < f_of 0"
    unfolding f_of_nat_small [OF n] by (simp add: f_ops)
  have c: "f32_of 0 \<le> f32_of (1 / 2)" "f32_of (1 / 2) \<le> f32_of 1" by code_simp+
  show ?thesis
    using v z c by (simp add: adapter_estimate_def example_estimate_def res_then_def protocol_def Let_def
      estimate_from_wire_def validate_estimate_def source_from_wire_def)
qed

text \<open>
  A dispatched request is answered with the completion for its own id and the reported usage, when the client takes
  the body and the HTTP types accept the status and the one header.
\<close>

theorem example_dispatch_delivered:
  assumes "completion (request_id_of to_str (rq_headers rq)) \<noteq> []" "open_for 0" "status_code 200 = Inr 200"
    and "header_name ''content-type'' = Inr ''content-type''" "header_value ''application/json'' = Inr v"
  shows "\<exists>r. adapter_dispatch to_str (example_dispatch completion) status_code header_name header_value open_for rq = Inr r \<and>
    pr_status r = 200 \<and> pr_headers r = [(''content-type'', v)] \<and>
    pr_body r = [completion (request_id_of to_str (rq_headers rq))] \<and>
    map_option (\<lambda>u. (input_tokens u, output_tokens u, source u)) (pr_usage r) = Some (8, 6, ProviderMetadata)"
proof -
  have "is_finite (f_of 14)" "\<not> f_of 14 < f_of 0" "f32_of 0 \<le> f32_of 1" "f32_of 1 \<le> f32_of 1" by code_simp+
  then show ?thesis
    using assms by (simp add: adapter_dispatch_def example_dispatch_def stream_response_def res_then_def protocol_def
      header_map_def estimate_from_wire_def source_from_wire_def Let_def)
qed

lemma example_health_ok: "adapter_health example_health = Inr \<lparr>healthy = True, health_detail = ''example adapter ready''\<rparr>"
  by (simp add: adapter_health_def example_health_def res_then_def protocol_def)

end
