(* ===== verification/Fake_Provider.thy ===== *)
theory Fake_Provider
  imports Core
begin

text \<open>
  The finite provider used for development, \<^verbatim>\<open>crates/fake-provider/src/main.rs\<close>.  The handler is cut at its waits: a
  request is counted and takes a permit, its body is read, it sleeps or streams, and the permit goes back
  when its task ends, however it ends.  Reading the \<^verbatim>\<open>stream\<close> field of a JSON body is an argument.
\<close>

section \<open>The handler\<close>

record fake_app =
  fp_permits :: nat
  fp_latency :: duration
  fp_chunks :: nat
  fp_requests :: nat
  fp_throttles :: nat
  fp_failure_every :: nat

text \<open>The semaphore's constructor panics above its maximum, an eighth of the range of \<^verbatim>\<open>usize\<close>.\<close>

definition fake_new :: "nat \<Rightarrow> nat \<Rightarrow> nat \<Rightarrow> nat \<Rightarrow> fake_app option" where
  "fake_new concurrency latency_ms chunks_arg every =
     (if u64_max div 8 < concurrency then None
      else Some \<lparr>fp_permits = concurrency, fp_latency = latency_ms * 1000000, fp_chunks = chunks_arg,
             fp_requests = 0, fp_throttles = 0, fp_failure_every = every\<rparr>)"

datatype fake_body =
    ErrorJson string string
  | CompletionJson
  | PlainText string
  | PartialThenReset string
  | EventStream
  | EmptyBody

text \<open>A response with the headers the handler names itself; the content type of a body is the framework's.\<close>

record fake_response =
  fr_status :: nat
  fr_headers :: "(string \<times> string) list"
  fr_body :: fake_body

definition throttled :: "string \<Rightarrow> fake_response" where
  "throttled message =
     \<lparr>fr_status = 429, fr_headers = [(''retry-after'', ''1'')], fr_body = ErrorJson ''capacity_exhausted'' message\<rparr>"

text \<open>Up to the permit: a response, or none when the permit is taken.\<close>

definition infer_begin :: "string \<Rightarrow> fake_app \<Rightarrow> fake_response option \<times> fake_app" where
  "infer_begin mode app =
     (let sequence = wrapping_add (fp_requests app) 1;
          app = app\<lparr>fp_requests := sequence\<rparr>;
          counted = app\<lparr>fp_throttles := wrapping_add (fp_throttles app) 1\<rparr>
      in if mode = ''throttle'' then (Some (throttled ''forced deterministic throttle''), counted)
         else if 0 < fp_failure_every app \<and> fp_failure_every app dvd sequence
         then (Some \<lparr>fr_status = 503, fr_headers = [], fr_body = PlainText ''deterministic injected failure''\<rparr>, app)
         else if fp_permits app = 0
         then (Some (throttled ''deterministic fake provider is saturated''), counted)
         else (None, app\<lparr>fp_permits := fp_permits app - 1\<rparr>))"

text \<open>What a request with a permit is doing: reading its body, sleeping before a response, or streaming.\<close>

datatype fake_task =
    Reading string
  | Sleeping duration fake_response
  | Emitting duration nat

text \<open>
  After the body, absent when it is above one MiB: the response so far, if any, and the task that goes on with the
  permit, if any.
\<close>

definition duration_max :: duration where
  "duration_max = u64_max * 10 ^ 9 + 999999999"

definition stream_head :: fake_response where
  "stream_head = \<lparr>fr_status = 200, fr_headers = [(''content-type'', ''text/event-stream'')], fr_body = EventStream\<rparr>"

definition infer_body ::
  "(string \<Rightarrow> bool) \<Rightarrow> string \<Rightarrow> string option \<Rightarrow> fake_app \<Rightarrow> fake_response option \<times> fake_task option" where
  "infer_body stream_field mode body app =
     (case body of
        None \<Rightarrow> (Some \<lparr>fr_status = 413, fr_headers = [], fr_body = EmptyBody\<rparr>, None)
      | Some bytes \<Rightarrow>
          if mode = ''disconnect''
          then (Some \<lparr>fr_status = 200, fr_headers = [], fr_body = PartialThenReset ''partial''\<rparr>, None)
          else
            let latency = (if mode = ''slow'' then min (fp_latency app * 20) duration_max else fp_latency app)
            in if mode = ''malformed''
               then (None, Some (Sleeping latency \<lparr>fr_status = 200, fr_headers = [(''content-type'', ''application/json'')],
                      fr_body = PlainText ''{this-is-not-json''\<rparr>))
               else if \<not> stream_field bytes then (None, Some (Sleeping latency \<lparr>fr_status = 200, fr_headers = [], fr_body = CompletionJson\<rparr>))
               else (Some stream_head, Some (Emitting latency 0)))"

text \<open>One step of the stream: the text of chunk \<open>i\<close>, or nothing after the last.\<close>

definition emit_next :: "nat \<Rightarrow> nat \<Rightarrow> (string \<times> nat) option" where
  "emit_next n_chunks i =
     (if n_chunks \<le> i then None
      else Some (if i + 1 = n_chunks then ''data: [DONE]\<newline>\<newline>''
                 else ''data: {\"id\":\"fake\",\"choices\":[{\"delta\":{\"content\":\"chunk-'' @ nat_to_dec i @ '' \"}}]}\<newline>\<newline>'', i + 1))"

function emit_all :: "nat \<Rightarrow> nat \<Rightarrow> string list" where
  "emit_all n_chunks i = (case emit_next n_chunks i of None \<Rightarrow> [] | Some (text, j) \<Rightarrow> text # emit_all n_chunks j)"
  by auto
termination
  by (relation "measure (\<lambda>(n_chunks, i). n_chunks - i)") (auto simp: emit_next_def split: if_splits)

declare emit_all.simps [simp del]

definition fake_metrics :: "fake_app \<Rightarrow> string" where
  "fake_metrics app =
     ''fake_provider_requests_total '' @ nat_to_dec (fp_requests app) @ ''\<newline>fake_provider_throttles_total '' @
     nat_to_dec (fp_throttles app) @ ''\<newline>''"

section \<open>The server\<close>

text \<open>
  The tasks that hold a permit, stepping in any order.  A client may hang up at any time, which drops its task and
  the permit with it.
\<close>

datatype fake_event = Answered fake_response | Admitted | Read | Sent string | Ended | HungUp

abbreviation give_back :: "fake_app \<Rightarrow> fake_app" where
  "give_back app \<equiv> app\<lparr>fp_permits := fp_permits app + 1\<rparr>"

inductive fake_step ::
  "(string \<Rightarrow> bool) \<Rightarrow> fake_app \<times> fake_task list \<Rightarrow> fake_event \<Rightarrow> fake_app \<times> fake_task list \<Rightarrow> bool" where
  refuse: "infer_begin mode app = (Some r, app') \<Longrightarrow> fake_step sf (app, ts) (Answered r) (app', ts)"
| admit: "infer_begin mode app = (None, app') \<Longrightarrow> fake_step sf (app, ts) Admitted (app', Reading mode # ts)"
| read_end: "infer_body sf mode body app = (Some r, None) \<Longrightarrow>
    fake_step sf (app, us @ Reading mode # vs) (Answered r) (give_back app, us @ vs)"
| read_on: "infer_body sf mode body app = (None, Some t) \<Longrightarrow>
    fake_step sf (app, us @ Reading mode # vs) Read (app, us @ t # vs)"
| read_stream: "infer_body sf mode body app = (Some r, Some t) \<Longrightarrow>
    fake_step sf (app, us @ Reading mode # vs) (Answered r) (app, us @ t # vs)"
| wake: "fake_step sf (app, us @ Sleeping d r # vs) (Answered r) (give_back app, us @ vs)"
| emit: "emit_next (fp_chunks app) i = Some (text, j) \<Longrightarrow>
    fake_step sf (app, us @ Emitting d i # vs) (Sent text) (app, us @ Emitting d j # vs)"
| emit_end: "emit_next (fp_chunks app) i = None \<Longrightarrow>
    fake_step sf (app, us @ Emitting d i # vs) Ended (give_back app, us @ vs)"
| hang_up: "fake_step sf (app, us @ t # vs) HungUp (give_back app, us @ vs)"

inductive fake_reach :: "(string \<Rightarrow> bool) \<Rightarrow> fake_app \<Rightarrow> fake_app \<times> fake_task list \<Rightarrow> bool" where
  fresh: "fake_reach sf app (app, [])"
| step: "fake_reach sf app s \<Longrightarrow> fake_step sf s e s' \<Longrightarrow> fake_reach sf app s'"

section \<open>Properties\<close>

lemma infer_begin_permits:
  "infer_begin mode app = (r, app') \<Longrightarrow>
     fp_permits app = fp_permits app' + (if r = None then 1 else 0) \<and> fp_chunks app' = fp_chunks app \<and>
     fp_latency app' = fp_latency app \<and> fp_failure_every app' = fp_failure_every app"
  by (auto simp: infer_begin_def Let_def split: if_splits)

text \<open>
  Permits are neither lost nor made: in every reachable state the free ones and the open tasks together are
  the configured concurrency, and the length of the streams never changes.
\<close>

theorem fake_permits_conserved:
  "fake_reach sf app (app', ts) \<Longrightarrow> fp_permits app' + length ts = fp_permits app \<and> fp_chunks app' = fp_chunks app"
proof (induction sf app "(app', ts)" arbitrary: app' ts rule: fake_reach.induct)
  case (step sf app s e)
  obtain a us where s: "s = (a, us)" by (cases s)
  have "fp_permits a + length us = fp_permits app \<and> fp_chunks a = fp_chunks app" using step(2) s by simp
  with step(3) show ?case unfolding s
    by (cases rule: fake_step.cases) (auto dest: infer_begin_permits)
qed simp

text \<open>A request is refused for want of capacity only when as many tasks are open as the configuration allows.\<close>

theorem saturated_only_when_full:
  assumes "fake_reach sf app (app', ts)" "fst (infer_begin mode app') = Some (throttled ''deterministic fake provider is saturated'')"
  shows "length ts = fp_permits app"
proof -
  have "fp_permits app' = 0"
    using assms(2) by (auto simp: infer_begin_def Let_def throttled_def split: if_splits)
  then show ?thesis using fake_permits_conserved [OF assms(1)] by simp
qed

text \<open>A stream that is read to its end has the configured number of chunks, the end mark last and only there.\<close>

lemma emit_all_length: "i \<le> n_chunks \<Longrightarrow> length (emit_all n_chunks i) = n_chunks - i"
proof (induction n_chunks i rule: emit_all.induct)
  case (1 n_chunks i)
  then show ?case by (subst emit_all.simps) (auto simp: emit_next_def)
qed

lemma emit_all_nth:
  "k < n_chunks - i \<Longrightarrow> emit_all n_chunks i ! k = fst (the (emit_next n_chunks (i + k)))"
proof (induction n_chunks i arbitrary: k rule: emit_all.induct)
  case (1 n_chunks i)
  then have "emit_next n_chunks i \<noteq> None" by (simp add: emit_next_def)
  then obtain x j where e: "emit_next n_chunks i = Some (x, j)" by auto
  then have j: "j = i + 1" by (auto simp: emit_next_def split: if_splits)
  show ?case
  proof (cases k)
    case 0
    then show ?thesis by (subst emit_all.simps) (simp add: e)
  next
    case (Suc k')
    with 1 j e show ?thesis by (subst emit_all.simps) simp
  qed
qed

lemma done_mark_iff: "i < n_chunks \<Longrightarrow> fst (the (emit_next n_chunks i)) = ''data: [DONE]\<newline>\<newline>'' \<longleftrightarrow> i + 1 = n_chunks"
  by (simp add: emit_next_def)

theorem fake_stream_shape:
  "length (emit_all n_chunks 0) = n_chunks \<and>
   (\<forall>k < n_chunks. emit_all n_chunks 0 ! k = ''data: [DONE]\<newline>\<newline>'' \<longleftrightarrow> k + 1 = n_chunks)"
  using emit_all_length [of 0 n_chunks] emit_all_nth [of _ n_chunks 0] done_mark_iff by simp

end
