(* ===== verification/Startup.thy ===== *)
theory Startup
  imports Proxy Providers Provider_Protocol
begin

text \<open>
  \<^verbatim>\<open>AppState::build\<close> of \<^verbatim>\<open>crates/proxy/src/lib.rs\<close>: the identity resolver, the coordinator and a provider with a
  capacity model for every pool, put together into the state the request path starts from.  What the
  process finds around it (environment, network, files, credentials) is a record of functions.
\<close>

section \<open>Surroundings\<close>

text \<open>
  \<open>pf_valkey\<close> connects to the address and namespace; both backends come with their first state.  \<open>pf_login\<close>
  is the error of resolving a pool's credentials, \<open>pf_client\<close> and \<open>pf_http\<close> those of building the HTTP clients.
\<close>

record ('net, 'raw, 'key, 's, 'ep, 'ch) platform =
  pf_env :: "string \<Rightarrow> string option"
  pf_client :: "string option"
  pf_net :: "string \<Rightarrow> string + 'net"
  pf_url :: "string \<Rightarrow> string + url"
  pf_discover :: "url \<Rightarrow> identity_error + string"
  pf_from_jwk :: "'raw \<Rightarrow> string + 'key"
  pf_fetch :: "url \<Rightarrow> 'raw jwks_reply"
  pf_memory :: "'s coordinator_ops \<times> 's"
  pf_valkey :: "string \<Rightarrow> string \<Rightarrow> coordinator_error + 's coordinator_ops \<times> 's"
  pf_login :: "pool_config \<Rightarrow> core_error option"
  pf_http :: "string option"
  pf_transport :: "('ep, 'ch) transport"
  pf_coordinator_text :: "coordinator_error \<Rightarrow> string"

fun identity_text :: "identity_error \<Rightarrow> string" where
  "identity_text (IdConfiguration e) = ''identity configuration error: '' @ e"
| "identity_text (Jwks e) = ''cannot load OIDC keys: '' @ e"
| "identity_text AuthRequired = ''authentication is required''"
| "identity_text InvalidToken = ''invalid bearer token''"
| "identity_text (MissingClaim c) = ''verified token is missing required claim '' @ c"

section \<open>Parts\<close>

datatype 'ch pool_adapter = HttpAdapter http_provider | ExternalAdapter 'ch

definition build_coordinator ::
  "('net, 'raw, 'key, 's, 'ep, 'ch) platform \<Rightarrow> coordinator_config
     \<Rightarrow> core_error + ('s coordinator_ops \<times> 's) \<times> duration" where
  "build_coordinator pf cc =
     (case cc of
        CoordMemory \<Rightarrow> Inr (pf_memory pf, 300 * 10 ^ 9)
      | CoordValkey var ttl \<Rightarrow>
          (case pf_env pf var of
             None \<Rightarrow> Inl (Provider (''coordinator environment variable '' @ var @ '' is not set''))
           | Some address \<Rightarrow>
               (case pf_valkey pf address ''inferqos:v2'' of
                  Inl e \<Rightarrow> Inl (Provider (pf_coordinator_text pf e))
                | Inr (ops, s) \<Rightarrow>
                    (case op_healthy ops s of
                       Inl e \<Rightarrow> Inl (Provider (pf_coordinator_text pf e))
                     | Inr _ \<Rightarrow> Inr ((ops, s), ttl)))))"

fun endpoint_of :: "external_adapter_config \<Rightarrow> adapter_endpoint" where
  "endpoint_of (AdapterUnix path) = UnixEndpoint path"
| "endpoint_of (AdapterLoopback uri) = LoopbackEndpoint uri"
| "endpoint_of (AdapterTls uri domain ca cert key) = TlsEndpoint uri domain ca cert key"

text \<open>None is the panic of \<^verbatim>\<open>expect("validated external adapter")\<close>.\<close>

definition build_provider ::
  "('net, 'raw, 'key, 's, 'ep, 'ch) platform \<Rightarrow> pool_config \<Rightarrow> (core_error + 'ch pool_adapter) option" where
  "build_provider pf pool =
     (if pool_provider pool = ExternalGrpc
      then map_option (\<lambda>a. map_sum id ExternalAdapter (connect (pf_transport pf) (endpoint_of a))) (external_adapter pool)
      else Some (map_sum id HttpAdapter (from_config (pf_url pf) (pf_login pf pool) (pf_http pf) pool)))"

definition pool_runtime_of :: "pool_config \<Rightarrow> pool_runtime" where
  "pool_runtime_of pool =
     (let (m, s) = capacity_new (capacity_units pool) (initial_safety_factor pool)
      in \<lparr>rt_model = m, rt_capacity = s, rt_limit = capacity_units pool\<rparr>)"

fun build_pools ::
  "('net, 'raw, 'key, 's, 'ep, 'ch) platform \<Rightarrow> (string \<times> pool_config) list
     \<Rightarrow> (core_error + (string \<times> 'ch pool_adapter \<times> pool_runtime) list) option" where
  "build_pools pf [] = Some (Inr [])"
| "build_pools pf ((name, pool) # ps) =
     (case build_provider pf pool of
        None \<Rightarrow> None
      | Some (Inl e) \<Rightarrow> Some (Inl e)
      | Some (Inr p) \<Rightarrow> map_option (map_sum id (Cons (name, p, pool_runtime_of pool))) (build_pools pf ps))"

section \<open>The application\<close>

record ('net, 'key, 's, 'ch) application_start =
  start_identity :: "('net, 'key) identity_resolver"
  start_adapters :: "(string \<times> 'ch pool_adapter) list"
  start_env :: "'s proxy_env"
  start_state :: "'s app_state"

definition no_metrics :: metrics where
  "no_metrics = \<lparr>m_requests = 0, m_admitted = 0, m_queued = 0, m_rejected = 0, m_shadow_would_queue = 0,
     m_provider_throttles = 0, m_active = 0\<rparr>"

definition build ::
  "('net, 'raw, 'key, 's, 'ep, 'ch) platform \<Rightarrow> (string list \<Rightarrow> string list) \<Rightarrow> config
     \<Rightarrow> (core_error + ('net, 'key, 's, 'ch) application_start) option" where
  "build pf ord c =
     (case resolver_new (pf_client pf) (pf_net pf) (pf_url pf) (pf_discover pf) (pf_from_jwk pf) (pf_fetch pf) c of
        Inl e \<Rightarrow> Some (Inl (Provider (''identity initialization failed: '' @ identity_text e)))
      | Inr ident \<Rightarrow>
     (case build_coordinator pf (coordinator c) of
        Inl e \<Rightarrow> Some (Inl e)
      | Inr ((ops, s), ttl) \<Rightarrow>
          map_option (map_sum id (\<lambda>pools.
            \<lparr>start_identity = ident,
             start_adapters = map (\<lambda>(name, p, rt). (name, p)) pools,
             start_env = \<lparr>coord = ops,
               sched_cfg = default_config\<lparr>max_depth := total_queue_depth (limits c), max_bytes := total_queue_bytes (limits c)\<rparr>,
               lease_ttl = ttl, tenant_ord = ord, coordinator_text = pf_coordinator_text pf\<rparr>,
             start_state = \<lparr>app_config = c, app_pools = map (\<lambda>(name, p, rt). (name, rt)) pools,
               app_sched = scheduler_new, app_pending = [], app_decisions = [], draining = False,
               app_metrics = no_metrics, app_coordinator = s,
               app_inside = \<lparr>act_tenants = Map.empty, act_applications = Map.empty\<rparr>,
               mailbox = Map.empty, listening = {}\<rparr>\<rparr>))
          (build_pools pf (cfg_pools c))))"

end
