(* ===== verification/Startup_Properties.thy ===== *)
theory Startup_Properties
  imports Startup Config_Properties
begin

text \<open>
  Starting from a valid configuration: no panic, and a state that satisfies what the components assume.
\<close>

section \<open>Pools\<close>

lemma map_sum_Inr_iff: "map_sum f g x = Inr y \<longleftrightarrow> (\<exists>z. x = Inr z \<and> y = g z)"
  by (cases x) auto

lemma build_pools_total:
  "\<forall>(name, pool) \<in> set ps. pool_valid pool \<Longrightarrow> build_pools pf ps \<noteq> None"
  by (induction pf ps rule: build_pools.induct)
    (auto simp: build_provider_def pool_valid_def split: option.splits sum.splits)

lemma build_pools_Inr:
  "build_pools pf ps = Some (Inr rs) \<Longrightarrow>
     list_all2 (\<lambda>(name, pool) (n, p, rt). n = name \<and> rt = pool_runtime_of pool \<and>
       ((\<exists>ch. p = ExternalAdapter ch) \<longleftrightarrow> pool_provider pool = ExternalGrpc)) ps rs"
proof (induction pf ps arbitrary: rs rule: build_pools.induct)
  case (2 pf name pool ps)
  from "2.prems" obtain p where p: "build_provider pf pool = Some (Inr p)"
    by (auto split: option.splits sum.splits)
  with "2.prems" obtain rs' where r: "build_pools pf ps = Some (Inr rs')" "rs = (name, p, pool_runtime_of pool) # rs'"
    by (cases "build_pools pf ps"; cases "the (build_pools pf ps)") auto
  have "(\<exists>ch. p = ExternalAdapter ch) \<longleftrightarrow> pool_provider pool = ExternalGrpc"
    using p by (auto simp: build_provider_def map_sum_Inr_iff split: if_splits)
  with "2.IH" [OF p refl r(1)] r(2) show ?case by simp
qed simp

lemma pool_runtime_start:
  assumes "pool_valid pool"
  shows "rt_limit (pool_runtime_of pool) = capacity_units pool"
    and "within_limit (rt_model (pool_runtime_of pool)) (rt_capacity (pool_runtime_of pool))"
    and "f_of 1 \<le> safety (rt_capacity (pool_runtime_of pool)) \<and> safety (rt_capacity (pool_runtime_of pool)) \<le> f_of 4"
proof -
  have "initial_safety_factor pool \<noteq> NaN" "f_of 1 \<le> f_of 4"
    using assms f_le_nonan by (auto simp: pool_valid_def intro: f_of_mono simp del: f_of_1 f_of_numeral)
  then show "f_of 1 \<le> safety (rt_capacity (pool_runtime_of pool)) \<and> safety (rt_capacity (pool_runtime_of pool)) \<le> f_of 4"
    using f_clamp_bounds [of "initial_safety_factor pool" "f_of 1" "f_of 4"]
    by (simp add: pool_runtime_of_def capacity_new_def del: f_of_1 f_of_numeral)
  show "rt_limit (pool_runtime_of pool) = capacity_units pool"
    by (simp add: pool_runtime_of_def capacity_new_def)
  show "within_limit (rt_model (pool_runtime_of pool)) (rt_capacity (pool_runtime_of pool))"
    using assms f_less_imp_le [of "f_of 0" "capacity_units pool"]
    by (simp add: pool_runtime_of_def capacity_new_def within_limit_def pool_valid_def f_ops)
qed

lemma resolver_new_config: "resolver_new a b d e f g c = Inr r \<Longrightarrow> id_config r = c"
  by (auto simp: resolver_new_def map_sum_Inr_iff split: sum.splits option.splits)

lemma build_Inr:
  assumes "build pf ord c = Some (Inr a)"
  obtains ident ops s ttl pools where
    "resolver_new (pf_client pf) (pf_net pf) (pf_url pf) (pf_discover pf) (pf_from_jwk pf) (pf_fetch pf) c = Inr ident"
    "build_coordinator pf (coordinator c) = Inr ((ops, s), ttl)" "build_pools pf (cfg_pools c) = Some (Inr pools)"
    "start_identity a = ident" "start_adapters a = map (\<lambda>(name, p, rt). (name, p)) pools"
    "app_pools (start_state a) = map (\<lambda>(name, p, rt). (name, rt)) pools" "lease_ttl (start_env a) = ttl"
    "app_config (start_state a) = c" "app_sched (start_state a) = scheduler_new" "app_pending (start_state a) = []"
    "m_active (app_metrics (start_state a)) = 0" "\<not> draining (start_state a)"
    "act_tenants (app_inside (start_state a)) = Map.empty"
proof -
  obtain ident where i: "resolver_new (pf_client pf) (pf_net pf) (pf_url pf) (pf_discover pf) (pf_from_jwk pf) (pf_fetch pf) c = Inr ident"
    using assms by (auto simp: build_def split: sum.splits)
  obtain ops s ttl where o: "build_coordinator pf (coordinator c) = Inr ((ops, s), ttl)"
    using assms i by (auto simp: build_def split: sum.splits)
  obtain pools where p: "build_pools pf (cfg_pools c) = Some (Inr pools)"
    using assms i o by (auto simp: build_def map_sum_Inr_iff)
  show thesis using that [OF i o p] assms i o p by (auto simp: build_def no_metrics_def)
qed

text \<open>A state as the components assume it at the start.\<close>

definition well_started :: "config \<Rightarrow> ('net, 'key, 's, 'ch) application_start \<Rightarrow> bool" where
  "well_started c a \<longleftrightarrow>
       app_config (start_state a) = c \<and> id_config (start_identity a) = c \<and>
       list_all2 (\<lambda>(name, pool) (n, rt). n = name \<and> rt_limit rt = capacity_units pool \<and>
           within_limit (rt_model rt) (rt_capacity rt) \<and>
           f_of 1 \<le> safety (rt_capacity rt) \<and> safety (rt_capacity rt) \<le> f_of 4)
         (cfg_pools c) (app_pools (start_state a)) \<and>
       list_all2 (\<lambda>(name, pool) (n, p). n = name \<and>
           ((\<exists>ch. p = ExternalAdapter ch) \<longleftrightarrow> pool_provider pool = ExternalGrpc))
         (cfg_pools c) (start_adapters a) \<and>
       app_sched (start_state a) = scheduler_new \<and> app_pending (start_state a) = [] \<and>
       m_active (app_metrics (start_state a)) = 0 \<and> \<not> draining (start_state a) \<and>
       (\<forall>t. active_count (act_tenants (app_inside (start_state a))) t = 0) \<and>
       lease_ttl (start_env a) = (case coordinator c of CoordMemory \<Rightarrow> 300 * 10 ^ 9 | CoordValkey _ ttl \<Rightarrow> ttl)"

section \<open>Properties\<close>

text \<open>
  C33.  Building the application from a valid configuration does not panic.  When it succeeds, the state and the
  resolver have that configuration; there is one runtime per pool, with the pool's limit, nothing reserved
  beyond it and a safety factor between 1 and 4; an external adapter exactly for the pools that name one;
  an empty scheduler, no pending or active request; and leases live as long as configured, or five minutes.
\<close>

theorem build_from_valid:
  assumes "validate parse_net parse_url c = Inr ()"
  shows "build pf ord c \<noteq> None \<and> (\<forall>a. build pf ord c = Some (Inr a) \<longrightarrow> well_started c a)"
proof -
  have valid: "\<forall>(name, pool) \<in> set (cfg_pools c). pool_valid pool"
    using assms by (simp add: validate_iff config_valid_def)
  have "build pf ord c \<noteq> None"
    using build_pools_total [OF valid, of pf] by (auto simp: build_def split: sum.splits prod.splits)
  moreover {
    fix a
    assume "build pf ord c = Some (Inr a)"
    then obtain ident ops s ttl pools where
        ident: "resolver_new (pf_client pf) (pf_net pf) (pf_url pf) (pf_discover pf) (pf_from_jwk pf) (pf_fetch pf) c = Inr ident"
      and coo: "build_coordinator pf (coordinator c) = Inr ((ops, s), ttl)"
      and pools: "build_pools pf (cfg_pools c) = Some (Inr pools)"
      and a: "start_identity a = ident" "start_adapters a = map (\<lambda>(name, p, rt). (name, p)) pools"
        "app_pools (start_state a) = map (\<lambda>(name, p, rt). (name, rt)) pools" "lease_ttl (start_env a) = ttl"
        "app_config (start_state a) = c" "app_sched (start_state a) = scheduler_new" "app_pending (start_state a) = []"
        "m_active (app_metrics (start_state a)) = 0" "\<not> draining (start_state a)"
        "act_tenants (app_inside (start_state a)) = Map.empty"
      by (rule build_Inr)
    have "ttl = (case coordinator c of CoordMemory \<Rightarrow> 300 * 10 ^ 9 | CoordValkey _ ttl \<Rightarrow> ttl)"
      using coo by (auto simp: build_coordinator_def split: coordinator_config.splits option.splits sum.splits)
    moreover have "id_config ident = c" using ident by (rule resolver_new_config)
    moreover have "list_all2 (\<lambda>(name, pool) (n, rt). n = name \<and> rt_limit rt = capacity_units pool \<and>
           within_limit (rt_model rt) (rt_capacity rt) \<and>
           f_of 1 \<le> safety (rt_capacity rt) \<and> safety (rt_capacity rt) \<le> f_of 4)
         (cfg_pools c) (app_pools (start_state a))"
      unfolding a list_all2_map2
      using build_pools_Inr [OF pools] valid
      by (elim list.rel_mono_strong) (auto simp: pool_runtime_start simp del: f_of_1 f_of_numeral)
    moreover have "list_all2 (\<lambda>(name, pool) (n, p). n = name \<and>
           ((\<exists>ch. p = ExternalAdapter ch) \<longleftrightarrow> pool_provider pool = ExternalGrpc))
         (cfg_pools c) (start_adapters a)"
      unfolding a list_all2_map2 using build_pools_Inr [OF pools] by (elim list.rel_mono_strong) auto
    ultimately have "well_started c a" using a by (simp add: well_started_def active_count_def del: f_of_1 f_of_numeral)
  }
  ultimately show ?thesis by blast
qed

section \<open>Witnesses\<close>

definition sample_platform :: "(unit, unit, unit, unit, unit, unit) platform" where
  "sample_platform = \<lparr>pf_env = (\<lambda>_. None), pf_client = None, pf_net = (\<lambda>_. Inr ()),
     pf_url = (\<lambda>s. Inr \<lparr>scheme = ''http'', host_str = Some ''127.0.0.1''\<rparr>),
     pf_discover = (\<lambda>_. Inr []), pf_from_jwk = (\<lambda>_. Inr ()), pf_fetch = (\<lambda>_. NoReply []),
     pf_memory = (\<lparr>op_reserve = (\<lambda>_ _ _ _ s. (Inr None, s)), op_reserve_scoped = (\<lambda>_ _ _ _ _ _ s. (Inr None, s)),
       op_release = (\<lambda>_ s. (Inr (), s)), op_renew = (\<lambda>_ _ s. (Inr False, s)), op_healthy = (\<lambda>_. Inr ())\<rparr>, ()),
     pf_valkey = (\<lambda>_ _. Inl ClockError), pf_login = (\<lambda>_. None), pf_http = None,
     pf_transport = \<lparr>uri_host = (\<lambda>_. Inr None), from_shared = (\<lambda>_. Inr ()), with_tls = (\<lambda>_ _. Inr ()),
       open_endpoint = (\<lambda>_ _. Inr ()), open_socket = (\<lambda>_. Inr ()), read_pem = (\<lambda>_. Inr [])\<rparr>,
     pf_coordinator_text = (\<lambda>_. [])\<rparr>"

theorem build_from_valid_witness:
  "\<exists>a. build sample_platform id example_config = Some (Inr a) \<and> map fst (app_pools (start_state a)) = [''main''] \<and>
     lease_ttl (start_env a) = 300 * 10 ^ 9"
proof -
  have v: "validate any_net any_url example_config = Inr ()"
    by (simp add: validate_iff example_config_valid)
  obtain a where a: "build sample_platform id example_config = Some (Inr a)"
    by (simp add: build_def sample_platform_def example_config_def example_pool_def resolver_new_def parse_proxies_def
        build_coordinator_def build_provider_def from_config_def host_allowed_def)
  then show ?thesis
    using build_from_valid [OF v, of sample_platform id]
    by (auto simp: well_started_def example_config_def list_all2_Cons1)
qed

end
