(* ===== verification/Cli.thy ===== *)
theory Cli
  imports Startup Simulator
begin

text \<open>
  The commands of \<^verbatim>\<open>crates/cli/src/main.rs\<close>.  A command is a function of what the process finds (files, the
  environment, other programs, the network), giving its result and the effects it had, in order: lines
  printed, files written, programs run.  An error is \<^verbatim>\<open>anyhow\<close>'s chain of messages.  Parsing the command line,
  the sockets and the TLS library are left out.
\<close>

datatype effect = Print string | WriteFile string string | RunProgram string "string list"

type_synonym command_result = "(anyhow + unit) \<times> effect list"

abbreviation line_feed :: string where
  "line_feed \<equiv> [CHR 0x0A]"

abbreviation check_mark :: string where
  "check_mark \<equiv> [CHR 0xE2, CHR 0x9C, CHR 0x93]"

text \<open>The path or value written as it is, and a failing step with its context.\<close>

definition with_context :: "string \<Rightarrow> string + 'a \<Rightarrow> anyhow + 'a" where
  "with_context ctx r = (case r of Inl e \<Rightarrow> Inl [ctx, e] | Inr a \<Rightarrow> Inr a)"

definition failed :: "anyhow \<Rightarrow> effect list \<Rightarrow> command_result" where
  "failed e out = (Inl e, out)"

definition done_with :: "effect list \<Rightarrow> command_result" where
  "done_with out = (Inr (), out)"

section \<open>Configuration files\<close>

text \<open>\<^verbatim>\<open>str::replace\<close>\<close>

fun replace_str :: "string \<Rightarrow> string \<Rightarrow> string \<Rightarrow> string" where
  "replace_str p r [] = []"
| "replace_str p r (c # cs) =
     (if p \<noteq> [] \<and> take (length p) (c # cs) = p then r @ replace_str p r (drop (length p - 1) cs)
      else c # replace_str p r cs)"

definition EXAMPLE :: string where
  "EXAMPLE = concat (map (\<lambda>l. l @ line_feed)
    [''apiVersion: inferqos.io/v1alpha1'',
     ''kind: InferQoSConfig'',
     ''mode: MODE'',
     ''server:'',
     ''  listen: 0.0.0.0:8080'',
     ''  max_body_bytes: 16777216'',
     ''  spool_threshold_bytes: 262144'',
     ''admin:'',
     ''  listen: 127.0.0.1:9090'',
     ''  expose_decisions: false'',
     ''coordinator:'',
     ''  type: memory'',
     ''service_classes:'',
     ''  realtime: { weight: 100, default_deadline: 500ms, max_queue: 100ms, max_queued: 100 }'',
     ''  interactive: { weight: 50, default_deadline: 3s, max_queue: 3s, max_queued: 1000 }'',
     ''  standard: { weight: 20, default_deadline: 10s, max_queue: 10s, max_queued: 3000 }'',
     ''  workflow: { weight: 10, default_deadline: 30s, max_queue: 60s, max_queued: 3000 }'',
     ''  batch: { weight: 1, default_deadline: 30m, max_queue: 30m, max_queued: 3000 }'',
     ''pools:'',
     ''  primary:'',
     ''    provider: openai-compatible'',
     ''    endpoint: ${INFERQOS_UPSTREAM}'',
     ''    model: null'',
     ''    deployment: null'',
     ''    capacity_units: 50000'',
     ''    auth: { type: bearer, env: INFERQOS_UPSTREAM_API_KEY }'',
     ''    allowed_hosts: []'',
     ''    initial_safety_factor: 1.15'',
     ''policies:'',
     ''  tenants:'',
     ''    default: { weight: 1, guaranteed_share: 0.0, max_share: 1.0, max_concurrency: 100 }'',
     ''  applications: {}'',
     ''  api_keys: {}'',
     ''limits:'',
     ''  total_queue_depth: 10000'',
     ''  total_queue_bytes: 268435456'',
     ''  decision_history: 2048'',
     ''  expected_replicas: 1'',
     ''  allow_unsafe_uncoordinated_ha: false''])"

definition init :: "(string \<Rightarrow> bool) \<Rightarrow> (string \<Rightarrow> string \<Rightarrow> string + unit) \<Rightarrow> string \<Rightarrow> bool \<Rightarrow> command_result" where
  "init path_exists write path enforce =
     (if path_exists path then failed [path @ '' already exists; refusing to overwrite it''] []
      else
        let mode = (if enforce then ''enforce'' else ''shadow'');
            text = replace_str ''MODE'' mode EXAMPLE
        in case with_context (''cannot write '' @ path) (write path text) of
             Inl e \<Rightarrow> failed e []
           | Inr _ \<Rightarrow> done_with [WriteFile path text,
               Print (''Wrote '' @ path @ '' in '' @ mode @ '' mode. Set INFERQOS_UPSTREAM, then run:'' @ line_feed @
                 ''  inferqos validate --config '' @ path @ line_feed @
                 ''  inferqos serve --config '' @ path @ line_feed)])"

text \<open>\<open>loaded\<close> is what \<^verbatim>\<open>Config::from_path\<close> returned for the path and \<open>check\<close> the validation run once more.\<close>

definition validate_command ::
  "(config_error \<Rightarrow> string) \<Rightarrow> (config \<Rightarrow> config_error + unit) \<Rightarrow> config_error + config \<Rightarrow> string \<Rightarrow> command_result" where
  "validate_command text check loaded path =
     (case loaded of
        Inl e \<Rightarrow> failed [text e] []
      | Inr c \<Rightarrow>
          (case check c of
             Inl e \<Rightarrow> failed [text e] []
           | Inr _ \<Rightarrow> done_with [Print (path @ '' is valid ('' @ api_version c @ '', '' @
               nat_to_dec (length (cfg_pools c)) @ '' pool(s), '' @
               nat_to_dec (length (applications (cfg_policies c))) @ '' application policies)'' @ line_feed)]))"

section \<open>Policies\<close>

definition policy_test ::
  "(config_error \<Rightarrow> string) \<Rightarrow> config_error + config \<Rightarrow> string \<Rightarrow> string \<Rightarrow> service_class \<Rightarrow> command_result" where
  "policy_test text loaded app ten class =
     (case loaded of
        Inl e \<Rightarrow> failed [text e] []
      | Inr c \<Rightarrow>
          (case map_of (applications (cfg_policies c)) app of
             None \<Rightarrow> failed [''application '' @ app @ '' is not configured''] []
           | Some p \<Rightarrow>
               let allowed = (app_tenant p = ten \<and> class_to_string class \<in> set (allowed_classes p))
               in done_with [Print (''requested_class='' @ class_to_string class @ line_feed @
                    ''tenant='' @ ten @ line_feed @ ''application='' @ app @ line_feed @
                    ''effective_class='' @ class_to_string (if allowed then class else Standard) @ line_feed @
                    ''reason='' @ (if allowed then ''entitlement permits requested class''
                      else ''request is downgraded because identity or class entitlement does not match'') @ line_feed)]))"

section \<open>Targets and prerequisites\<close>

datatype deploy_target = TAuto | TDocker | TAca | TKubernetes | TEcs | TCloudRun | TSystemd

fun target_name :: "deploy_target \<Rightarrow> string" where
  "target_name TAuto = ''auto''"
| "target_name TDocker = ''docker''"
| "target_name TAca = ''aca''"
| "target_name TKubernetes = ''kubernetes''"
| "target_name TEcs = ''ecs''"
| "target_name TCloudRun = ''cloud-run''"
| "target_name TSystemd = ''systemd''"

fun doctor_tool :: "deploy_target \<Rightarrow> string" where
  "doctor_tool TDocker = ''docker''"
| "doctor_tool TAca = ''az''"
| "doctor_tool TKubernetes = ''helm''"
| "doctor_tool TEcs = ''aws''"
| "doctor_tool TCloudRun = ''gcloud''"
| "doctor_tool TSystemd = ''systemctl''"
| "doctor_tool TAuto = ''docker''"

text \<open>\<open>port\<close> is \<^verbatim>\<open>port_or_known_default\<close>, \<open>resolve_host\<close> the addresses of a host and port.\<close>

fun doctor_pools ::
  "(string \<Rightarrow> string + url) \<Rightarrow> (url \<Rightarrow> nat option) \<Rightarrow> (string \<Rightarrow> nat \<Rightarrow> string + 'ip list)
     \<Rightarrow> (string \<times> pool_config) list \<Rightarrow> effect list \<Rightarrow> command_result" where
  "doctor_pools parse_url port resolve_host [] out = done_with out"
| "doctor_pools parse_url port resolve_host ((name, pool) # ps) out =
     (case with_context (''pool '' @ name @ '' has invalid endpoint'') (parse_url (endpoint pool)) of
        Inl e \<Rightarrow> failed e out
      | Inr u \<Rightarrow>
     (case host_str u of
        None \<Rightarrow> failed [''endpoint has no host''] out
      | Some host \<Rightarrow>
     (case with_context (''DNS failed for pool '' @ name @ '' host '' @ host)
             (resolve_host host (case port u of None \<Rightarrow> 443 | Some p \<Rightarrow> p)) of
        Inl e \<Rightarrow> failed e out
      | Inr [] \<Rightarrow> failed [''DNS returned no addresses for pool '' @ name @ '' host '' @ host] out
      | Inr (_ # _) \<Rightarrow>
          doctor_pools parse_url port resolve_host ps
            (out @ [Print (check_mark @ '' pool '' @ name @ '': DNS and endpoint syntax valid'' @ line_feed)]))))"

definition doctor ::
  "(config_error \<Rightarrow> string) \<Rightarrow> (string \<Rightarrow> string + url) \<Rightarrow> (url \<Rightarrow> nat option) \<Rightarrow> (string \<Rightarrow> nat \<Rightarrow> string + 'ip list)
     \<Rightarrow> (string \<Rightarrow> bool) \<Rightarrow> config_error + config \<Rightarrow> deploy_target option \<Rightarrow> command_result" where
  "doctor text parse_url port resolve_host which loaded t =
     (case loaded of
        Inl e \<Rightarrow> failed [text e] []
      | Inr c \<Rightarrow>
     (case doctor_pools parse_url port resolve_host (cfg_pools c)
             [Print (check_mark @ '' configuration is valid'' @ line_feed)] of
        (Inl e, out) \<Rightarrow> failed e out
      | (Inr _, out) \<Rightarrow>
          let finish = Print (''Doctor completed without exposing credentials or sending request bodies.'' @ line_feed)
          in (case t of
                None \<Rightarrow> done_with (out @ [finish])
              | Some tg \<Rightarrow>
                  let tool = doctor_tool tg
                  in if which tool
                     then done_with (out @ [Print (check_mark @ '' deployment prerequisite found: '' @ tool @ line_feed), finish])
                     else failed [''deployment target requires '' @ [CHR 0x27] @ tool @ [CHR 0x27] @ '', but it is not on PATH''] out)))"

section \<open>Replay\<close>

text \<open>The page of \<^verbatim>\<open>simulator::html\<close> around the report as JSON; \<open>to_json\<close> and \<open>to_pretty\<close> are the serializer.\<close>

definition html :: "(replay_report \<Rightarrow> string + string) \<Rightarrow> replay_report \<Rightarrow> string + string" where
  "html to_json report =
     (case to_json report of
        Inl e \<Rightarrow> Inl e
      | Inr data \<Rightarrow> Inr (''<!doctype html><meta charset=utf-8><title>InferQoS replay</title>'' @
          ''<style>body{font:16px system-ui;max-width:900px;margin:48px auto;color:#18212f}'' @
          ''pre{padding:24px;background:#f4f6f8;border-radius:12px;white-space:pre-wrap}</style>'' @
          ''<h1>InferQoS replay report</h1><p>Metadata-only projection. No prompts or completions were required.</p>'' @
          ''<pre id=r></pre><script>r.textContent=JSON.stringify('' @ data @ '',null,2)</script>''))"

record replay_args =
  ra_capacity :: f64
  ra_cost :: "f64 option"
  ra_increment :: "f64 option"
  ra_json :: "string option"
  ra_html :: "string option"

text \<open>Writing one optional report file: the serialized text, then the file.\<close>

definition write_report ::
  "(string \<Rightarrow> string \<Rightarrow> string + unit) \<Rightarrow> string + string \<Rightarrow> string option \<Rightarrow> effect list \<Rightarrow> command_result" where
  "write_report write text dest out =
     (case dest of
        None \<Rightarrow> done_with out
      | Some path \<Rightarrow>
          (case text of
             Inl e \<Rightarrow> failed [e] out
           | Inr t \<Rightarrow>
               (case with_context (''cannot write '' @ path) (write path t) of
                  Inl e \<Rightarrow> failed e out
                | Inr _ \<Rightarrow> done_with (out @ [WriteFile path t]))))"

definition replay_command ::
  "(replay_report \<Rightarrow> string + string) \<Rightarrow> (replay_report \<Rightarrow> string + string) \<Rightarrow> (string \<Rightarrow> string \<Rightarrow> string + unit)
     \<Rightarrow> anyhow + trace_event list \<Rightarrow> replay_args \<Rightarrow> command_result" where
  "replay_command to_json to_pretty write events args =
     (case events of
        Inl e \<Rightarrow> failed e []
      | Inr es \<Rightarrow>
     (case replay es (ra_capacity args) (ra_cost args) (ra_increment args) of
        Inl e \<Rightarrow> failed e []
      | Inr report \<Rightarrow>
     (case write_report write (to_pretty report) (ra_json args) [Print (terminal report)] of
        (Inl e, out) \<Rightarrow> failed e out
      | (Inr _, out) \<Rightarrow> write_report write (html to_json report) (ra_html args) out)))"

section \<open>Benchmark\<close>

definition bench_request :: "uuid \<Rightarrow> nat \<Rightarrow> admission_request" where
  "bench_request i n =
     \<lparr>req_id = i,
      req_identity = \<lparr>principal = ''bench'', tenant = ''tenant-'' @ nat_to_dec (n mod 100), application = ''bench'', trusted = True\<rparr>,
      requested_class = Standard, effective_class = Standard, req_pool = ''primary'',
      estimate = \<lparr>input_tokens = 100, output_tokens = 100, cached_input_tokens = 0, provider_cost_coefficient = f_of 1,
        normalized_units = f_of 200, confidence = f32_of 1, source = ExactTokenizer\<rparr>,
      req_deadline = 10 * 10 ^ 9, queueable = True\<rparr>"

text \<open>The loop over \<open>[i, n)\<close>; the virtual clock stays at zero and \<open>fresh\<close> gives the identifiers.\<close>

fun bench_loop :: "(nat \<Rightarrow> uuid) \<Rightarrow> nat \<Rightarrow> nat \<Rightarrow> inner \<Rightarrow> (scheduler_error + inner) option" where
  "bench_loop fresh 0 i st = Some (Inr st)"
| "bench_loop fresh (Suc k) i st =
     (case enqueue default_config 0 (bench_request (fresh i) i) 0 20 1 1 st of
        (Inl e, _) \<Rightarrow> Some (Inl e)
      | (Inr _, st') \<Rightarrow>
          (case pop_next default_config 0 st' of
             None \<Rightarrow> None
           | Some (_, st'') \<Rightarrow> bench_loop fresh k (Suc i) st''))"

text \<open>
  \<^verbatim>\<open>elapsed / n as u32\<close> panics when the low 32 bits of \<open>n\<close> are zero; None is a panic.  \<open>show_time\<close> prints a duration, \<open>show_id\<close> an identifier.
\<close>

definition benchmark ::
  "(uuid \<Rightarrow> string) \<Rightarrow> (duration \<Rightarrow> string) \<Rightarrow> (nat \<Rightarrow> uuid) \<Rightarrow> duration \<Rightarrow> nat \<Rightarrow> command_result option" where
  "benchmark show_id show_time fresh elapsed n =
     (case bench_loop fresh n 0 scheduler_new of
        None \<Rightarrow> None
      | Some (Inl e) \<Rightarrow> Some (failed [scheduler_text show_id e] [])
      | Some (Inr _) \<Rightarrow>
          if n mod 2 ^ 32 = 0 then None
          else Some (done_with [Print (nat_to_dec n @ '' scheduler decisions in '' @ show_time elapsed @ ''; mean '' @
                 show_time (elapsed div (n mod 2 ^ 32)) @ line_feed)]))"

section \<open>Deployment\<close>

record deploy_args =
  da_target :: deploy_target
  da_dry_run :: bool
  da_config :: string
  da_image :: string
  da_name :: string
  da_resource_group :: "string option"
  da_region :: "string option"
  da_project :: "string option"
  da_vpc_id :: "string option"
  da_subnets :: "string list"
  da_config_secret :: "string option"

definition required :: "deploy_target \<Rightarrow> string option \<Rightarrow> string \<Rightarrow> anyhow + string" where
  "required t value flag =
     (case value of None \<Rightarrow> Inl [target_name t @ '' deployment requires '' @ flag] | Some v \<Rightarrow> Inr v)"

definition image_parts :: "string \<Rightarrow> string \<times> string" where
  "image_parts img = (case rsplit_once (CHR '':'') img of None \<Rightarrow> (img, ''latest'') | Some p \<Rightarrow> p)"

fun join_with :: "string \<Rightarrow> string list \<Rightarrow> string" where
  "join_with sep [] = []"
| "join_with sep [s] = s"
| "join_with sep (s # t # ss) = s @ sep @ join_with sep (t # ss)"

text \<open>
  The program and its arguments for a target; \<open>exe\<close> is the path of the running binary.  The last case is a panic in
  the code, and no target is \<open>TAuto\<close> once it is chosen.
\<close>

definition deploy_plan ::
  "string + string \<Rightarrow> deploy_args \<Rightarrow> string \<Rightarrow> deploy_target \<Rightarrow> anyhow + string \<times> string list" where
  "deploy_plan exe opts cfg t =
     (let (repository, tag) = image_parts (da_image opts)
      in case t of
        TDocker \<Rightarrow> Inr (''docker'',
          [''run'', ''-d'', ''--name'', da_name opts, ''--restart'', ''unless-stopped'', ''--read-only'',
           ''--security-opt'', ''no-new-privileges:true'', ''--tmpfs'', ''/tmp:rw,noexec,nosuid,size=64m'',
           ''-p'', ''8080:8080'', ''-p'', ''127.0.0.1:9090:9090'',
           ''-v'', cfg @ '':/etc/inferqos/inferqos.yaml:ro'', da_image opts,
           ''serve'', ''--config'', ''/etc/inferqos/inferqos.yaml''])
      | TKubernetes \<Rightarrow> Inr (''helm'',
          [''upgrade'', ''--install'', ''inferqos'', ''deploy/kubernetes/helm'', ''--namespace'', ''inferqos'',
           ''--create-namespace'', ''--set-string'', ''image.repository='' @ repository @ '',image.tag='' @ tag,
           ''--set-file'', ''config='' @ cfg])
      | TAca \<Rightarrow>
          res_then (required t (da_resource_group opts) ''--resource-group'') (\<lambda>rg. Inr (''az'',
          [''deployment'', ''group'', ''create'', ''--resource-group'', rg, ''--name'', da_name opts,
           ''--template-file'', ''deploy/azure/container-apps/main.bicep'',
           ''--parameters'', ''configYaml=@'' @ cfg, ''image='' @ da_image opts]))
      | TEcs \<Rightarrow>
          res_then (required t (da_region opts) ''--region'') (\<lambda>region.
          res_then (required t (da_vpc_id opts) ''--vpc-id'') (\<lambda>vpc.
          res_then (if da_subnets opts = [] then Inl [''ecs deployment requires --subnets subnet-a,subnet-b'']
                    else Inr (join_with '','' (da_subnets opts))) (\<lambda>subnets.
          res_then (required t (da_config_secret opts) ''--config-secret'') (\<lambda>secret. Inr (''aws'',
          [''cloudformation'', ''deploy'', ''--template-file'', ''deploy/aws/ecs/template.yaml'',
           ''--stack-name'', da_name opts, ''--capabilities'', ''CAPABILITY_NAMED_IAM'', ''--region'', region,
           ''--parameter-overrides'', ''Image='' @ da_image opts, ''VpcId='' @ vpc, ''Subnets='' @ subnets,
           ''ConfigSecretArn='' @ secret])))))
      | TCloudRun \<Rightarrow>
          res_then (required t (da_project opts) ''--project'') (\<lambda>project.
          res_then (required t (da_region opts) ''--region'') (\<lambda>region.
          res_then (required t (da_config_secret opts) ''--config-secret'') (\<lambda>secret. Inr (''gcloud'',
          [''run'', ''deploy'', da_name opts, ''--image'', da_image opts, ''--project'', project, ''--region'', region,
           ''--ingress'', ''internal'', ''--no-allow-unauthenticated'', ''--min'', ''2'', ''--max'', ''10'',
           ''--concurrency'', ''50'', ''--port'', ''8080'',
           ''--set-secrets'', ''INFERQOS_CONFIG_YAML='' @ secret @ '':latest'',
           ''--args'', ''serve,--config,/etc/inferqos/runtime.yaml'']))))
      | TSystemd \<Rightarrow>
          res_then (with_context ''cannot locate the running InferQoS binary'' exe) (\<lambda>binary.
            Inr (''sudo'', [''bash'', ''deploy/systemd/install.sh'', binary, cfg]))
      | TAuto \<Rightarrow> Inl [''internal error: entered unreachable code''])"

fun auth_check :: "deploy_target \<Rightarrow> (string \<times> string list) option" where
  "auth_check TDocker = Some (''docker'', [''info''])"
| "auth_check TAca = Some (''az'', [''account'', ''show'', ''--output'', ''none''])"
| "auth_check TKubernetes = Some (''kubectl'', [''cluster-info''])"
| "auth_check TEcs = Some (''aws'', [''sts'', ''get-caller-identity'', ''--output'', ''json''])"
| "auth_check TCloudRun = Some (''gcloud'', [''auth'', ''print-access-token''])"
| "auth_check TSystemd = None"
| "auth_check TAuto = None"

text \<open>
  \<open>run tool args\<close> is the failure to start the program, or its exit status: a success, or the text of another
  status.  Running a program that starts is an effect.
\<close>

type_synonym runner = "string \<Rightarrow> string list \<Rightarrow> string + string option"

definition quoted :: "string \<Rightarrow> string" where
  "quoted s = [CHR 0x27] @ s @ [CHR 0x27]"

text \<open>\<open>ctx\<close> explains a program that does not start, \<open>bad\<close> one that ends with another status.\<close>

definition run_program ::
  "runner \<Rightarrow> string \<Rightarrow> (string \<Rightarrow> string) \<Rightarrow> string \<times> string list \<Rightarrow> effect list \<Rightarrow> command_result" where
  "run_program run ctx bad p out =
     (case with_context ctx (run (fst p) (snd p)) of
        Inl e \<Rightarrow> failed e out
      | Inr (Some s) \<Rightarrow> failed [bad s] (out @ [RunProgram (fst p) (snd p)])
      | Inr None \<Rightarrow> done_with (out @ [RunProgram (fst p) (snd p)]))"

definition deploy_authenticate ::
  "(string \<Rightarrow> bool) \<Rightarrow> runner \<Rightarrow> deploy_target \<Rightarrow> effect list \<Rightarrow> command_result" where
  "deploy_authenticate which run t out =
     (case auth_check t of
        None \<Rightarrow> done_with out
      | Some p \<Rightarrow>
          if \<not> which (fst p)
          then failed [''deployment target requires '' @ quoted (fst p) @ '', but it is not on PATH''] out
          else run_program run (''could not execute '' @ fst p @ '' authentication check'')
                 (\<lambda>_. fst p @ '' authentication or target connectivity check failed; authenticate normally, '' @
                    ''then run inferqos doctor --target '' @ target_name t) p out)"

definition exit_message :: "deploy_target \<Rightarrow> string \<Rightarrow> string" where
  "exit_message t s = ''deployment command exited with '' @ s @ ''; run '' @
     quoted (''inferqos doctor --target '' @ target_name t) @ '' for prerequisites''"

definition completed_message :: string where
  "completed_message = ''Deployment completed. Admin access remains private by default. Verify /health/ready from the '' @
     ''target network, then point a client base URL at the data-plane endpoint.'' @ line_feed"

definition deploy_run ::
  "(string \<Rightarrow> bool) \<Rightarrow> runner \<Rightarrow> deploy_target \<Rightarrow> string \<times> string list \<Rightarrow> effect list \<Rightarrow> command_result" where
  "deploy_run which run t p out =
     (if \<not> which (fst p) then failed [''required deployment command '' @ quoted (fst p) @ '' is not installed''] out
      else (case deploy_authenticate which run t out of
              (Inl e, out') \<Rightarrow> failed e out'
            | (Inr _, out') \<Rightarrow>
                (case run_program run (''failed to start '' @ fst p) (exit_message t) p out' of
                   (Inl e, out'') \<Rightarrow> failed e out''
                 | (Inr _, out'') \<Rightarrow> done_with (out'' @ [Print completed_message]))))"

definition deploy_target_of :: "(string \<Rightarrow> bool) \<Rightarrow> deploy_target \<Rightarrow> anyhow + deploy_target" where
  "deploy_target_of which t =
     (if t = TAuto then
        if which ''docker'' then Inr TDocker
        else Inl [''auto detection found no safe target; install Docker or select --target explicitly'']
      else Inr t)"

text \<open>\<open>canonical\<close> is the absolute path of the configuration, or the failure to find it.\<close>

definition deploy ::
  "(config_error \<Rightarrow> string) \<Rightarrow> config_error + config \<Rightarrow> (string \<Rightarrow> string + string) \<Rightarrow> string + string
     \<Rightarrow> (string \<Rightarrow> bool) \<Rightarrow> runner \<Rightarrow> deploy_args \<Rightarrow> command_result" where
  "deploy text loaded canonical exe which run opts =
     (case loaded of
        Inl e \<Rightarrow> failed [''deployment configuration is invalid'', text e] []
      | Inr _ \<Rightarrow>
     (case deploy_target_of which (da_target opts) of
        Inl e \<Rightarrow> failed e []
      | Inr t \<Rightarrow>
     (case with_context (''cannot resolve deployment config '' @ da_config opts) (canonical (da_config opts)) of
        Inl e \<Rightarrow> failed e []
      | Inr cfg \<Rightarrow>
     (case deploy_plan exe opts cfg t of
        Inl e \<Rightarrow> failed e []
      | Inr (cmd, args) \<Rightarrow>
          let out = [Print (''Will run: '' @ cmd @ '' '' @ join_with '' '' args @ line_feed)]
          in if da_dry_run opts then done_with out else deploy_run which run t (cmd, args) out))))"

section \<open>Reading the management interface\<close>

definition trim_end_slashes :: "string \<Rightarrow> string" where
  "trim_end_slashes s = rev (dropWhile (\<lambda>c. c = CHR ''/'') (rev s))"

text \<open>\<open>fetch\<close> is the array at an address, or the failure of the request, of its status or of decoding it.\<close>

definition explain ::
  "(string \<Rightarrow> anyhow + json list) \<Rightarrow> (json \<Rightarrow> string + string) \<Rightarrow> (uuid \<Rightarrow> string) \<Rightarrow> uuid \<Rightarrow> string \<Rightarrow> command_result" where
  "explain fetch to_pretty show_id i admin_url =
     (case fetch (trim_end_slashes admin_url @ ''/api/v1/decisions'') of
        Inl e \<Rightarrow> failed e []
      | Inr values \<Rightarrow>
          (case find (\<lambda>v. json_get v ''request_id'' = Some (JString (show_id i))) values of
             None \<Rightarrow> failed [''request '' @ show_id i @ '' is not in the bounded decision history''] []
           | Some v \<Rightarrow>
               (case to_pretty v of Inl e \<Rightarrow> failed [e] [] | Inr t \<Rightarrow> done_with [Print (t @ line_feed)])))"

section \<open>Diagnostics\<close>

record diagnostics_pool =
  dp_name :: string
  dp_provider :: provider_kind
  dp_capacity_units :: f64
  dp_endpoint_host :: "string option"

record diagnostics_bundle =
  db_version :: string
  db_mode :: mode
  db_server :: string
  db_admin :: string
  db_pools :: "diagnostics_pool list"
  db_note :: string

definition sanitized :: "(string \<Rightarrow> string + url) \<Rightarrow> string \<Rightarrow> config \<Rightarrow> diagnostics_bundle" where
  "sanitized parse_url version c =
     \<lparr>db_version = version, db_mode = cfg_mode c, db_server = listen (server c), db_admin = admin_listen (admin c),
      db_pools = map (\<lambda>(n, p). \<lparr>dp_name = n, dp_provider = pool_provider p, dp_capacity_units = capacity_units p,
        dp_endpoint_host = (case parse_url (endpoint p) of Inl _ \<Rightarrow> None | Inr u \<Rightarrow> host_str u)\<rparr>) (cfg_pools c),
      db_note = ''Secrets, request bodies, prompts, completions, and tokens are intentionally excluded.''\<rparr>"

definition diagnostics ::
  "(config_error \<Rightarrow> string) \<Rightarrow> (string \<Rightarrow> string + url) \<Rightarrow> (diagnostics_bundle \<Rightarrow> string + string)
     \<Rightarrow> (string \<Rightarrow> string \<Rightarrow> string + unit) \<Rightarrow> string \<Rightarrow> config_error + config \<Rightarrow> string \<Rightarrow> command_result" where
  "diagnostics text parse_url to_pretty write version loaded dest =
     (case loaded of
        Inl e \<Rightarrow> failed [text e] []
      | Inr c \<Rightarrow>
     (case to_pretty (sanitized parse_url version c) of
        Inl e \<Rightarrow> failed [e] []
      | Inr t \<Rightarrow>
     (case write dest t of
        Inl e \<Rightarrow> failed [e] []
      | Inr _ \<Rightarrow> done_with [WriteFile dest t,
          Print (''Wrote sanitized diagnostic bundle to '' @ dest @ line_feed)])))"

section \<open>Serving\<close>

text \<open>The certificates a connection presented become lower-case hexadecimal SHA-256 fingerprints.\<close>

definition hex_digit :: "nat \<Rightarrow> char" where
  "hex_digit d = ''0123456789abcdef'' ! d"

definition hex_byte :: "nat \<Rightarrow> string" where
  "hex_byte b = [hex_digit (b div 16), hex_digit (b mod 16)]"

definition peer_fingerprints :: "('cert \<Rightarrow> nat list) \<Rightarrow> 'cert list option \<Rightarrow> string list" where
  "peer_fingerprints sha256 certs =
     (case certs of None \<Rightarrow> [] | Some cs \<Rightarrow> map (\<lambda>c. concat (map hex_byte (sha256 c))) cs)"

text \<open>The configuration to serve: that of the file, in the given mode if one is given.\<close>

definition serve_config :: "config_error + config \<Rightarrow> mode option \<Rightarrow> config_error + config" where
  "serve_config loaded m = map_sum id (\<lambda>c. case m of None \<Rightarrow> c | Some m' \<Rightarrow> c\<lparr>cfg_mode := m'\<rparr>) loaded"

fun mode_debug :: "mode \<Rightarrow> string" where
  "mode_debug ModeShadow = ''Shadow''"
| "mode_debug ModeEnforce = ''Enforce''"

definition banner :: "config \<Rightarrow> string" where
  "banner c =
     ''InferQoS ready'' @ line_feed @ line_feed @
     ''Proxy:      http://'' @ listen (server c) @ line_feed @
     ''Admin:      http://'' @ admin_listen (admin c) @ line_feed @
     ''Dashboard:  http://'' @ admin_listen (admin c) @ ''/ui'' @ line_feed @
     ''Mode:       '' @ mode_debug (cfg_mode c) @ line_feed @
     ''Pools:      '' @ nat_to_dec (length (cfg_pools c)) @ '' configured'' @ line_feed @ line_feed @
     ''Next:'' @ line_feed @ ''  inferqos doctor'' @ line_feed @ ''  inferqos capacity status'' @ line_feed"

text \<open>
  The wait for active requests after the shutdown signal: at the \<open>i\<close>-th test \<open>active i\<close> requests are active and
  the clock shows \<open>clock i\<close>.  Nothing is returned if the loop does not end.
\<close>

partial_function (option) drain_wait :: "(nat \<Rightarrow> nat) \<Rightarrow> (nat \<Rightarrow> instant) \<Rightarrow> instant \<Rightarrow> nat \<Rightarrow> nat option" where
  "drain_wait active clock deadline i =
     (if 0 < active i \<and> clock i < deadline then drain_wait active clock deadline (Suc i) else Some i)"

definition drain_time :: duration where
  "drain_time = 30 * 10 ^ 9"

text \<open>
  \<^verbatim>\<open>serve\<close>: \<open>start\<close> builds the application, \<open>bind\<close> takes an address, \<open>secure\<close> loads the TLS files, and \<open>run\<close> serves until a
  listener fails or the process is told to stop.  After that the drain begins; \<open>clock 0\<close> is the reading its deadline
  counts from.  None is a panic of \<open>start\<close>, or a drain that never ends.
\<close>

definition serve ::
  "(config_error \<Rightarrow> string) \<Rightarrow> (config \<Rightarrow> (string + 'app) option) \<Rightarrow> (string \<Rightarrow> string + unit) \<Rightarrow>
   (server_tls_config \<Rightarrow> anyhow + unit) \<Rightarrow> (config \<Rightarrow> 'app \<Rightarrow> (anyhow option \<times> 'app)) \<Rightarrow> ('app \<Rightarrow> 'app) \<Rightarrow>
   (nat \<Rightarrow> nat) \<Rightarrow> (nat \<Rightarrow> instant) \<Rightarrow> config_error + config \<Rightarrow> mode option \<Rightarrow>
   (command_result \<times> 'app option) option" where
  "serve text start bind secure run begin_drain active clock loaded m =
     (case serve_config loaded m of
        Inl e \<Rightarrow> Some (failed [text e] [], None)
      | Inr c \<Rightarrow>
     (case start c of
        None \<Rightarrow> None
      | Some (Inl e) \<Rightarrow> Some (failed [e] [], None)
      | Some (Inr app) \<Rightarrow>
     (case with_context (''cannot bind admin at '' @ admin_listen (admin c)) (bind (admin_listen (admin c))) of
        Inl e \<Rightarrow> Some (failed e [], Some app)
      | Inr _ \<Rightarrow>
          let out = [Print (banner c)]
          in case (case tls (server c) of
                     Some t \<Rightarrow> secure t
                   | None \<Rightarrow> with_context (''cannot bind proxy at '' @ listen (server c)) (bind (listen (server c)))) of
               Inl e \<Rightarrow> Some (failed e out, Some app)
             | Inr _ \<Rightarrow>
                 (case run c app of
                    (Some e, app') \<Rightarrow> Some (failed e out, Some app')
                  | (None, app') \<Rightarrow>
                      map_option (\<lambda>_. (done_with out, Some (begin_drain app')))
                        (drain_wait active clock (clock 0 + drain_time) 1)))))"

text \<open>The TLS files of the proxy listener; \<open>pems\<close> and \<open>key\<close> parse, \<open>add_roots\<close> counts usable and ignored certificates.\<close>

definition load_mtls ::
  "(string \<Rightarrow> string + string) \<Rightarrow> (string \<Rightarrow> string + 'cert list) \<Rightarrow> (string \<Rightarrow> string + 'pkey) \<Rightarrow>
   ('cert list \<Rightarrow> nat \<times> nat \<times> 'roots) \<Rightarrow> ('roots \<Rightarrow> string + 'verifier) \<Rightarrow>
   ('verifier \<Rightarrow> 'cert list \<Rightarrow> 'pkey \<Rightarrow> string + 'server) \<Rightarrow> server_tls_config \<Rightarrow> anyhow + 'server" where
  "load_mtls read_file pems key add_roots verifier single_cert t =
     res_then (with_context (''cannot read server TLS certificate '' @ cert_file t) (read_file (cert_file t))) (\<lambda>cert_pem.
     res_then (with_context (''cannot read server TLS private key '' @ key_file t) (read_file (key_file t))) (\<lambda>key_pem.
     res_then (with_context (''cannot read mTLS client CA '' @ client_ca_file t) (read_file (client_ca_file t))) (\<lambda>ca_pem.
     res_then (map_sum (\<lambda>e. [e]) id (pems cert_pem)) (\<lambda>certs.
     res_then (with_context ''server TLS private key file contains no supported private key'' (key key_pem)) (\<lambda>k.
     res_then (map_sum (\<lambda>e. [e]) id (pems ca_pem)) (\<lambda>client_roots.
     let (added, ignored, roots) = add_roots client_roots
     in if added = 0 \<or> 0 < ignored
        then Inl [''mTLS client CA contains no usable certificates or contains malformed certificates'']
        else res_then (with_context ''cannot build mTLS client verifier'' (verifier roots)) (\<lambda>v.
             with_context ''server TLS certificate and private key do not match'' (single_cert v certs k))))))))"

end
