(* ===== verification/Cli_Properties.thy ===== *)
theory Cli_Properties
  imports Cli Config_Properties "HOL-Library.Sublist"
begin

text \<open>
  The commands: a deployment runs nothing before its checks have passed, the policy test agrees with the
  proxy, the benchmark's loop empties the scheduler, the drain ends; and the mode given on the command line
  does not survive a reload.
\<close>

section \<open>Deployment\<close>

fun programs :: "effect list \<Rightarrow> (string \<times> string list) list" where
  "programs [] = []"
| "programs (RunProgram c a # es) = (c, a) # programs es"
| "programs (_ # es) = programs es"

lemma programs_append [simp]: "programs (a @ b) = programs a @ programs b"
  by (induction a rule: programs.induct) auto

text \<open>The programs a deployment to a target may run, in order.\<close>

definition auth_steps :: "deploy_target \<Rightarrow> (string \<times> string list) list" where
  "auth_steps t = (case auth_check t of None \<Rightarrow> [] | Some a \<Rightarrow> [a])"

definition authenticated :: "(string \<Rightarrow> bool) \<Rightarrow> runner \<Rightarrow> deploy_target \<Rightarrow> bool" where
  "authenticated which run t \<longleftrightarrow> (\<forall>p \<in> set (auth_steps t). which (fst p) \<and> run (fst p) (snd p) = Inr None)"

lemmas command_defs = failed_def done_with_def

lemma run_program_cases:
  assumes "run_program run ctx bad p out = (res, out')"
  obtains "res = Inr ()" "programs out' = programs out @ [p]" "run (fst p) (snd p) = Inr None"
  | e where "res = Inl e" "programs out' = programs out \<or> programs out' = programs out @ [p]"
  using assms that
  by (cases p) (auto simp: run_program_def with_context_def command_defs split: sum.splits option.splits)

lemma authenticate_cases:
  assumes "deploy_authenticate which run t out = (res, out')" "programs out = []"
  obtains "res = Inr ()" "programs out' = auth_steps t" "authenticated which run t"
  | e where "res = Inl e" "prefix (programs out') (auth_steps t)"
proof (cases "auth_check t")
  case None
  with assms that(1) show thesis by (auto simp: deploy_authenticate_def command_defs auth_steps_def authenticated_def)
next
  case (Some p)
  show thesis
  proof (cases "which (fst p)")
    case True
    with assms(1) Some have "\<exists>ctx bad. run_program run ctx bad p out = (res, out')"
      by (auto simp: deploy_authenticate_def)
    then obtain ctx bad where "run_program run ctx bad p out = (res, out')" by blast
    then show thesis
      by (cases rule: run_program_cases)
        (use that Some True assms(2) in \<open>auto simp: auth_steps_def authenticated_def\<close>)
  next
    case False
    then have "\<exists>e. res = Inl e" "out' = out" using assms(1) Some by (auto simp: deploy_authenticate_def command_defs)
    then show thesis using that(2) assms(2) by auto
  qed
qed

lemma deploy_run_cases:
  assumes "deploy_run which run t plan out = (res, out')" "programs out = []"
  shows "(res = Inr () \<and> programs out' = auth_steps t @ [plan] \<and> which (fst plan) \<and> authenticated which run t \<and>
       run (fst plan) (snd plan) = Inr None) \<or>
    (\<exists>e. res = Inl e) \<and> (programs out' = [] \<or> which (fst plan) \<and>
       (prefix (programs out') (auth_steps t) \<or> programs out' = auth_steps t @ [plan] \<and> authenticated which run t))"
proof (cases "which (fst plan)")
  case False
  then have "\<exists>e. res = Inl e" "out' = out" using assms(1) by (auto simp: deploy_run_def command_defs)
  then show ?thesis using assms(2) by simp
next
  case True
  obtain r o1 where auth: "deploy_authenticate which run t out = (r, o1)" by force
  from auth assms(2) show ?thesis
  proof (cases rule: authenticate_cases)
    case 1
    obtain r' o2 where run: "run_program run (''failed to start '' @ fst plan) (exit_message t) plan o1 = (r', o2)" by force
    then have res: "r' = Inl e \<Longrightarrow> res = Inl e \<and> out' = o2" "r' = Inr () \<Longrightarrow> res = Inr () \<and> programs out' = programs o2" for e
      using assms(1) True auth 1(1) by (auto simp: deploy_run_def command_defs)
    from run show ?thesis
      by (cases rule: run_program_cases) (use res 1 True in auto)
  next
    case (2 e)
    then have "res = Inl e" "out' = o1" using assms(1) True auth by (simp_all add: deploy_run_def command_defs)
    then show ?thesis using 2 True by blast
  qed
qed

lemma deploy_target_chosen: "deploy_target_of which t = Inr t' \<Longrightarrow> t' \<noteq> TAuto"
  by (auto simp: deploy_target_of_def split: if_splits)

lemma rsplit_once_None: "rsplit_once d s = None \<longleftrightarrow> d \<notin> set s"
  by (induction s) (auto split: option.splits)

lemma rsplit_once_append: "rsplit_once d s = Some (a, b) \<Longrightarrow> s = a @ [d] @ b \<and> d \<notin> set b"
proof (induction s arbitrary: a)
  case (Cons c cs)
  show ?case
  proof (cases "rsplit_once d cs")
    case None
    then have "d \<notin> set cs" by (simp add: rsplit_once_None)
    then show ?thesis using Cons.prems None by (auto split: if_splits)
  next
    case (Some p)
    with Cons show ?thesis by (cases p) auto
  qed
qed simp

text \<open>The chart puts repository and tag together again, with the image it was given.\<close>

lemma image_parts_rejoin:
  "image_parts img = (repository, tag) \<Longrightarrow> repository @ '':'' @ tag = img \<or> repository = img \<and> tag = ''latest''"
  by (auto simp: image_parts_def dest: rsplit_once_append split: option.splits)

section \<open>Benchmark\<close>

definition idle :: "inner \<Rightarrow> bool" where
  "idle s \<longleftrightarrow> sched_ok default_config s \<and> all_queued s = {#}"

lemma idle_new: "idle scheduler_new"
  by (simp add: idle_def sched_ok_def scheduler_new_def bt_ok_def all_queued_def)

lemma bench_step:
  assumes "idle s"
  shows "\<exists>d t r u. enqueue default_config 0 (bench_request i n) 0 20 1 1 s = (Inr d, t) \<and>
    pop_next default_config 0 t = Some (Some (bench_request i n), u) \<and> idle u"
proof -
  have ok: "sched_ok default_config s" and empty: "all_queued s = {#}" using assms by (auto simp: idle_def)
  have lim: "limits_ok default_config" by (simp add: limits_ok_def default_config_def u64_max_def)
  have "finite (dom (index s))" "mset_set (dom (index s)) = {#}" using ok empty by (auto simp: sched_ok_def)
  then have "dom (index s) = {}" by (metis mset_set_empty_iff)
  then have "index s (req_id (bench_request i n)) = None" by auto
  moreover have "depth s = 0" "bytes s = 0" using ok empty by (auto simp: sched_ok_def)
  ultimately obtain d t where e: "enqueue default_config 0 (bench_request i n) 0 20 1 1 s = (Inr d, t)"
    by (simp add: enqueue_def default_config_def Let_def rust_int u64_max_def)
  have t: "sched_ok default_config t" using enqueue_keeps [OF ok lim e] by simp
  obtain it where it: "q_request it = bench_request i n" "all_queued t = {#it#}"
    using enqueue_all_queued [OF _ e] ok empty by (auto simp: sched_ok_def)
  then have "queues t \<noteq> []" by (auto simp: all_queued_def)
  from pop_nonempty [OF t this, of 0] obtain item u where
    u: "pop_next default_config 0 t = Some (Some (q_request item), u)"
    "all_queued t = add_mset item (all_queued u)" "sched_ok default_config u" by blast
  then have "item = it" "all_queued u = {#}" using it by auto
  with e u it show ?thesis by (auto simp: idle_def)
qed

lemma bench_loop_idle: "idle s \<Longrightarrow> \<exists>t. bench_loop fresh k i s = Some (Inr t) \<and> idle t"
proof (induction k arbitrary: i s)
  case (Suc k)
  from bench_step [OF Suc.prems, of "fresh i" i] Suc.IH show ?case by fastforce
qed simp

section \<open>Drain\<close>

lemma drain_wait_ends:
  assumes "\<And>j. i \<le> j \<Longrightarrow> clock j + 50000000 \<le> clock (Suc j)" "deadline \<le> clock i + n * 50000000"
  shows "\<exists>k \<le> i + n. drain_wait active clock deadline i = Some k \<and> (active k = 0 \<or> deadline \<le> clock k)"
  using assms
proof (induction n arbitrary: i)
  case 0
  then show ?case by (subst drain_wait.simps) (auto simp: not_less)
next
  case (Suc n)
  show ?case
  proof (cases "0 < active i \<and> clock i < deadline")
    case True
    have "deadline \<le> clock (Suc i) + n * 50000000" using Suc.prems(1) [of i] Suc.prems(2) by simp
    then obtain k where "k \<le> Suc i + n" "drain_wait active clock deadline (Suc i) = Some k"
        "active k = 0 \<or> deadline \<le> clock k"
      using Suc.IH [of "Suc i"] Suc.prems(1) by (metis Suc_leD)
    then show ?thesis using True by (subst drain_wait.simps) auto
  next
    case False
    then show ?thesis by (subst drain_wait.simps) (auto simp: not_less)
  qed
qed

section \<open>Identities\<close>

lemma hex_digit_lower: "d < 16 \<Longrightarrow> hex_digit d \<in> set ''0123456789abcdef''"
  unfolding hex_digit_def by (rule nth_mem) simp

lemma hex_byte_lower: "b < 256 \<Longrightarrow> c \<in> set (hex_byte b) \<Longrightarrow> c \<in> set ''0123456789abcdef''"
  using hex_digit_lower [of "b div 16"] hex_digit_lower [of "b mod 16"]
  by (simp only: hex_byte_def set_simps) auto

text \<open>A mapping whose fingerprint has a letter that is not in lower case names no certificate.\<close>

lemma uppercase_fingerprint_unmatched:
  assumes "\<forall>c. \<forall>b \<in> set (sha256 c). b < 256" "f \<in> set (peer_fingerprints sha256 certs)" "x \<in> set f"
  shows "x \<in> set ''0123456789abcdef''"
proof -
  obtain c b where "b \<in> set (sha256 c)" "x \<in> set (hex_byte b)"
    using assms(2,3) by (auto simp: peer_fingerprints_def split: option.splits)
  then show ?thesis using assms(1) hex_byte_lower by blast
qed

text \<open>A bundle tells two configurations apart only by mode, addresses, pool names, kinds, capacities and hosts.\<close>

lemma sanitized_depends:
  assumes "cfg_mode c = cfg_mode d" "listen (server c) = listen (server d)" "admin_listen (admin c) = admin_listen (admin d)"
    and "list_all2 (\<lambda>(n, p) (m, q). n = m \<and> pool_provider p = pool_provider q \<and> capacity_units p = capacity_units q \<and>
       endpoint p = endpoint q) (cfg_pools c) (cfg_pools d)"
  shows "sanitized parse_url v c = sanitized parse_url v d"
proof -
  have "list_all2 R xs ys \<Longrightarrow> (\<And>x y. R x y \<Longrightarrow> f x = f y) \<Longrightarrow> map f xs = map f ys"
    for R :: "'a \<Rightarrow> 'a \<Rightarrow> bool" and f :: "'a \<Rightarrow> 'b" and xs ys
    by (induction rule: list_all2_induct) auto
  from this [OF assms(4), of "\<lambda>(n, p). \<lparr>dp_name = n, dp_provider = pool_provider p, dp_capacity_units = capacity_units p,
        dp_endpoint_host = (case parse_url (endpoint p) of Inl _ \<Rightarrow> None | Inr u \<Rightarrow> host_str u)\<rparr>"] assms(1-3)
  show ?thesis by (auto simp: sanitized_def)
qed

section \<open>Properties\<close>


text \<open>
  For a configured application, the effective class the policy test prints is the one the proxy gives a
  request of a trusted identity with that tenant and application; for any other application the test is an error.
\<close>

theorem policy_test_agrees:
  "policy_test text (Inr c) app ten class =
     (if map_of (applications (cfg_policies c)) app = None
      then (Inl [''application '' @ app @ '' is not configured''], [])
      else (Inr (), [Print (''requested_class='' @ class_to_string class @ line_feed @ ''tenant='' @ ten @ line_feed @
        ''application='' @ app @ line_feed @ ''effective_class='' @
        class_to_string (fst (effective_class_of c \<lparr>principal = who, tenant = ten, application = app, trusted = True\<rparr> class)) @
        line_feed @ ''reason='' @
        (if \<exists>p. map_of (applications (cfg_policies c)) app = Some p \<and> app_tenant p = ten \<and>
            class_to_string class \<in> set (allowed_classes p)
         then ''entitlement permits requested class''
         else ''request is downgraded because identity or class entitlement does not match'') @ line_feed)]))"
proof (cases "map_of (applications (cfg_policies c)) app")
  case (Some p)
  then show ?thesis
    by (cases "app_tenant p = ten \<and> class_to_string class \<in> set (allowed_classes p)")
      (auto simp: policy_test_def effective_class_of_def command_defs Let_def)
qed (simp add: policy_test_def command_defs)

text \<open>
  The benchmark's loop never fails: every request is accepted, popped at once, and the scheduler is empty
  again.  The command succeeds exactly when the low 32 bits of the number of decisions are not all zero, and panics
  on the division otherwise.
\<close>

theorem benchmark_outcome:
  "if n mod 2 ^ 32 = 0 then benchmark show_id show_time fresh elapsed n = None
   else \<exists>out. benchmark show_id show_time fresh elapsed n = Some (Inr (), out)"
  using bench_loop_idle [OF idle_new, of fresh n 0] by (auto simp: benchmark_def command_defs)


text \<open>
  C38.  The mode given on the command line is lost at the first reload: a proxy started in shadow mode on a file
  that says enforce enforces as soon as the file changes compatibly.
\<close>

theorem shadow_override_lost:
  assumes "serve_config (Inr c) (Some ModeShadow) = Inr c0" "app_config st = c0" "\<not> draining st"
    and "seen \<noteq> Some raw" "cfg_mode c' = ModeEnforce" "ensure_reload_compatible c c' = Inr ()"
    and "replace_config parse_net c' r = (Inr (), r')"
  shows "cfg_mode (app_config st) = ModeShadow \<and>
    cfg_mode (app_config (snd (snd (reload_tick parse_net (Some raw) (Inr c') (seen, r, st))))) = ModeEnforce"
proof -
  have c0: "c0 = c\<lparr>cfg_mode := ModeShadow\<rparr>" using assms(1) by (simp add: serve_config_def)
  then have "ensure_reload_compatible c0 c' = Inr ()" using assms(6) by (simp add: ensure_reload_compatible_def)
  then show ?thesis using assms by (simp add: reload_tick_def c0)
qed

section \<open>Witnesses\<close>


definition sample_deploy :: deploy_args where
  "sample_deploy = \<lparr>da_target = TAuto, da_dry_run = True, da_config = ''inferqos.yaml'', da_image = ''inferqos:1'',
     da_name = ''inferqos'', da_resource_group = None, da_region = None, da_project = None, da_vpc_id = None,
     da_subnets = [], da_config_secret = None\<rparr>"


definition sample_state :: "unit app_state" where
  "sample_state = \<lparr>app_config = example_config\<lparr>cfg_mode := ModeShadow\<rparr>, app_pools = [], app_sched = scheduler_new, app_pending = [],
     app_decisions = [], draining = False, app_metrics = no_metrics, app_coordinator = (),
     app_inside = \<lparr>act_tenants = Map.empty, act_applications = Map.empty\<rparr>, mailbox = Map.empty, listening = {}\<rparr>"

definition sample_resolver :: "(unit, unit) identity_resolver" where
  "sample_resolver = \<lparr>id_config = example_config\<lparr>cfg_mode := ModeShadow\<rparr>, trusted_proxies = [()], oidc_keys = None\<rparr>"

theorem shadow_override_lost_witness:
  "cfg_mode (app_config sample_state) = ModeShadow \<and>
   cfg_mode (app_config (snd (snd (reload_tick (\<lambda>_. Inr ()) (Some ''b'') (Inr example_config)
     (Some ''a'', sample_resolver, sample_state))))) = ModeEnforce"
  by (rule shadow_override_lost [where c = example_config and c0 = "example_config\<lparr>cfg_mode := ModeShadow\<rparr>" and
        r' = "sample_resolver\<lparr>trusted_proxies := [()], id_config := example_config\<rparr>"])
    (simp_all add: serve_config_def sample_state_def ensure_reload_compatible_def replace_config_def parse_proxies_def
      example_config_def)

end
