(* ===== verification/Relay.thy ===== *)
theory Relay
  imports Proxy Admission_Leases Coordinator_Properties "HOL-Library.Sublist"
begin

text \<open>
  The task that relays a response to the client (\<^verbatim>\<open>proxy_handler\<close> in \<^verbatim>\<open>crates/proxy/src/lib.rs\<close>, from the
  provider's response on): a loop that takes the next chunk or the next tick of the renewal timer, and
  completes the admission when either side ends.  Sending a chunk waits inside its branch of the loop,
  so no tick is served while the client does not read.
\<close>

section \<open>The task\<close>

text \<open>
  What the loop takes in turn, with the time it was taken.  A chunk also has the time its send ended; the
  channel to the client refuses it when the client is gone.
\<close>

datatype 'c relay_event =
    UpstreamChunk nat nat 'c
  | UpstreamEnd nat
  | RenewDue nat

definition relay_period :: "duration \<Rightarrow> duration" where
  "relay_period ttl = max (ttl div 3) 1000000000"

text \<open>The chunks sent so far, the state, and whether the loop has ended.\<close>

fun relay ::
  "'s proxy_env \<Rightarrow> (nat \<Rightarrow> bool) \<Rightarrow> guard \<Rightarrow> 'c relay_event list \<Rightarrow> 'c list \<times> 's app_state
     \<Rightarrow> 'c list \<times> 's app_state \<times> bool" where
  "relay env open_for g [] (out, st) = (out, st, False)"
| "relay env open_for g (UpstreamEnd _ # es) (out, st) = (out, st, True)"
| "relay env open_for g (UpstreamChunk _ _ c # es) (out, st) =
     (if open_for (length out) then relay env open_for g es (out @ [c], st) else (out, st, True))"
| "relay env open_for g (RenewDue _ # es) (out, st) =
     (if g_leases g \<noteq> None then relay env open_for g es (out, renew_tick env g st) else relay env open_for g es (out, st))"

text \<open>The whole task: the loop, then \<^verbatim>\<open>complete\<close> with the usage reported so far, and the drop of the emptied guard.\<close>

definition relay_task ::
  "'s proxy_env \<Rightarrow> (nat \<Rightarrow> bool) \<Rightarrow> guard \<Rightarrow> bool \<Rightarrow> work_estimate option \<Rightarrow> 'c relay_event list \<Rightarrow> 's app_state
     \<Rightarrow> 'c list \<times> ('s app_state) option" where
  "relay_task env open_for g throttled usage es st =
     (case relay env open_for g es ([], st) of
        (out, st', False) \<Rightarrow> (out, None)
      | (out, st', True) \<Rightarrow>
          (let (g', st'') = guard_complete env usage throttled g st'
           in (out, Some (snd (snd (guard_drop g' st''))))))"

section \<open>What is relayed\<close>

text \<open>The chunks before the upstream's end, in order.\<close>

fun upstream_chunks :: "'c relay_event list \<Rightarrow> 'c list" where
  "upstream_chunks [] = []"
| "upstream_chunks (UpstreamEnd _ # es) = []"
| "upstream_chunks (UpstreamChunk _ _ c # es) = c # upstream_chunks es"
| "upstream_chunks (RenewDue _ # es) = upstream_chunks es"

lemma relay_prefix: "prefix (fst (relay env open_for g es (out, st))) (out @ upstream_chunks es)"
proof (induction es arbitrary: out st)
  case (Cons e es)
  show ?case
  proof (cases e)
    case (UpstreamChunk t u c)
    then show ?thesis using Cons [of "out @ [c]" st] by (auto intro: prefixI)
  next
    case (RenewDue t)
    then show ?thesis using Cons by simp
  qed simp
qed simp

lemma relay_all: "\<forall>n. open_for n \<Longrightarrow> fst (relay env open_for g es (out, st)) = out @ upstream_chunks es"
proof (induction es arbitrary: out st)
  case (Cons e es)
  then show ?case by (cases e) simp_all
qed simp

text \<open>The loop changes the coordinator alone.\<close>

text \<open>The loop ends with the upstream, or before when the client is gone.\<close>

lemma relay_ends: "UpstreamEnd t \<in> set es \<Longrightarrow> snd (snd (relay env open_for g es (out, st)))"
proof (induction es arbitrary: out st)
  case (Cons e es)
  then show ?case by (cases e) auto
qed simp

lemma relay_task_ends: "UpstreamEnd t \<in> set es \<Longrightarrow> \<exists>st'. snd (relay_task env open_for g throttled usage es st) = Some st'"
  using relay_ends [of t es env open_for g "[]" st] by (auto simp: relay_task_def split: prod.splits bool.splits)

lemma relay_frame:
  "\<exists>s. fst (snd (relay env open_for g es (out, st))) = st\<lparr>app_coordinator := s\<rparr>"
proof (induction es arbitrary: out st)
  case Nil
  show ?case by (rule exI [of _ "app_coordinator st"]) simp
next
  case (Cons e es)
  show ?case
  proof (cases e)
    case (UpstreamChunk t u c)
    then show ?thesis using Cons [of "out @ [c]" st] by (auto intro: exI [of _ "app_coordinator st"])
  next
    case (UpstreamEnd t)
    then show ?thesis by (auto intro: exI [of _ "app_coordinator st"])
  next
    case (RenewDue t)
    have "renew_tick env g st = st\<lparr>app_coordinator := app_coordinator (renew_tick env g st)\<rparr>"
      by (cases "g_leases g") (simp_all add: renew_tick_def)
    then obtain s where "renew_tick env g st = st\<lparr>app_coordinator := s\<rparr>" by blast
    then show ?thesis using Cons [of out st] Cons [of out "renew_tick env g st"] RenewDue by auto
  qed
qed

section \<open>The leases of a relayed request\<close>

text \<open>The coordinator calls of the task: three renewals per tick, until the loop ends.\<close>

fun renew_times :: "'c relay_event list \<Rightarrow> nat list" where
  "renew_times [] = []"
| "renew_times (UpstreamEnd _ # es) = []"
| "renew_times (UpstreamChunk _ _ c # es) = renew_times es"
| "renew_times (RenewDue t # es) = t # renew_times es"

text \<open>
  The loop takes one event after the other: the next comes after the send of a chunk has ended, and none after the
  upstream's end.
\<close>

fun well_timed :: "nat \<Rightarrow> 'c relay_event list \<Rightarrow> bool" where
  "well_timed now [] \<longleftrightarrow> True"
| "well_timed now (UpstreamEnd t # es) \<longleftrightarrow> now \<le> t \<and> es = []"
| "well_timed now (UpstreamChunk t u c # es) \<longleftrightarrow> now \<le> t \<and> t \<le> u \<and> well_timed u es"
| "well_timed now (RenewDue t # es) \<longleftrightarrow> now \<le> t \<and> well_timed t es"

lemma renew_times_after: "well_timed now es \<Longrightarrow> x \<in> set (renew_times es) \<Longrightarrow> now \<le> x"
proof (induction es arbitrary: now)
  case (Cons e es)
  then show ?case by (cases e) (fastforce intro: le_trans)+
qed simp

lemma chunk_after: "well_timed now (pre @ UpstreamChunk t u c # post) \<Longrightarrow> now \<le> t"
proof (induction pre arbitrary: now)
  case (Cons e pre)
  then show ?case by (cases e) (fastforce intro: le_trans)+
qed simp

lemma no_renewal_while_sending:
  "well_timed now (pre @ UpstreamChunk t u c # post) \<Longrightarrow>
     x \<in> set (renew_times (pre @ UpstreamChunk t u c # post)) \<Longrightarrow> x \<le> t \<or> u \<le> x"
proof (induction pre arbitrary: now)
  case Nil
  then show ?case using renew_times_after [of u post x] by simp
next
  case (Cons e pre)
  then show ?case by (cases e) (auto dest: chunk_after)
qed

text \<open>Over the in-memory coordinator a tick is three renewals of the lease table, at the times the calls read the clock.\<close>

definition renewals :: "duration \<Rightarrow> admission_leases \<Rightarrow> (nat \<Rightarrow> instant) \<Rightarrow> lease_op list" where
  "renewals ttl ls clock =
     [LeaseRenew (clock 0) (lease_id (capacity_lease ls)) (lease_pool (capacity_lease ls)) ttl,
      LeaseRenew (clock 1) (lease_id (tenant_slot ls)) (lease_pool (tenant_slot ls)) ttl,
      LeaseRenew (clock 2) (lease_id (application_slot ls)) (lease_pool (application_slot ls)) ttl]"

lemma mem_renew_ref: "mem_renew now l ttl t = mem_extend now (lease_id l) (lease_pool l) ttl t"
  by (auto simp: mem_extend_def mem_renew_def lease_ref_def split: option.splits)

lemma renew_distributed_ledger:
  "be_table (renew_distributed (mem_ops ord) ttl ls b) =
     ledger_run (mem_grant ord) (mem_grant_scoped ord) mem_forget mem_extend
       (renewals ttl ls (\<lambda>n. be_clock b (be_calls b + n))) (be_table b)"
  by (simp add: renew_distributed_def renewals_def mem_ops_def served_by_def mem_renew_ref ledger_run_def Let_def
      case_prod_beta numeral_2_eq_2)

lemma mem_ids_renew: "mem_ids (snd (mem_renew now l ttl t)) = mem_ids t"
  by (force simp: mem_renew_def mem_ids_def fun_eq_iff entry_or_default_def AList.dom_update dest!: map_of_SomeD split: option.splits prod.splits)

lemma held_renew_tick:
  assumes "coord env = mem_ops ord"
  shows "held_by mem_ids (app_coordinator (renew_tick env g st)) = held_by mem_ids (app_coordinator st)"
  by (cases "g_leases g") (simp_all add: renew_tick_def assms renew_distributed_def mem_ops_def served_by_def held_by_def
      mem_ids_renew Let_def case_prod_beta)

lemma held_relay:
  assumes "coord env = mem_ops ord"
  shows "held_by mem_ids (app_coordinator (fst (snd (relay env open_for g es (out, st))))) =
    held_by mem_ids (app_coordinator st)"
proof (induction es arbitrary: out st)
  case (Cons e es)
  then show ?case using held_renew_tick [OF assms] by (cases e) simp_all
qed simp

lemma complete_releases:
  assumes "guard_complete env usage throttled g st = (g', st')" "g_leases g = Some ls"
  shows "app_coordinator st' = release_distributed (coord env) ls (app_coordinator st)"
  using assms by (auto simp: guard_complete_def release_local_def settle_def capacity_give_back_def
      set_pool_capacity_def bump_def Let_def split: option.splits if_splits)

context mem_coordinator
begin

lemma run_keeps_mem:
  assumes "mem_ok s" "\<forall>q. slots (mem_entries s q) \<le> L q \<and> (\<forall>c. c \<noteq> [] \<longrightarrow> slots (scoped c (mem_entries s q)) \<le> SL q c)"
    and "distinct (new_ids ops)" "\<forall>j \<in> set (new_ids ops). \<forall>q. j \<notin># image_mset fst (mem_entries s q)"
    and "\<forall>op \<in> set ops. op_within (\<lambda>_ _. True) L SL op"
    and "(i, k, r + d, sc) \<in># mem_entries s p" "kept_alive gap d i p r ops" "gap < d"
  shows "(i, k, last_renewal i p r ops + d, sc) \<in>#
    mem_entries (ledger_run (mem_grant ord) (mem_grant_scoped ord) mem_forget mem_extend ops s) p"
proof (rule mem.run_keeps)
  show "mem.in_limits L SL s" using assms(2) by (simp add: mem.in_limits_def)
  show "set (new_ids ops) \<inter> mem.ids s = {}" using assms(4) by (auto simp: mem.ids_def)
qed (use assms in simp_all)

end

end
