(* ===== verification/Relay_Properties.thy ===== *)
theory Relay_Properties
  imports Relay Proxy_Properties
begin

text \<open>
  What the relay of a response guarantees: the client gets a prefix of what the provider sent, and all of it
  while it reads; the admission is given back once, with its leases; a lease that is renewed in time outlives
  every other call; and what a client that stops reading costs.
\<close>

section \<open>Properties\<close>

text \<open>
  C23.  Relaying gives the admission back: when the task of an admitted request has ended, the client was sent a
  prefix of the provider's chunks, all of them if it kept reading; the concurrency counters and the number
  of active requests are what they were without the request; and the in-memory coordinator holds exactly the
  leases it held when the relay began, less the three of the request.
\<close>

theorem relay_returns_admission:
  assumes "admitted c q (Some ls) True out age st = (g, st1)"
    and "relay_task env open_for g throttled usage es st1 = (sent, Some st2)" "coord env = mem_ops ord"
    and "counts (app_inside st) = counts_plus (req_identity q) base" "m_active (app_metrics st) < u64_max"
  shows "prefix sent (upstream_chunks es) \<and> ((\<forall>n. open_for n) \<longrightarrow> sent = upstream_chunks es) \<and>
    counts (app_inside st2) = base \<and> m_active (app_metrics st2) = m_active (app_metrics st) \<and>
    held_by mem_ids (app_coordinator st2) = held_by mem_ids (app_coordinator st) - leases_of ls"
proof -
  have l: "g_leases g = Some ls" "app_coordinator st1 = app_coordinator st"
    using assms(1) by (auto simp: admitted_def bump_def)
  obtain st' g' st'' where r: "relay env open_for g es ([], st1) = (sent, st', True)"
    and k: "guard_complete env usage throttled g st' = (g', st'')" and d: "st2 = snd (snd (guard_drop g' st''))"
    using assms(2) by (auto simp: relay_task_def split: prod.splits bool.splits)
  obtain s where s: "st' = st1\<lparr>app_coordinator := s\<rparr>" using relay_frame [of env open_for g es "[]" st1] r by auto
  have a: "admitted c q (Some ls) True out age (st\<lparr>app_coordinator := s\<rparr>) = (g, st')"
    using assms(1) by (auto simp: admitted_def bump_def s)
  have b: "guard_drop g' st'' = (g', None, st'') \<and> counts (app_inside st'') = base \<and>
      m_active (app_metrics st'') = m_active (app_metrics st)"
    using guard_gives_back_once [OF a k, of base st''] assms(4,5) by simp
  have "held_by mem_ids (app_coordinator st'') = held_by mem_ids (app_coordinator st') - leases_of ls"
    using complete_releases [OF k l(1)] by (simp add: assms(3) mem_service.release_all)
  moreover have "held_by mem_ids (app_coordinator st') = held_by mem_ids (app_coordinator st)"
    using held_relay [OF assms(3), of open_for g es "[]" st1] r l(2) by simp
  moreover have "prefix sent (upstream_chunks es)" "(\<forall>n. open_for n) \<longrightarrow> sent = upstream_chunks es"
    using relay_prefix [of env open_for g es "[]" st1] relay_all [of open_for env g es "[]" st1] r by simp_all
  ultimately show ?thesis using b d by simp
qed

text \<open>
  C24.  A lease that is renewed in time is never lost: with renewals a period of the relay plus some delay apart, and
  that less than the lease's duration, a lease stays in the in-memory table over every sequence of other
  reservations, releases and renewals, and is live at every time within that distance of its last renewal.
\<close>

theorem relay_keeps_leases:
  assumes "\<forall>es. mset (ord es) = mset es" "relay_period ttl + delay < ttl"
    and "mem_ok s" "\<forall>q. slots (mem_entries s q) \<le> L q \<and> (\<forall>c. c \<noteq> [] \<longrightarrow> slots (scoped c (mem_entries s q)) \<le> SL q c)"
    and "distinct (new_ids ops)" "\<forall>j \<in> set (new_ids ops). \<forall>q. j \<notin># image_mset fst (mem_entries s q)"
    and "\<forall>op \<in> set ops. op_within (\<lambda>_ _. True) L SL op"
    and "(i, k, r + ttl, sc) \<in># mem_entries s p" "kept_alive (relay_period ttl + delay) ttl i p r ops"
    and "now \<le> last_renewal i p r ops + relay_period ttl + delay"
  shows "(i, k, last_renewal i p r ops + ttl, sc) \<in># live now
    (mem_entries (ledger_run (mem_grant ord) (mem_grant_scoped ord) mem_forget mem_extend ops s) p)"
proof -
  have m: "mem_coordinator ord" using assms(1) by unfold_locales blast
  from mem_coordinator.run_keeps_mem [OF m assms(3-9,2)] show ?thesis
    using assms(2,10) by (simp add: live_def)
qed


section \<open>Witnesses\<close>

definition one_lease :: lease_state where
  "one_lease = [''p'' \<mapsto> [(1, f_of_nat 1, 300 * 10 ^ 9, None)]]"

lemma one_lease_facts:
  "mem_ok one_lease" "mem_entries one_lease p = (if p = ''p'' then {#(1, 1, 300 * 10 ^ 9, [])#} else {#})"
proof -
  have v: "nat \<lfloor>f_val (f_of_nat 1)\<rfloor> = 1" by code_simp
  show "mem_entries one_lease p = (if p = ''p'' then {#(1, 1, 300 * 10 ^ 9, [])#} else {#})"
    using v by (simp add: mem_entries_def one_lease_def entry_or_default_def scope_text_def)
  show "mem_ok one_lease"
    using v by (simp add: mem_ok_def pool_ok_def one_lease_def entry_or_default_def hm_ok_def slot_max_def scope_text_def)
qed

definition other_calls :: "lease_op list" where
  "other_calls = [LeaseRenew (100 * 10 ^ 9) 1 ''p'' (300 * 10 ^ 9), LeaseReserve (150 * 10 ^ 9) 2 ''p'' 2 1 (300 * 10 ^ 9),
     LeaseRelease 2 ''p'', LeaseReserve (190 * 10 ^ 9) 3 ''p'' 2 1 (300 * 10 ^ 9)]"

theorem relay_keeps_leases_witness:
  "(1, 1, 400 * 10 ^ 9, []) \<in># live (200 * 10 ^ 9) (mem_entries
     (ledger_run (mem_grant rev) (mem_grant_scoped rev) mem_forget mem_extend other_calls one_lease) ''p'')"
  using relay_keeps_leases [of rev "300 * 10 ^ 9" "50 * 10 ^ 9" one_lease "\<lambda>_. 2" "\<lambda>_ _. 0" other_calls 1 1 0 "[]" "''p''" "200 * 10 ^ 9"]
    one_lease_facts
  by (simp add: other_calls_def relay_period_def slot_max_def scoped_def)


definition sample_lease :: "uuid \<Rightarrow> string \<Rightarrow> lease" where
  "sample_lease i p = \<lparr>lease_id = i, lease_pool = p, lease_units = f_of 1, expires_at = 300 * 10 ^ 9, lease_scope = None\<rparr>"

definition sample_leases :: admission_leases where
  "sample_leases = \<lparr>capacity_lease = sample_lease 1 ''p'', tenant_slot = sample_lease 2 ''t'', application_slot = sample_lease 3 ''a''\<rparr>"

definition relay_env :: "lease_state backend proxy_env" where
  "relay_env = \<lparr>coord = mem_ops rev, sched_cfg = default_config, lease_ttl = 300 * 10 ^ 9, tenant_ord = id,
     coordinator_text = (\<lambda>_. [])\<rparr>"

definition relay_state :: "lease_state backend app_state" where
  "relay_state = \<lparr>app_config = example_config, app_pools = [], app_sched = scheduler_new, app_pending = [],
     app_decisions = [], draining = False,
     app_metrics = \<lparr>m_requests = 1, m_admitted = 0, m_queued = 0, m_rejected = 0, m_shadow_would_queue = 0,
       m_provider_throttles = 0, m_active = 0\<rparr>,
     app_coordinator = \<lparr>be_clock = (\<lambda>n. n), be_ids = (\<lambda>n. n), be_links = (\<lambda>_. Delivered), be_calls = 3,
       be_table = [''p'' \<mapsto> [(1, f_of 1, 300 * 10 ^ 9, None)], ''t'' \<mapsto> [(2, f_of 1, 300 * 10 ^ 9, None)],
         ''a'' \<mapsto> [(3, f_of 1, 300 * 10 ^ 9, None)]]\<rparr>,
     app_inside = force_enter (req_identity proxy_example_request) \<lparr>act_tenants = Map.empty, act_applications = Map.empty\<rparr>,
     mailbox = Map.empty, listening = {}\<rparr>"

theorem relay_returns_admission_witness:
  "\<exists>g st1 st2. admitted example_config proxy_example_request (Some sample_leases) True ''admitted'' 0 relay_state = (g, st1) \<and>
     relay_task relay_env (\<lambda>_. True) g False None [UpstreamChunk 1 2 ''x'', RenewDue 3, UpstreamEnd 4] st1 = ([''x''], Some st2) \<and>
     held_by mem_ids (app_coordinator st2) = {} \<and> m_active (app_metrics st2) = 0"
proof -
  let ?es = "[UpstreamChunk 1 2 ''x'', RenewDue 3, UpstreamEnd 4]"
  obtain g st1 where a: "admitted example_config proxy_example_request (Some sample_leases) True ''admitted'' 0 relay_state = (g, st1)"
    by (rule prod.exhaust)
  have "snd (snd (relay relay_env (\<lambda>_. True) g ?es ([], st1)))" by simp
  then obtain sent st2 where t: "relay_task relay_env (\<lambda>_. True) g False None ?es st1 = (sent, Some st2)"
    by (auto simp: relay_task_def case_prod_beta split: bool.splits)
  have c: "counts (app_inside relay_state) = counts_plus (req_identity proxy_example_request) (\<lambda>_. 0, \<lambda>_. 0)"
    by (simp add: relay_state_def force_enter_def counts_def counts_plus_def active_count_def increment_def wrapping_add_def fun_eq_iff)
  have h: "held_by mem_ids (app_coordinator relay_state) = leases_of sample_leases"
    by (auto simp: held_by_def mem_ids_def relay_state_def entry_or_default_def leases_of_def lease_ref_of_def
        sample_leases_def sample_lease_def split: if_splits option.splits)
  have m: "m_active (app_metrics relay_state) = 0" by (simp add: relay_state_def)
  have "coord relay_env = mem_ops rev" by (simp add: relay_env_def)
  from relay_returns_admission [OF a t this c] m h have
    "sent = [''x''] \<and> held_by mem_ids (app_coordinator st2) = {} \<and> m_active (app_metrics st2) = 0"
    by (simp add: u64_max_def)
  with a t show ?thesis by blast
qed

end
