(* ===== verification/Management.thy ===== *)
theory Management
  imports Proxy
begin

text \<open>
  The management plane of \<^verbatim>\<open>crates/proxy/src/lib.rs\<close>: the routes of \<^verbatim>\<open>admin_router\<close>, the pages behind them, and the
  middleware that checks the token and adds headers to what it lets through.  JSON pages are kept as
  values; printing a float, the version, the uptime and the health of the coordinator and the pools are
  arguments.
\<close>

section \<open>Pages\<close>

record status_page =
  sp_version :: string
  sp_mode :: string
  sp_draining :: bool
  sp_uptime :: nat
  sp_active :: nat
  sp_queue :: queue_snapshot
  sp_requests :: nat
  sp_admitted :: nat
  sp_queued :: nat
  sp_rejected :: nat
  sp_shadow_would_queue :: nat
  sp_provider_throttles :: nat

definition status_of :: "string \<Rightarrow> nat \<Rightarrow> 's app_state \<Rightarrow> status_page" where
  "status_of version uptime st =
     (let m = app_metrics st
      in \<lparr>sp_version = version,
          sp_mode = (case cfg_mode (app_config st) of ModeEnforce \<Rightarrow> ''enforce'' | ModeShadow \<Rightarrow> ''shadow''),
          sp_draining = draining st, sp_uptime = uptime, sp_active = m_active m, sp_queue = snapshot (app_sched st),
          sp_requests = m_requests m, sp_admitted = m_admitted m, sp_queued = m_queued m, sp_rejected = m_rejected m,
          sp_shadow_would_queue = m_shadow_would_queue m, sp_provider_throttles = m_provider_throttles m\<rparr>)"

definition pool_statuses :: "'s app_state \<Rightarrow> (string \<times> capacity_status) list" where
  "pool_statuses st = map (\<lambda>(n, rt). (n, capacity_status (rt_model rt) (rt_capacity rt))) (app_pools st)"

text \<open>The capacity page collects the pools into a sorted map; the text page takes them as the hash map yields them.\<close>

definition capacity_page :: "'s app_state \<Rightarrow> (string \<times> capacity_status) list" where
  "capacity_page st = fold (\<lambda>(n, s). bt_insert n s) (pool_statuses st) []"

text \<open>The text page of the counters: a type line and a value line per counter, then four gauges per pool.\<close>

definition metric :: "string \<Rightarrow> string \<Rightarrow> nat \<Rightarrow> string" where
  "metric name ty n = ''# TYPE '' @ name @ '' '' @ ty @ ''\<newline>'' @ name @ '' '' @ nat_to_dec n @ ''\<newline>''"

definition gauge_line :: "(f64 \<Rightarrow> string) \<Rightarrow> string \<Rightarrow> string \<Rightarrow> f64 \<Rightarrow> string" where
  "gauge_line show_f64 name label x = name @ ''{pool='' @ [CHR 0x22] @ label @ [CHR 0x22] @ ''} '' @ show_f64 x @ ''\<newline>''"

definition pool_gauges :: "(f64 \<Rightarrow> string) \<Rightarrow> string \<times> capacity_status \<Rightarrow> string" where
  "pool_gauges show_f64 = (\<lambda>(name, s).
     let label = prometheus_escape name
     in gauge_line show_f64 ''inferqos_capacity_configured_units'' label (configured_units s) @
        gauge_line show_f64 ''inferqos_capacity_reserved_units'' label (reserved_units s) @
        gauge_line show_f64 ''inferqos_capacity_safety_factor'' label (safety_factor s) @
        gauge_line show_f64 ''inferqos_capacity_confidence'' label (cap_confidence s))"

definition gauge_types :: string where
  "gauge_types = concat (map (\<lambda>n. ''# TYPE '' @ n @ '' gauge\<newline>'')
     [''inferqos_capacity_configured_units'', ''inferqos_capacity_reserved_units'',
      ''inferqos_capacity_safety_factor'', ''inferqos_capacity_confidence''])"

definition metrics_text :: "(f64 \<Rightarrow> string) \<Rightarrow> 's app_state \<Rightarrow> string" where
  "metrics_text show_f64 st =
     (let m = app_metrics st
      in metric ''inferqos_requests_total'' ''counter'' (m_requests m) @
         metric ''inferqos_admitted_total'' ''counter'' (m_admitted m) @
         metric ''inferqos_queued_total'' ''counter'' (m_queued m) @
         metric ''inferqos_rejected_total'' ''counter'' (m_rejected m) @
         metric ''inferqos_shadow_would_queue_total'' ''counter'' (m_shadow_would_queue m) @
         metric ''inferqos_provider_throttles_total'' ''counter'' (m_provider_throttles m) @
         metric ''inferqos_active_requests'' ''gauge'' (m_active m) @
         metric ''inferqos_queue_depth'' ''gauge'' (snap_depth (snapshot (app_sched st))) @
         gauge_types @ concat (map (pool_gauges show_f64) (pool_statuses st)))"

section \<open>Routes\<close>

datatype admin_body =
    LivePage
  | ReadyPage nat nat
  | MetricsPage string
  | StatusPage status_page
  | CapacityPage "(string \<times> capacity_status) list"
  | QueuesPage queue_snapshot
  | DecisionsPage "decision_record list"
  | DashboardPage
  | ScriptPage
  | StylePage
  | ErrorPage problem
  | NoPage

record admin_response =
  ar_status :: nat
  ar_headers :: "(string \<times> string) list"
  ar_body :: admin_body

definition page :: "admin_body \<Rightarrow> admin_response" where
  "page b = \<lparr>ar_status = 200, ar_headers = [], ar_body = b\<rparr>"

definition asset :: "string \<Rightarrow> admin_body \<Rightarrow> admin_response" where
  "asset content_type b =
     \<lparr>ar_status = 200, ar_headers = [(''content-type'', content_type), (''cache-control'', ''no-store'')], ar_body = b\<rparr>"

definition problem_response :: "problem \<Rightarrow> admin_response" where
  "problem_response pr =
     \<lparr>ar_status = status pr,
      ar_headers = (case retry_after pr of None \<Rightarrow> [] | Some n \<Rightarrow> [(''retry-after'', nat_to_dec n)]),
      ar_body = ErrorPage pr\<rparr>"

record probes =
  pr_version :: string
  pr_uptime :: nat
  pr_coordinator :: "coordinator_error + unit"
  pr_pool_health :: "bool list"
  pr_show_f64 :: "f64 \<Rightarrow> string"

definition admin_pages :: "probes \<Rightarrow> 's app_state \<Rightarrow> (string \<times> admin_response) list" where
  "admin_pages pb st =
     [(''/health/live'', page LivePage),
      (''/health/ready'', case ready (draining st) (pr_coordinator pb) (pr_pool_health pb) of
          Inl pr \<Rightarrow> problem_response pr
        | Inr usable \<Rightarrow> page (ReadyPage (length (app_pools st)) usable)),
      (''/metrics'', page (MetricsPage (metrics_text (pr_show_f64 pb) st))),
      (''/api/v1/status'', page (StatusPage (status_of (pr_version pb) (pr_uptime pb) st))),
      (''/api/v1/capacity'', page (CapacityPage (capacity_page st))),
      (''/api/v1/queues'', page (QueuesPage (snapshot (app_sched st)))),
      (''/api/v1/decisions'', page (DecisionsPage (app_decisions st))),
      (''/ui'', page DashboardPage),
      (''/ui/app.js'', asset ''text/javascript; charset=utf-8'' ScriptPage),
      (''/ui/style.css'', asset ''text/css; charset=utf-8'' StylePage)]"

text \<open>The router: only reading methods are routed.\<close>

definition admin_route :: "probes \<Rightarrow> string \<Rightarrow> string \<Rightarrow> 's app_state \<Rightarrow> admin_response" where
  "admin_route pb meth path st =
     (case map_of (admin_pages pb st) path of
        None \<Rightarrow> \<lparr>ar_status = 404, ar_headers = [], ar_body = NoPage\<rparr>
      | Some r \<Rightarrow> if meth \<in> {''GET'', ''HEAD''} then r else \<lparr>ar_status = 405, ar_headers = [], ar_body = NoPage\<rparr>)"

definition begin_drain :: "'s app_state \<Rightarrow> 's app_state" where
  "begin_drain st = st\<lparr>draining := True\<rparr>"

definition security_headers :: "(string \<times> string) list" where
  "security_headers =
     [(''content-security-policy'', ''default-src 'self'; script-src 'self'; style-src 'self'; frame-ancestors '' @ [CHR 0x27] @ ''none'' @ [CHR 0x27]),
      (''x-content-type-options'', ''nosniff''), (''x-frame-options'', ''DENY''), (''referrer-policy'', ''no-referrer'')]"

definition admin_security ::
  "(string \<Rightarrow> string option) \<Rightarrow> probes \<Rightarrow> string \<Rightarrow> string \<Rightarrow> headers \<Rightarrow> 's app_state \<Rightarrow> admin_response" where
  "admin_security env pb meth path hs st =
     (case admin_check env (app_config st) path hs of
        Inl pr \<Rightarrow> problem_response pr
      | Inr _ \<Rightarrow>
          let r = admin_route pb meth path st
          in r\<lparr>ar_headers := filter (\<lambda>(n, _). n \<notin> fst ` set security_headers) (ar_headers r) @ security_headers\<rparr>)"

section \<open>Properties\<close>

lemma fold_bt_insert:
  "bt_ok m \<Longrightarrow> bt_ok (fold (\<lambda>(n, s). bt_insert n s) xs m) \<and>
     map_of (fold (\<lambda>(n, s). bt_insert n s) xs m) k = (case map_of (rev xs) k of None \<Rightarrow> map_of m k | Some v \<Rightarrow> Some v)"
proof (induction xs arbitrary: m)
  case (Cons x xs)
  obtain n s where x: "x = (n, s)" by (cases x)
  have "bt_ok (bt_insert n s m)" by (rule bt_ok_insert [OF Cons.prems])
  moreover have "map_of (bt_insert n s m) = (map_of m)(n \<mapsto> s)" by (rule map_of_bt_insert [OF Cons.prems])
  ultimately show ?case using Cons.IH [of "bt_insert n s m"] by (auto simp: x map_add_def split: option.splits)
qed simp

text \<open>Whatever the order of the pools, the capacity page is sorted and has each pool's own numbers.\<close>

theorem capacity_page_sorted:
  assumes "distinct (map fst (app_pools st))"
  shows "bt_ok (capacity_page st) \<and>
    map_of (capacity_page st) n = map_option (\<lambda>rt. capacity_status (rt_model rt) (rt_capacity rt)) (map_of (app_pools st) n)"
proof -
  have d: "distinct (map fst (pool_statuses st))"
    using assms by (simp add: pool_statuses_def comp_def case_prod_beta)
  have "map_of (rev (pool_statuses st)) = map_of (pool_statuses st)"
    using d map_of_inject_set [of "rev (pool_statuses st)" "pool_statuses st"] by (simp flip: rev_map)
  moreover have "map_of (pool_statuses st) n = map_option (\<lambda>rt. capacity_status (rt_model rt) (rt_capacity rt)) (map_of (app_pools st) n)"
    by (simp add: pool_statuses_def map_of_map)
  ultimately show ?thesis
    using fold_bt_insert [OF bt_ok_Nil, of "pool_statuses st" n] by (auto simp: capacity_page_def split: option.splits)
qed

text \<open>After the drain has begun no request is accepted and the instance is not ready.\<close>

lemma drain_refuses:
  "\<exists>pr. receive arr (begin_drain st) = (Answer pr, begin_drain st) \<and> status pr = 503"
  "ready (draining (begin_drain st)) c ps = Inl (problem_of 503 ''draining'' ''instance is draining'' None)"
  by (simp_all add: receive_def begin_drain_def ready_def problem_of_def)

text \<open>
  With a token configured, a page other than the two health checks is answered only to a request that carries the
  token; and everything that passes the check has the four headers.
\<close>

theorem admin_pages_guarded:
  assumes "bearer_token_env (admin (app_config st)) = Some v" "path \<notin> {''/health/live'', ''/health/ready''}"
    and "ar_body (admin_security env pb meth path hs st) = b" "\<forall>pr. b \<noteq> ErrorPage pr"
  shows "\<exists>t. env v = Some t \<and> hs ''authorization'' = Some (''Bearer '' @ t) \<and>
    set security_headers \<subseteq> set (ar_headers (admin_security env pb meth path hs st))"
proof -
  have c: "admin_check env (app_config st) path hs = Inr ()"
    using assms(3,4) by (auto simp: admin_security_def problem_response_def split: sum.splits)
  then obtain t where "env v = Some t" "Option.bind (hs ''authorization'') strip_bearer = Some t"
    using assms(1,2) by (auto simp: admin_check_def split: if_splits option.splits)
  moreover have "set security_headers \<subseteq> set (ar_headers (admin_security env pb meth path hs st))"
    by (simp add: admin_security_def c Let_def)
  ultimately show ?thesis using strip_bearer_iff by blast
qed

text \<open>The setting \<^verbatim>\<open>expose_decisions\<close> is read nowhere: without a token the decision history is served whatever it says.\<close>

theorem decisions_always_served:
  assumes "bearer_token_env (admin (app_config st)) = None"
  shows "ar_body (admin_security env pb ''GET'' ''/api/v1/decisions'' hs st) = DecisionsPage (app_decisions st)"
  using assms by (simp add: admin_security_def admin_check_def admin_route_def admin_pages_def page_def Let_def)

end
