(* ===== verification/Config_Defaults.thy ===== *)
theory Config_Defaults
  imports Config
begin

text \<open>
  The values of absent fields of the configuration (\<^verbatim>\<open>crates/config/src/lib.rs\<close>, the \<^verbatim>\<open>default_*\<close> functions and the
  derived defaults), and that a configuration that leaves out everything optional is valid.
\<close>

section \<open>Defaults\<close>

text \<open>\<open>tmp\<close> is the directory for temporary files.\<close>

definition default_server :: "string \<Rightarrow> string \<Rightarrow> server_config" where
  "default_server tmp addr = \<lparr>listen = addr, tls = None, max_body_bytes = 16 * 1024 * 1024,
     spool_threshold_bytes = 256 * 1024, spool_directory = tmp @ ''/inferqos-spool'',
     config_reload_interval = 2 * 1000000000\<rparr>"

definition default_admin :: "string \<Rightarrow> admin_config" where
  "default_admin addr = \<lparr>admin_listen = addr, bearer_token_env = None, expose_decisions = False\<rparr>"

definition default_pool :: "provider_kind \<Rightarrow> string \<Rightarrow> f64 \<Rightarrow> pool_config" where
  "default_pool kd url units = \<lparr>pool_provider = kd, endpoint = url, pool_model = None, deployment = None, region = None,
     external_adapter = None, capacity_units = units, auth = AuthNone, allowed_hosts = [],
     initial_safety_factor = f_of (115 / 100)\<rparr>"

definition default_api_key :: "string \<Rightarrow> auth_config" where
  "default_api_key var = AuthApiKey var ''api-key''"

definition default_application :: "string \<Rightarrow> string list \<Rightarrow> application_policy" where
  "default_application tn classes = \<lparr>app_tenant = tn, allowed_classes = classes, app_weight = 1, app_concurrency = 100,
     permitted_pools = []\<rparr>"

definition default_oidc :: "string \<Rightarrow> string \<Rightarrow> oidc_config" where
  "default_oidc iss aud = \<lparr>issuer = iss, audience = aud, jwks_url = None, principal_claim = ''sub'',
     tenant_claim = ''tenant'', application_claim = ''application'', oidc_required = False\<rparr>"

definition default_identity :: identity_config where
  "default_identity = \<lparr>oidc = None, trusted_proxy_cidrs = [], trusted_headers = default_trusted_headers,
     mtls_san_mappings = [], mtls_certificate_sha256_mappings = []\<rparr>"

text \<open>A configuration with the required fields only, and policies without optional fields.\<close>

definition minimal_config ::
  "string \<Rightarrow> string \<Rightarrow> string \<Rightarrow> (string \<times> service_class_config) list \<Rightarrow> (string \<times> pool_config) list
     \<Rightarrow> string list \<Rightarrow> (string \<times> string \<times> string list) list \<Rightarrow> config" where
  "minimal_config tmp addr admin_addr classes pools tns apps =
     \<lparr>api_version = ''inferqos.io/v1alpha1'', kind = ''InferQoSConfig'', cfg_mode = ModeShadow,
      server = default_server tmp addr, admin = default_admin admin_addr, coordinator = CoordMemory,
      service_classes = classes, cfg_pools = pools,
      cfg_policies = \<lparr>tenants = map (\<lambda>t. (t, default_tenant_policy)) tns,
        applications = map (\<lambda>(a, t, cs). (a, default_application t cs)) apps, api_keys = []\<rparr>,
      identity = default_identity, limits = default_limits\<rparr>"

section \<open>Validity\<close>

lemma default_pool_valid:
  "kd \<noteq> ExternalGrpc \<Longrightarrow> is_finite units \<Longrightarrow> f_of 0 < units \<Longrightarrow> pool_valid (default_pool kd url units)"
proof -
  assume a: "kd \<noteq> ExternalGrpc" "is_finite units" "f_of 0 < units"
  have "f_of 1 \<le> f_of (115 / 100)" "f_of (115 / 100) \<le> f_of 4" by (rule f_of_mono, simp)+
  with a show ?thesis by (simp add: pool_valid_def default_pool_def del: f_of_0 f_of_1 f_of_numeral)
qed

lemma default_tenant_valid: "tenant_valid default_tenant_policy"
  using f_of_mono [of 0 1] by (simp add: tenant_valid_def default_tenant_policy_def f_ops)

text \<open>
  Leaving out what may be left out gives a valid configuration: for all five service classes with non-zero
  weights and bounds, pools of finite positive capacity, and applications of listed tenants and known
  classes, validation accepts.
\<close>

theorem minimal_config_valid:
  assumes "\<forall>r. \<exists>k. map_of classes (class_to_string r) = Some k"
    and "\<forall>(n, k) \<in> set classes. 0 < cls_weight k \<and> 0 < max_queued k"
    and "pools \<noteq> []" "\<forall>(n, kd, url, units) \<in> set pools. kd \<noteq> ExternalGrpc \<and> is_finite units \<and> f_of 0 < units"
    and "\<forall>(a, t, cs) \<in> set apps. t \<in> set tns \<and> (\<forall>c \<in> set cs. \<exists>k. map_of classes c = Some k)"
  shows "validate parse_net parse_url (minimal_config tmp addr admin_addr classes
     (map (\<lambda>(n, kd, url, units). (n, default_pool kd url units)) pools) tns apps) = Inr ()"
proof -
  have "\<forall>(_, p) \<in> set (map (\<lambda>(n, kd, url, units). (n, default_pool kd url units)) pools). pool_valid p"
    using assms(4) default_pool_valid by (auto simp: case_prod_beta)
  moreover have "\<exists>p. map_of (map (\<lambda>t. (t, default_tenant_policy)) tns) t = Some p" if "t \<in> set tns" for t
    using that by (induction tns) auto
  ultimately show ?thesis
    unfolding validate_iff config_valid_def minimal_config_def
    using assms(1-3,5) default_tenant_valid
    by (auto simp: default_server_def default_identity_def default_limits_def default_application_def)
qed

text \<open>
  The default spool threshold is absolute: a body limit below it, given alone, is refused.
\<close>

lemma small_body_limit_refused:
  assumes "0 < n" "n < 256 * 1024" "cfg_pools c \<noteq> []" "api_version c = ''inferqos.io/v1alpha1''" "kind c = ''InferQoSConfig''"
    and "server c = (default_server tmp addr)\<lparr>max_body_bytes := n\<rparr>"
  shows "validate parse_net parse_url c = Inl BodyLimits"
  unfolding validate_def try_all.simps(2) using assms by (simp add: default_server_def require_def)

end
