(* ===== verification/Telemetry.thy ===== *)
theory Telemetry
  imports Prelude Core
begin

text \<open>
  \<^verbatim>\<open>crates/telemetry/src/lib.rs\<close>: which exporters start, the instruments and the labels of their measurements.
  The OpenTelemetry libraries are arguments: building an exporter and installing the subscriber give an error text or succeed.
\<close>

section \<open>Starting and stopping\<close>

record ('t, 'm) telemetry_guard =
  tracer :: "'t option"
  meter :: "'m option"

datatype telemetry_error = TelemetryConfiguration string

fun telemetry_text :: "telemetry_error \<Rightarrow> string" where
  "telemetry_text (TelemetryConfiguration e) = ''telemetry configuration failed: '' @ e"

text \<open>The exporters of an endpoint are built first, and the subscriber is installed last.\<close>

definition telemetry_init ::
  "(string \<Rightarrow> string + 't) \<Rightarrow> (string \<Rightarrow> string + 'm) \<Rightarrow> (('t \<times> 'm) option \<Rightarrow> string + unit) \<Rightarrow> string option \<Rightarrow>
     telemetry_error + ('t, 'm) telemetry_guard" where
  "telemetry_init build_tracer build_meter subscribe otlp =
     (case otlp of
        None \<Rightarrow>
          (case subscribe None of
             Inl e \<Rightarrow> Inl (TelemetryConfiguration e)
           | Inr _ \<Rightarrow> Inr \<lparr>tracer = None, meter = None\<rparr>)
      | Some url \<Rightarrow>
          (case build_tracer url of
             Inl e \<Rightarrow> Inl (TelemetryConfiguration e)
           | Inr t \<Rightarrow>
               (case build_meter url of
                  Inl e \<Rightarrow> Inl (TelemetryConfiguration e)
                | Inr m \<Rightarrow>
                    (case subscribe (Some (t, m)) of
                       Inl e \<Rightarrow> Inl (TelemetryConfiguration e)
                     | Inr _ \<Rightarrow> Inr \<lparr>tracer = Some t, meter = Some m\<rparr>))))"

text \<open>The providers a shutdown stops, in order; what stopping them returns is ignored.\<close>

definition telemetry_shutdown :: "('t, 'm) telemetry_guard \<Rightarrow> ('t + 'm) list" where
  "telemetry_shutdown g =
     (case tracer g of None \<Rightarrow> [] | Some t \<Rightarrow> [Inl t]) @ (case meter g of None \<Rightarrow> [] | Some m \<Rightarrow> [Inr m])"

section \<open>Instruments\<close>

datatype instrument =
    Requests | ActiveRequests | AdmissionLatency | QueueLatency | EstimatedWork | ActualWork | EstimationError | Throttles
  | CoordinatorFailures

fun instrument_name :: "instrument \<Rightarrow> string" where
  "instrument_name Requests = ''inferqos.requests''"
| "instrument_name ActiveRequests = ''inferqos.active_requests''"
| "instrument_name AdmissionLatency = ''inferqos.admission.decision.duration''"
| "instrument_name QueueLatency = ''inferqos.scheduler.queue.duration''"
| "instrument_name EstimatedWork = ''inferqos.work.estimated''"
| "instrument_name ActualWork = ''inferqos.work.actual''"
| "instrument_name EstimationError = ''inferqos.work.estimation_error''"
| "instrument_name Throttles = ''inferqos.provider.throttles''"
| "instrument_name CoordinatorFailures = ''inferqos.coordinator.failures''"

type_synonym labels = "(string \<times> string) list"

datatype measurement = Add instrument int labels | Record instrument f64 labels

definition class_labels :: "string \<Rightarrow> labels" where
  "class_labels class = [(''inferqos.service_class'', class)]"

datatype metric_call =
    MRequest string f64
  | MActive int string
  | MAdmission f64 string
  | MQueue f64 string
  | MThrottle string
  | MCoordinatorFailure
  | MReconciliation f64 f64 string

fun measure :: "metric_call \<Rightarrow> measurement list" where
  "measure (MRequest class work) = [Add Requests 1 (class_labels class), Record EstimatedWork work (class_labels class)]"
| "measure (MActive delta class) = [Add ActiveRequests delta (class_labels class)]"
| "measure (MAdmission seconds class) = [Record AdmissionLatency seconds (class_labels class)]"
| "measure (MQueue seconds class) = [Record QueueLatency seconds (class_labels class)]"
| "measure (MThrottle provider) = [Add Throttles 1 [(''gen_ai.provider.name'', provider)]]"
| "measure MCoordinatorFailure = [Add CoordinatorFailures 1 []]"
| "measure (MReconciliation estimated actual class) =
     Record ActualWork actual (class_labels class) #
     (if f_of 0 < estimated then [Record EstimationError ((actual - estimated) / estimated) (class_labels class)] else [])"

section \<open>Properties\<close>

text \<open>Providers run exactly when an endpoint is set, and a shutdown stops exactly those that run.\<close>

lemma telemetry_only_with_endpoint:
  assumes "telemetry_init bt bm sub otlp = Inr g"
  shows "(tracer g \<noteq> None) = (otlp \<noteq> None) \<and> (meter g \<noteq> None) = (otlp \<noteq> None) \<and>
    length (telemetry_shutdown g) = (if otlp = None then 0 else 2)"
  using assms by (auto simp: telemetry_init_def telemetry_shutdown_def split: option.splits sum.splits)

fun labels_of :: "measurement \<Rightarrow> labels" where
  "labels_of (Add _ _ ls) = ls"
| "labels_of (Record _ _ ls) = ls"

fun instrument_of :: "measurement \<Rightarrow> instrument" where
  "instrument_of (Add i _ _) = i"
| "instrument_of (Record i _ _) = i"

text \<open>A call whose class is that of a service class and whose provider is one of the listed ones.\<close>

fun known_names :: "string set \<Rightarrow> metric_call \<Rightarrow> bool" where
  "known_names ps (MRequest class _) \<longleftrightarrow> class \<in> range class_to_string"
| "known_names ps (MActive _ class) \<longleftrightarrow> class \<in> range class_to_string"
| "known_names ps (MAdmission _ class) \<longleftrightarrow> class \<in> range class_to_string"
| "known_names ps (MQueue _ class) \<longleftrightarrow> class \<in> range class_to_string"
| "known_names ps (MThrottle p) \<longleftrightarrow> p \<in> ps"
| "known_names ps MCoordinatorFailure \<longleftrightarrow> True"
| "known_names ps (MReconciliation _ _ class) \<longleftrightarrow> class \<in> range class_to_string"

definition label_space :: "string set \<Rightarrow> labels set" where
  "label_space ps = insert [] ((\<lambda>k. class_labels (class_to_string k)) ` UNIV \<union> (\<lambda>p. [(''gen_ai.provider.name'', p)]) ` ps)"

lemma label_space_finite: "finite (label_space ps)" if "finite ps"
proof -
  have "(UNIV :: service_class set) = set [Realtime, Interactive, Standard, Workflow, Batch]"
    by (auto intro: service_class.exhaust)
  then have "finite (UNIV :: service_class set)" by (metis List.finite_set)
  then show ?thesis using that by (simp add: label_space_def)
qed

text \<open>Cardinality is bounded: no matter how many calls, the pairs of instrument and labels come from a finite set.\<close>

theorem bounded_cardinality:
  assumes "finite ps" "\<forall>c\<in>set cs. known_names ps c"
  shows "(\<lambda>m. (instrument_of m, labels_of m)) ` set (concat (map measure cs)) \<subseteq> UNIV \<times> label_space ps
    \<and> finite (label_space ps)"
proof -
  have "labels_of m \<in> label_space ps" if "known_names ps c" "m \<in> set (measure c)" for c m
    using that by (cases c) (auto simp: label_space_def class_labels_def split: if_splits)
  then show ?thesis using assms label_space_finite by (auto)
qed

text \<open>A counter only grows, by one a call: its value after any calls is the number of the calls that name it.\<close>

definition counter_value :: "instrument \<Rightarrow> metric_call list \<Rightarrow> int" where
  "counter_value i cs = (\<Sum>m\<leftarrow>concat (map measure cs). case m of Add j d _ \<Rightarrow> (if j = i then d else 0) | Record _ _ _ \<Rightarrow> 0)"

lemma counter_counts_requests:
  "counter_value Requests cs = int (length (filter (\<lambda>c. \<exists>k w. c = MRequest k w) cs))"
proof (induction cs)
  case Nil
  then show ?case by (simp add: counter_value_def)
next
  case (Cons c cs)
  then show ?case by (cases c) (auto simp: counter_value_def)
qed

end
