(* ===== verification/Cli_Main.thy ===== *)
theory Cli_Main
  imports Cli Telemetry
begin

text \<open>
  The rest of \<^verbatim>\<open>crates/cli/src/main.rs\<close>: the commands that ask another server (the capacity of a running instance and
  the latest release), the version text, the client certificates of a connection,
  and the choice of a command in \<^verbatim>\<open>main\<close>.  The answer of a server is
  an argument; JSON values are those of the providers' model.
\<close>

section \<open>Asking a server\<close>

record http_answer =
  ha_status :: nat
  ha_status_text :: string
  ha_status_error :: "string option"
  ha_json :: "string + json"

definition is_success :: "nat \<Rightarrow> bool" where
  "is_success st \<longleftrightarrow> 200 \<le> st \<and> st < 300"

definition capacity_command ::
  "(string \<Rightarrow> string + http_answer) \<Rightarrow> (json \<Rightarrow> string + string) \<Rightarrow> string \<Rightarrow> command_result" where
  "capacity_command get to_pretty admin_url =
     (case with_context ''cannot reach InferQoS admin API'' (get (trim_end_slashes admin_url @ ''/api/v1/capacity'')) of
        Inl e \<Rightarrow> failed e []
      | Inr a \<Rightarrow>
          if \<not> is_success (ha_status a) then failed [''admin API returned '' @ ha_status_text a] []
          else (case res_then (ha_json a) to_pretty of
                  Inl e \<Rightarrow> failed [e] []
                | Inr s \<Rightarrow> done_with [Print (s @ line_feed)]))"

fun as_str :: "json \<Rightarrow> string option" where
  "as_str (JString s) = Some s"
| "as_str _ = None"

definition upgrade :: "(string \<Rightarrow> string + http_answer) \<Rightarrow> string \<Rightarrow> bool \<Rightarrow> command_result" where
  "upgrade get version check =
     (case with_context ''cannot query GitHub Releases'' (get ''https://api.github.com/repos/dlamaro96/inferqos/releases/latest'') of
        Inl e \<Rightarrow> failed e []
      | Inr a \<Rightarrow>
          if ha_status a = 404 then failed [''no published InferQoS release exists yet''] []
          else (case ha_status_error a of
                  Some e \<Rightarrow> failed [e] []
                | None \<Rightarrow>
                    (case ha_json a of
                       Inl e \<Rightarrow> failed [e] []
                     | Inr v \<Rightarrow>
                         (case Option.bind (json_get v ''tag_name'') as_str of
                            None \<Rightarrow> failed [''release has no tag''] []
                          | Some tag \<Rightarrow>
                              done_with (Print (''Current: v'' @ version @ line_feed @ ''Latest:  '' @ tag @ line_feed) #
                                (if check then []
                                 else [Print (''Run the verified installer for '' @ tag @
                                   ''; it validates SHA256 checksums before replacing the binary.'' @ line_feed)]))))))"

definition version_text :: "string \<Rightarrow> string option \<Rightarrow> string option \<Rightarrow> string \<Rightarrow> string" where
  "version_text version sha build_target arch =
     ''inferqos '' @ version @ line_feed @
     ''git_sha '' @ (case sha of None \<Rightarrow> ''unknown'' | Some s \<Rightarrow> s) @ line_feed @
     ''build_target '' @ (case build_target of None \<Rightarrow> arch | Some s \<Rightarrow> s) @ line_feed @
     ''features default'' @ line_feed"

section \<open>Client certificates\<close>

text \<open>
  The listener with client certificates: a handshake that succeeds gives the stream, the service and the
  certificates of the peer; the service then adds their fingerprints to every request of the connection, and
  the handler reads them and the peer's address there.
\<close>

record 'ip extensions =
  ext_peer :: "'ip option"
  ext_certificate :: "string list option"

definition mtls_accept ::
  "('cert \<Rightarrow> nat list) \<Rightarrow> string + 'stream \<times> 'cert list option \<Rightarrow> string + 'stream \<times> string list" where
  "mtls_accept sha256 handshake = map_sum id (\<lambda>(stream, certs). (stream, peer_fingerprints sha256 certs)) handshake"

definition certificate_call :: "string list \<Rightarrow> 'ip extensions \<Rightarrow> 'ip extensions" where
  "certificate_call certificate ext = ext\<lparr>ext_certificate := Some certificate\<rparr>"

definition request_origin :: "'ip extensions \<Rightarrow> 'ip option \<times> string list" where
  "request_origin ext = (ext_peer ext, case ext_certificate ext of None \<Rightarrow> [] | Some fs \<Rightarrow> fs)"

section \<open>Commands\<close>

datatype commands =
    Serve string
  | Shadow string
  | InitCommand string bool
  | Validate string
  | Doctor string "deploy_target option"
  | PolicyTest string string string service_class
  | CapacityStatus string
  | Analyze string replay_args
  | Replay string replay_args
  | Benchmark nat
  | Deploy deploy_args
  | Upgrade bool
  | Version
  | Explain uuid string
  | DiagnosticsCollect string string

text \<open>The functions behind the commands, each over what it takes of the command line.\<close>

record 'r handlers =
  h_serve :: "string \<Rightarrow> mode option \<Rightarrow> 'r"
  h_init :: "string \<Rightarrow> bool \<Rightarrow> 'r"
  h_validate :: "string \<Rightarrow> 'r"
  h_doctor :: "string \<Rightarrow> deploy_target option \<Rightarrow> 'r"
  h_policy :: "string \<Rightarrow> string \<Rightarrow> string \<Rightarrow> service_class \<Rightarrow> 'r"
  h_capacity :: "string \<Rightarrow> 'r"
  h_replay :: "string \<Rightarrow> replay_args \<Rightarrow> 'r"
  h_benchmark :: "nat \<Rightarrow> 'r"
  h_deploy :: "deploy_args \<Rightarrow> 'r"
  h_upgrade :: "bool \<Rightarrow> 'r"
  h_version :: 'r
  h_explain :: "uuid \<Rightarrow> string \<Rightarrow> 'r"
  h_diagnostics :: "string \<Rightarrow> string \<Rightarrow> 'r"

fun run_command :: "'r handlers \<Rightarrow> commands \<Rightarrow> 'r" where
  "run_command h (Serve cfg) = h_serve h cfg None"
| "run_command h (Shadow cfg) = h_serve h cfg (Some ModeShadow)"
| "run_command h (InitCommand dest enforce) = h_init h dest enforce"
| "run_command h (Validate cfg) = h_validate h cfg"
| "run_command h (Doctor cfg t) = h_doctor h cfg t"
| "run_command h (PolicyTest cfg app tn k) = h_policy h cfg app tn k"
| "run_command h (CapacityStatus url) = h_capacity h url"
| "run_command h (Analyze path args) = h_replay h path args"
| "run_command h (Replay path args) = h_replay h path args"
| "run_command h (Benchmark n) = h_benchmark h n"
| "run_command h (Deploy args) = h_deploy h args"
| "run_command h (Upgrade check) = h_upgrade h check"
| "run_command h Version = h_version h"
| "run_command h (Explain i url) = h_explain h i url"
| "run_command h (DiagnosticsCollect cfg dest) = h_diagnostics h cfg dest"

text \<open>\<^verbatim>\<open>main\<close>: telemetry starts first, and its providers are stopped whatever the command returned.\<close>

definition main_command ::
  "telemetry_error + ('t, 'm) telemetry_guard \<Rightarrow> command_result handlers \<Rightarrow> commands \<Rightarrow> command_result \<times> ('t + 'm) list" where
  "main_command telemetry h c =
     (case telemetry of
        Inl e \<Rightarrow> (failed [telemetry_text e] [], [])
      | Inr g \<Rightarrow> (run_command h c, telemetry_shutdown g))"

section \<open>Properties\<close>

text \<open>An upgrade check changes nothing: the command prints and does no more, and prints only a tag the server gave.\<close>

lemma upgrade_prints_only:
  "set (snd (upgrade get version check)) \<subseteq> range Print"
  by (auto simp: upgrade_def failed_def done_with_def split: sum.splits option.splits)

lemma upgrade_needs_release:
  assumes "upgrade get version check = (Inr (), out)"
  shows "\<exists>a v tag. get ''https://api.github.com/repos/dlamaro96/inferqos/releases/latest'' = Inr a \<and> ha_json a = Inr v \<and>
    json_get v ''tag_name'' = Some (JString tag) \<and> ha_status a \<noteq> 404 \<and> ha_status_error a = None"
proof -
  have "x = JString s" if "as_str x = Some s" for x s using that by (cases x) auto
  then show ?thesis
    using assms by (auto simp: upgrade_def failed_def done_with_def with_context_def bind_eq_Some_conv
        split: sum.splits option.splits if_splits)
qed

text \<open>Every provider that telemetry started is stopped, also when the command fails.\<close>

lemma main_stops_telemetry:
  assumes "telemetry_init bt bm sub otlp = Inr g"
  shows "fst (main_command (telemetry_init bt bm sub otlp) h c) = run_command h c \<and>
    length (snd (main_command (telemetry_init bt bm sub otlp) h c)) = (if otlp = None then 0 else 2)"
  using telemetry_only_with_endpoint [OF assms] by (simp add: main_command_def assms)

text \<open>
  On a connection whose client presented a certificate with a mapped fingerprint, every request has a mapped identity,
  whatever its headers and its other extensions say.
\<close>

lemma first_mapping_found: "first_mapping fs ms \<noteq> None" if "f \<in> set fs" "map_of ms f = Some m"
  using that by (induction fs) (auto split: option.splits)

lemma first_mapping_listed: "first_mapping fs ms = Some m \<Longrightarrow> m \<in> snd ` set ms"
  by (induction fs) (auto split: option.splits dest!: map_of_SomeD intro: rev_image_eqI)

theorem mtls_identity:
  assumes "mtls_accept sha256 (Inr (stream, Some certs)) = Inr (stream, fs)" "cert \<in> set certs"
    and "map_of (mtls_certificate_sha256_mappings (identity (id_config r))) (concat (map hex_byte (sha256 cert))) = Some m"
    and "request_origin (certificate_call fs ext) = (peer, seen)"
  shows "\<exists>m' \<in> snd ` set (mtls_certificate_sha256_mappings (identity (id_config r))).
    resolve contains env decode_header decode from_jwk reply hs peer seen r = (Inr (mapped m'), r)"
proof -
  have "seen = map (\<lambda>c. concat (map hex_byte (sha256 c))) certs"
    using assms(1,4) by (auto simp: mtls_accept_def peer_fingerprints_def request_origin_def certificate_call_def)
  then have "concat (map hex_byte (sha256 cert)) \<in> set seen" using assms(2) by simp
  from first_mapping_found [OF this assms(3)] obtain m' where
    m': "first_mapping seen (mtls_certificate_sha256_mappings (identity (id_config r))) = Some m'" by blast
  show ?thesis
    by (rule bexI [OF _ first_mapping_listed [OF m']]) (simp add: resolve_def Let_def m')
qed

end
