(* ===== verification/Spec2Isabelle.thy ===== *)
theory Spec2Isabelle
  imports Scheduler_Properties Capacity Coordinator_Properties Coordinator_Expiry Config_Properties
    Identity_Properties Admission_Properties Proxy_Properties Providers_Properties
    Durable_Queue_Properties Simulator_Properties Example_Adapter Fake_Provider Startup_Properties Cli_Properties
    Relay_Properties Management Config_Defaults Telemetry Cli_Main
begin

text \<open>
  A verification of InferQoS, a control plane that decides which requests of many tenants may use a finite
  capacity of language model providers, and when.  Paths below are relative to \<^verbatim>\<open>crates\<close> under the source directory.

  \<^bold>\<open>The program.\<close>  A request enters the proxy (\<^verbatim>\<open>proxy/src/lib.rs\<close>).  The identity resolver (\<^verbatim>\<open>identity\<close>) says who sent it, the
  policies of the configuration (\<^verbatim>\<open>config\<close>) give it a service class, and the provider of its pool (\<^verbatim>\<open>providers\<close>, or an external
  adapter behind \<^verbatim>\<open>provider-protocol\<close>) estimates its work.  The proxy counts it against the concurrency of its tenant and
  application and takes three leases at the coordinator (\<^verbatim>\<open>coordinator\<close>): the pool's capacity, a slot of the tenant
  and a slot of the application.  The capacity model (\<^verbatim>\<open>capacity\<close>) keeps the local ledger and learns a safety factor.  A
  request without room is queued in the scheduler (\<^verbatim>\<open>scheduler\<close>) and a dispatcher task retries the best queued
  request.  An admitted request is dispatched; a task relays the response, renews the leases, and gives
  everything back at the end.  Around this are the durable queues (\<^verbatim>\<open>durable-queue\<close>), the replay of traces
  (\<^verbatim>\<open>simulator\<close>), the command line (\<^verbatim>\<open>cli\<close>), telemetry, a provider for development (\<^verbatim>\<open>fake-provider\<close>) and an example adapter.

  \<^bold>\<open>Foundations.\<close>
  \<^item> \<^verbatim>\<open>F64\<close>, \<^verbatim>\<open>F64_Sum\<close>: Rust's floating point numbers with correctly rounded, executable operations, the laws of rounding
    (locale \<open>binary_format\<close>, interpreted for binary64 and binary32), and sums.
  \<^item> \<^verbatim>\<open>Prelude\<close>: 64-bit integers as naturals with their saturating and wrapping operations, durations and instants in nanoseconds,
    the ordered and the hashed map (locale \<open>keyed_store\<close>, interpreted for both), decimal numerals.
  \<^item> \<^verbatim>\<open>Core\<close>: the domain types of \<^verbatim>\<open>core\<close> and the check of \<^verbatim>\<open>provider-sdk\<close>.

  \<^bold>\<open>Components\<close>, each with the theory of its definitions and that of its properties.
  \<^item> \<^verbatim>\<open>Scheduler\<close>, \<^verbatim>\<open>Scheduler_Properties\<close> (\<^verbatim>\<open>scheduler\<close>): \<^verbatim>\<open>enqueue\<close>, \<^verbatim>\<open>cancel\<close>, \<^verbatim>\<open>pop_next\<close> and \<^verbatim>\<open>snapshot\<close> on the locked state.  Over all sequences of
    calls nothing panics and no request is lost or served twice; the operations refine one list per class, tenant and
    application; a pop takes the best score; overdue requests go first; pops drain a backlog.
  \<^item> \<^verbatim>\<open>Capacity\<close> (\<^verbatim>\<open>capacity\<close>): the ledger stays within the configured units and the safety factor between 1 and 4.
  \<^item> \<^verbatim>\<open>Coordinator\<close> (\<^verbatim>\<open>coordinator\<close>): both coordinators, the one in memory and the Lua scripts of Valkey with lost requests and replies.
    \<^verbatim>\<open>Lease_Ledger\<close> states the contract of leases as a locale and proves what follows over any sequence of calls;
    \<^verbatim>\<open>Coordinator_Memory\<close> and \<^verbatim>\<open>Coordinator_Valkey\<close> show that each coordinator meets it; \<^verbatim>\<open>Coordinator_Properties\<close> has the
    limits, the effect of rounding, and that the two decide alike; \<^verbatim>\<open>Coordinator_Expiry\<close> adds the life of the keys on the server.
  \<^item> \<^verbatim>\<open>Config\<close>, \<^verbatim>\<open>Config_Defaults\<close>, \<^verbatim>\<open>Config_Properties\<close> (\<^verbatim>\<open>config\<close>): structures, defaults, environment substitution, validation and
    loading.  Validation accepts exactly the valid configurations; substitution is that of a template.
  \<^item> \<^verbatim>\<open>Identity\<close>, \<^verbatim>\<open>Identity_Properties\<close> (\<^verbatim>\<open>identity\<close>): resolution and token verification with the key cache; where an identity
    can come from, and what a verified token has passed.
  \<^item> \<^verbatim>\<open>Admission\<close>, \<^verbatim>\<open>Admission_Leases\<close>, \<^verbatim>\<open>Admission_Properties\<close> (\<^verbatim>\<open>proxy\<close>): counters, the tenant's share, the three leases of an admission over the
    contract of the coordinator trait (locales \<open>lease_service\<close> and \<open>reliable_lease_service\<close>, interpreted for both
    coordinators), classes, decision history.  An admission holds all its leases or none.
  \<^item> \<^verbatim>\<open>Proxy\<close>, \<^verbatim>\<open>Proxy_Properties\<close> (\<^verbatim>\<open>proxy\<close>): the handler as the steps between its waits, the dispatcher's tick, the guard of an
    admission, the spool, the reload.  A tick keeps the counters balanced; a guard gives back once.
  \<^item> \<^verbatim>\<open>Relay\<close>, \<^verbatim>\<open>Relay_Properties\<close> (\<^verbatim>\<open>proxy\<close>): the task behind a response.  It delivers a prefix of the provider's chunks, returns the
    admission with its leases, and keeps the leases alive while it is scheduled in time, but not while the client stalls.
  \<^item> \<^verbatim>\<open>Management\<close> (\<^verbatim>\<open>proxy\<close>): the management routes and their pages, behind the token check.
  \<^item> \<^verbatim>\<open>Startup\<close>, \<^verbatim>\<open>Startup_Properties\<close> (\<^verbatim>\<open>proxy\<close>): \<^verbatim>\<open>AppState::build\<close>; a valid configuration never makes it panic.
  \<^item> \<^verbatim>\<open>Providers\<close>, \<^verbatim>\<open>Provider_Dispatch\<close>, \<^verbatim>\<open>Providers_Properties\<close> (\<^verbatim>\<open>providers\<close>): construction, credentials, targets, estimates, dispatch,
    usage.  Requests stay on the host and carry no client credential; responses are handed on in order.
  \<^item> \<^verbatim>\<open>Provider_Protocol\<close>, \<^verbatim>\<open>Provider_Protocol_Properties\<close>, \<^verbatim>\<open>Example_Adapter\<close> (\<^verbatim>\<open>provider-protocol\<close>): the client of external adapters, and
    what it makes of the answers of the example adapter.
  \<^item> \<^verbatim>\<open>Durable_Queue\<close>, \<^verbatim>\<open>Durable_Queue_Properties\<close> (\<^verbatim>\<open>durable-queue\<close>): the three queues; jobs are conserved.
  \<^item> \<^verbatim>\<open>Simulator\<close>, \<^verbatim>\<open>Simulator_Properties\<close> (\<^verbatim>\<open>simulator\<close>): the replay, its bounds and what of it depends on the order of a trace.
  \<^item> \<^verbatim>\<open>Cli\<close>, \<^verbatim>\<open>Cli_Main\<close>, \<^verbatim>\<open>Cli_Properties\<close> (\<^verbatim>\<open>cli\<close>): the commands as results with their effects; a deployment runs only after its checks,
    and the drain ends.
  \<^item> \<^verbatim>\<open>Telemetry\<close> (\<^verbatim>\<open>telemetry\<close>) and \<^verbatim>\<open>Fake_Provider\<close> (\<^verbatim>\<open>fake-provider\<close>): exporters, instruments and their labels; the permits of the
    development provider over all interleavings of its tasks.

  \<^bold>\<open>Reading the definitions.\<close>  A structure is a record and an enum a datatype.  An operation under a mutex is a function of the
  locked state; an asynchronous one is cut where it waits for another task.  A \<^verbatim>\<open>Result\<close> is a sum with the error on the left; a
  possible panic is an outer option.  The clock's reading, fresh identifiers, the iteration order of a hash map, the
  environment, files, and the answers and error texts of other programs and libraries are arguments.
  Integers wrap where the release profile lets them wrap.

  \<^bold>\<open>Bounds.\<close>  There is no fuel.  Loops are structural recursion on the list of what they consume, or have a termination
  proof (\<^verbatim>\<open>expand_env\<close>, the stream of the development provider).  The drain of \<^verbatim>\<open>serve\<close> is a partial function; it is proved to
  return within 600 rounds of 50 ms.  Whole numbers are exact in binary64 up to \<open>2 ^ 53\<close>; lease limits up to \<open>2 ^ 46\<close> units keep the sum
  of two of them within that.  Times below \<open>10 ^ 14\<close> ms, past the year 5000, are those Lua prints with all digits.

  \<^bold>\<open>Assumptions.\<close>  A tick of the dispatcher or of the reload and a call of \<^verbatim>\<open>reserve_distributed\<close> run without interleaving with other
  tasks of the process; the gap this hides between queueing and registering a request is a property of its
  own.  A Lua script runs atomically, and \<^verbatim>\<open>PEXPIRE\<close>, \<^verbatim>\<open>tonumber\<close> and \<^verbatim>\<open>tostring\<close> behave as documented.

  \<^bold>\<open>Not modelled.\<close>  The parsers of the command line, YAML, JSON, CSV, URLs, networks and tokens, the cloud SDKs and signers, HTTP,
  gRPC and TLS themselves, and the brokers: they are libraries, and enter as arguments.  The sockets of the servers,
  signal handlers, the generated gRPC messages beyond their fields, the channel over a Unix socket, the JSON
  schema, build scripts, benchmarks and the fuzz target: they only call such libraries.  The calls the
  proxy makes on telemetry, and log lines: no decision depends on them.  The texts of the dashboard are
  constants.
\<close>

end
